theory Spec2Isabelle
  imports Complex_Main "HOL-Library.Word" "HOL-Library.Monad_Syntax" "HOL-Library.Log_Nat"
begin

section \<open>Numbers of the AssemblyScript core\<close>

text \<open>
  The core (the third part of \<^verbatim>\<open>src/src/index.ts\<close>) is AssemblyScript: \<^verbatim>\<open>f64\<close> is an
  IEEE-754 binary64 value, \<^verbatim>\<open>number\<close> is an alias of \<^verbatim>\<open>f64\<close>, and
  \<^verbatim>\<open>type Timestamp = u64\<close> is an unsigned 64-bit integer.

  A binary64 value is embedded with its special values kept apart: not-a-number, the two
  infinities and the negative zero are constructors of their own, and every other value
  is carried as a real number (\<open>Fin 0\<close> is the positive zero). An operation on finite
  operands yields the exact real result: the rounding of each result to 53 significant
  bits is not part of this embedding, and the elementary functions are the real ones.
  What the embedding keeps exactly is the propagation of not-a-number, the arithmetic of
  infinities and signed zeros, the domains of \<^verbatim>\<open>sqrt\<close>, \<^verbatim>\<open>asin\<close> and \<^verbatim>\<open>acos\<close>, the rounding
  rule of \<^verbatim>\<open>Math.round\<close> and the conversion to a 64-bit integer.
\<close>

datatype f64 = NaN | PInf | MInf | NZero | Fin real

type_synonym Timestamp = "64 word"

fun f_neg :: "f64 \<Rightarrow> f64" where
  "f_neg NaN = NaN"
| "f_neg PInf = MInf"
| "f_neg MInf = PInf"
| "f_neg NZero = Fin 0"
| "f_neg (Fin x) = (if x = 0 then NZero else Fin (- x))"

fun f_add :: "f64 \<Rightarrow> f64 \<Rightarrow> f64" where
  "f_add NaN _ = NaN"
| "f_add _ NaN = NaN"
| "f_add PInf MInf = NaN"
| "f_add MInf PInf = NaN"
| "f_add PInf _ = PInf"
| "f_add _ PInf = PInf"
| "f_add MInf _ = MInf"
| "f_add _ MInf = MInf"
| "f_add NZero NZero = NZero"
| "f_add NZero (Fin y) = Fin y"
| "f_add (Fin x) NZero = Fin x"
| "f_add (Fin x) (Fin y) = Fin (x + y)"

definition f_sub :: "f64 \<Rightarrow> f64 \<Rightarrow> f64" where
  "f_sub a b = f_add a (f_neg b)"

fun f_mul :: "f64 \<Rightarrow> f64 \<Rightarrow> f64" where
  "f_mul NaN _ = NaN"
| "f_mul _ NaN = NaN"
| "f_mul PInf PInf = PInf"
| "f_mul PInf MInf = MInf"
| "f_mul MInf PInf = MInf"
| "f_mul MInf MInf = PInf"
| "f_mul PInf NZero = NaN"
| "f_mul MInf NZero = NaN"
| "f_mul NZero PInf = NaN"
| "f_mul NZero MInf = NaN"
| "f_mul PInf (Fin y) = (if y = 0 then NaN else if y < 0 then MInf else PInf)"
| "f_mul MInf (Fin y) = (if y = 0 then NaN else if y < 0 then PInf else MInf)"
| "f_mul (Fin x) PInf = (if x = 0 then NaN else if x < 0 then MInf else PInf)"
| "f_mul (Fin x) MInf = (if x = 0 then NaN else if x < 0 then PInf else MInf)"
| "f_mul NZero NZero = Fin 0"
| "f_mul NZero (Fin y) = (if y < 0 then Fin 0 else NZero)"
| "f_mul (Fin x) NZero = (if x < 0 then Fin 0 else NZero)"
| "f_mul (Fin x) (Fin y) =
     (if x * y = 0 then (if (x < 0) \<noteq> (y < 0) then NZero else Fin 0) else Fin (x * y))"

fun f_div :: "f64 \<Rightarrow> f64 \<Rightarrow> f64" where
  "f_div NaN _ = NaN"
| "f_div _ NaN = NaN"
| "f_div PInf PInf = NaN"
| "f_div PInf MInf = NaN"
| "f_div MInf PInf = NaN"
| "f_div MInf MInf = NaN"
| "f_div PInf NZero = MInf"
| "f_div MInf NZero = PInf"
| "f_div PInf (Fin y) = (if y < 0 then MInf else PInf)"
| "f_div MInf (Fin y) = (if y < 0 then PInf else MInf)"
| "f_div NZero PInf = NZero"
| "f_div NZero MInf = Fin 0"
| "f_div (Fin x) PInf = (if x < 0 then NZero else Fin 0)"
| "f_div (Fin x) MInf = (if x < 0 then Fin 0 else NZero)"
| "f_div NZero NZero = NaN"
| "f_div NZero (Fin y) = (if y = 0 then NaN else if y < 0 then Fin 0 else NZero)"
| "f_div (Fin x) NZero = (if x = 0 then NaN else if x < 0 then PInf else MInf)"
| "f_div (Fin x) (Fin y) =
     (if y = 0 then (if x = 0 then NaN else if x < 0 then MInf else PInf)
      else if x = 0 then (if y < 0 then NZero else Fin 0)
      else Fin (x / y))"

text \<open>The builtin \<^verbatim>\<open>sqrt\<close> (\<^verbatim>\<open>f64.sqrt\<close>): not-a-number below zero, the zeros keep their sign.\<close>

fun f_sqrt :: "f64 \<Rightarrow> f64" where
  "f_sqrt NaN = NaN"
| "f_sqrt PInf = PInf"
| "f_sqrt MInf = NaN"
| "f_sqrt NZero = NZero"
| "f_sqrt (Fin x) = (if x < 0 then NaN else Fin (sqrt x))"

fun f_sin :: "f64 \<Rightarrow> f64" where
  "f_sin NZero = NZero"
| "f_sin (Fin x) = Fin (sin x)"
| "f_sin _ = NaN"

fun f_cos :: "f64 \<Rightarrow> f64" where
  "f_cos NZero = Fin 1"
| "f_cos (Fin x) = Fin (cos x)"
| "f_cos _ = NaN"

text \<open>The tangent is the quotient of sine and cosine, also at the poles of the real function.\<close>

fun f_tan :: "f64 \<Rightarrow> f64" where
  "f_tan NZero = NZero"
| "f_tan (Fin x) = f_div (Fin (sin x)) (Fin (cos x))"
| "f_tan _ = NaN"

fun f_asin :: "f64 \<Rightarrow> f64" where
  "f_asin NZero = NZero"
| "f_asin (Fin x) = (if - 1 \<le> x \<and> x \<le> 1 then Fin (arcsin x) else NaN)"
| "f_asin _ = NaN"

fun f_acos :: "f64 \<Rightarrow> f64" where
  "f_acos NZero = Fin (pi / 2)"
| "f_acos (Fin x) = (if - 1 \<le> x \<and> x \<le> 1 then Fin (arccos x) else NaN)"
| "f_acos _ = NaN"

text \<open>
  \<^verbatim>\<open>Math.atan2(y, x)\<close> with its special cases: a zero \<open>y\<close> gives a zero or \<open>\<plusminus>\<pi>\<close> of the
  sign of \<open>y\<close>, a zero \<open>x\<close> gives \<open>\<plusminus>\<pi>/2\<close>, and the infinities give the limits.
\<close>

fun f_atan2 :: "f64 \<Rightarrow> f64 \<Rightarrow> f64" where
  "f_atan2 NaN _ = NaN"
| "f_atan2 _ NaN = NaN"
| "f_atan2 PInf PInf = Fin (pi / 4)"
| "f_atan2 PInf MInf = Fin (3 * pi / 4)"
| "f_atan2 MInf PInf = Fin (- (pi / 4))"
| "f_atan2 MInf MInf = Fin (- (3 * pi / 4))"
| "f_atan2 PInf _ = Fin (pi / 2)"
| "f_atan2 MInf _ = Fin (- (pi / 2))"
| "f_atan2 NZero PInf = NZero"
| "f_atan2 NZero MInf = Fin (- pi)"
| "f_atan2 (Fin y) PInf = (if y < 0 then NZero else Fin 0)"
| "f_atan2 (Fin y) MInf = (if y < 0 then Fin (- pi) else Fin pi)"
| "f_atan2 NZero NZero = Fin (- pi)"
| "f_atan2 NZero (Fin x) = (if x < 0 then Fin (- pi) else NZero)"
| "f_atan2 (Fin y) NZero =
     (if y = 0 then Fin pi else if y < 0 then Fin (- (pi / 2)) else Fin (pi / 2))"
| "f_atan2 (Fin y) (Fin x) =
     (if y = 0 then (if x < 0 then Fin pi else Fin 0)
      else if x = 0 then (if y < 0 then Fin (- (pi / 2)) else Fin (pi / 2))
      else if 0 < x then Fin (arctan (y / x))
      else if 0 < y then Fin (arctan (y / x) + pi)
      else Fin (arctan (y / x) - pi))"

text \<open>
  \<^verbatim>\<open>Math.round\<close>: the nearest integer, a tie going towards plus infinity; a negative
  argument that rounds to zero gives the negative zero.
\<close>

fun f_round :: "f64 \<Rightarrow> f64" where
  "f_round (Fin x) = (if \<lfloor>x + 1 / 2\<rfloor> = 0 \<and> x < 0 then NZero else Fin (of_int \<lfloor>x + 1 / 2\<rfloor>))"
| "f_round s = s"

text \<open>The comparison \<^verbatim>\<open><\<close>: false whenever an operand is not a number; the zeros are equal.\<close>

fun f_lt :: "f64 \<Rightarrow> f64 \<Rightarrow> bool" where
  "f_lt NaN _ = False"
| "f_lt _ NaN = False"
| "f_lt PInf _ = False"
| "f_lt _ MInf = False"
| "f_lt MInf _ = True"
| "f_lt _ PInf = True"
| "f_lt NZero NZero = False"
| "f_lt NZero (Fin y) = (0 < y)"
| "f_lt (Fin x) NZero = (x < 0)"
| "f_lt (Fin x) (Fin y) = (x < y)"

text \<open>
  \<^verbatim>\<open>a || b\<close> on \<^verbatim>\<open>f64\<close>: \<open>a\<close> when it is truthy (neither a zero nor not-a-number),
  \<open>b\<close> otherwise.
\<close>

definition truthy :: "f64 \<Rightarrow> bool" where
  "truthy a = (a \<noteq> NaN \<and> a \<noteq> NZero \<and> a \<noteq> Fin 0)"

definition f_or :: "f64 \<Rightarrow> f64 \<Rightarrow> f64" where
  "f_or a b = (if truthy a then a else b)"

text \<open>
  The finite values (the zeros and the reals) and the real number a finite value stands
  for; both zeros stand for 0.
\<close>

fun is_finite :: "f64 \<Rightarrow> bool" where
  "is_finite NZero = True"
| "is_finite (Fin x) = True"
| "is_finite _ = False"

fun f_val :: "f64 \<Rightarrow> real" where
  "f_val (Fin x) = x"
| "f_val _ = 0"

text \<open>
  The comparison \<^verbatim>\<open>==\<close>: false whenever an operand is not a number; the zeros are equal,
  and so is an infinity to itself.
\<close>

fun f_eq :: "f64 \<Rightarrow> f64 \<Rightarrow> bool" where
  "f_eq NaN _ = False"
| "f_eq _ NaN = False"
| "f_eq PInf b = (b = PInf)"
| "f_eq MInf b = (b = MInf)"
| "f_eq _ PInf = False"
| "f_eq _ MInf = False"
| "f_eq a b = (f_val a = f_val b)"

subsection \<open>The conversion \<^verbatim>\<open>as i64\<close>\<close>

text \<open>
  AssemblyScript lowers \<^verbatim>\<open>as i64\<close> on an \<^verbatim>\<open>f64\<close> to \<^verbatim>\<open>i64.trunc_sat_f64_s\<close> when the
  non-trapping float-to-int feature is on (the compiler's default) and to
  \<^verbatim>\<open>i64.trunc_f64_s\<close> otherwise. The first saturates and sends not-a-number to 0, the
  second traps on not-a-number, on the infinities and outside the range of \<^verbatim>\<open>i64\<close>. The
  build configuration is not among the sources, so the choice is a parameter; a trap is
  the value \<open>None\<close>.
\<close>

datatype f2i = Saturating | Trapping

definition trunc_real :: "real \<Rightarrow> int" where
  "trunc_real x = (if x < 0 then \<lceil>x\<rceil> else \<lfloor>x\<rfloor>)"

definition I64_MIN :: int where "I64_MIN = - (2 ^ 63)"
definition I64_MAX :: int where "I64_MAX = 2 ^ 63 - 1"

fun f64_as_i64 :: "f2i \<Rightarrow> f64 \<Rightarrow> 64 word option" where
  "f64_as_i64 Saturating NaN = Some 0"
| "f64_as_i64 Saturating PInf = Some (word_of_int I64_MAX)"
| "f64_as_i64 Saturating MInf = Some (word_of_int I64_MIN)"
| "f64_as_i64 Saturating NZero = Some 0"
| "f64_as_i64 Saturating (Fin x) =
     Some (word_of_int (max I64_MIN (min I64_MAX (trunc_real x))))"
| "f64_as_i64 Trapping NZero = Some 0"
| "f64_as_i64 Trapping (Fin x) =
     (if I64_MIN \<le> trunc_real x \<and> trunc_real x \<le> I64_MAX
      then Some (word_of_int (trunc_real x)) else None)"
| "f64_as_i64 Trapping _ = None"

section \<open>Date and time constants and conversions\<close>

definition MILLISECONDS_PER_DAY :: "32 word" where
  "MILLISECONDS_PER_DAY = 1000 * 60 * 60 * 24"

definition J1970 :: "32 word" where "J1970 = 2440588"
definition J2000 :: "32 word" where "J2000 = 2451545"

text \<open>The conversion \<^verbatim>\<open><f64>\<close> of a \<^verbatim>\<open>u32\<close> is exact.\<close>

definition u32_as_f64 :: "32 word \<Rightarrow> f64" where
  "u32_as_f64 w = Fin (real (unat w))"

definition PI :: f64 where "PI = Fin pi"
definition TO_RAD :: f64 where "TO_RAD = f_div PI (Fin 180)"
definition OBLIQUITY_OF_EARTH :: f64 where "OBLIQUITY_OF_EARTH = f_mul (Fin 23.4397) TO_RAD"
definition PERIHELION_OF_EARTH :: f64 where "PERIHELION_OF_EARTH = f_mul (Fin 102.9372) TO_RAD"

definition toJulian :: "f64 \<Rightarrow> f64" where
  "toJulian timestamp =
     f_add (f_sub (f_div timestamp (u32_as_f64 MILLISECONDS_PER_DAY)) (Fin 0.5))
           (u32_as_f64 J1970)"

text \<open>
  \<^verbatim>\<open>round((j + 0.5 - J1970 as f64) * MILLISECONDS_PER_DAY as f64) as i64\<close>, returned as
  \<^verbatim>\<open>Timestamp\<close>: the 64 bits of the \<^verbatim>\<open>i64\<close> are read as a \<^verbatim>\<open>u64\<close>. Here the sum, the
  difference and the product are exact; \<open>fromJulian_b64\<close> below rounds them.
\<close>

definition fromJulian :: "f2i \<Rightarrow> f64 \<Rightarrow> Timestamp option" where
  "fromJulian mode j =
     f64_as_i64 mode
       (f_round (f_mul (f_sub (f_add j (Fin 0.5)) (u32_as_f64 J1970))
                       (u32_as_f64 MILLISECONDS_PER_DAY)))"

definition toDays :: "f64 \<Rightarrow> f64" where
  "toDays timestamp = f_sub (toJulian timestamp) (u32_as_f64 J2000)"

section \<open>The time conversions in binary64 arithmetic\<close>

text \<open>
  The operations above compute with exact real numbers. \<^verbatim>\<open>toJulian\<close> and \<^verbatim>\<open>fromJulian\<close> use
  only \<^verbatim>\<open>/\<close>, \<^verbatim>\<open>-\<close>, \<^verbatim>\<open>+\<close>, \<^verbatim>\<open>*\<close> and \<^verbatim>\<open>Math.round\<close>, and IEEE 754 fixes the result of
  each of the four arithmetic operations on an \<^verbatim>\<open>f64\<close>: the exact result, rounded to the
  nearest number of 53 significant bits, ties to the even one. So both conversions are
  written out a second time with that rounding after every operation.

  \<open>expo x\<close> is the binary exponent of \<open>x\<close>, the \<open>e\<close> with \<open>2 powi e \<le> \<bar>x\<bar> < 2 powi (e + 1)\<close>.
\<close>

definition expo :: "real \<Rightarrow> int" where
  "expo x =
     (if 1 \<le> \<bar>x\<bar> then bitlen \<lfloor>\<bar>x\<bar>\<rfloor> - 1
      else let L = bitlen \<lfloor>1 / \<bar>x\<bar>\<rfloor>
           in if 1 / \<bar>x\<bar> = 2 powi (L - 1) then - (L - 1) else - L)"

definition round_half_even :: "real \<Rightarrow> int" where
  "round_half_even z =
     (let f = \<lfloor>z\<rfloor>
      in if z - of_int f < 1 / 2 then f
         else if 1 / 2 < z - of_int f then f + 1
         else if even f then f else f + 1)"

text \<open>
  The spacing of the \<^verbatim>\<open>f64\<close> numbers around \<open>x\<close> is \<open>2 powi quantum x\<close>; below the smallest
  normal number it stays at \<open>2 powi - 1074\<close>.
\<close>

definition quantum :: "real \<Rightarrow> int" where
  "quantum x = max (expo x - 52) (- 1074)"

definition b64_value :: "real \<Rightarrow> real" where
  "b64_value x = of_int (round_half_even (x / 2 powi quantum x)) * 2 powi quantum x"

text \<open>
  The rounding of an exact result to \<^verbatim>\<open>f64\<close>: overflow gives an infinity, underflow a zero
  of the sign of the exact result.
\<close>

fun b64 :: "f64 \<Rightarrow> f64" where
  "b64 (Fin x) =
     (if x = 0 then Fin 0
      else let y = b64_value x
           in if 2 ^ 1024 \<le> \<bar>y\<bar> then (if x < 0 then MInf else PInf)
              else if y = 0 \<and> x < 0 then NZero
              else Fin y)"
| "b64 s = s"

definition toJulian_b64 :: "f64 \<Rightarrow> f64" where
  "toJulian_b64 timestamp =
     b64 (f_add (b64 (f_sub (b64 (f_div timestamp (u32_as_f64 MILLISECONDS_PER_DAY))) (Fin 0.5)))
                (u32_as_f64 J1970))"

definition fromJulian_b64 :: "f2i \<Rightarrow> f64 \<Rightarrow> Timestamp option" where
  "fromJulian_b64 mode j =
     f64_as_i64 mode
       (f_round (b64 (f_mul (b64 (f_sub (b64 (f_add j (Fin 0.5))) (u32_as_f64 J1970)))
                            (u32_as_f64 MILLISECONDS_PER_DAY))))"

text \<open>
  The scaled value \<^verbatim>\<open>(j + 0.5 - J1970) * MILLISECONDS_PER_DAY\<close> of \<^verbatim>\<open>fromJulian\<close> as the
  code has it when it calls \<^verbatim>\<open>round\<close>: an \<^verbatim>\<open>f64\<close> number, the product already rounded.
\<close>

definition fromJulian_scaled_b64 :: "f64 \<Rightarrow> f64" where
  "fromJulian_scaled_b64 j =
     b64 (f_mul (b64 (f_sub (b64 (f_add j (Fin 0.5))) (u32_as_f64 J1970)))
                (u32_as_f64 MILLISECONDS_PER_DAY))"


section \<open>Result structures\<close>

text \<open>
  The classes of the core. A field without an initialiser holds 0 until it is assigned;
  every function below assigns each field it returns, or leaves it at the declared 0.
\<close>

record Position =
  azimuth :: f64
  altitude :: f64
  distance :: f64
  parallacticAngle :: f64

record SunTimes =
  solarNoon :: Timestamp
  nadir :: Timestamp
  sunrise :: Timestamp
  sunset :: Timestamp
  sunrise_end :: Timestamp
  sunsetStart :: Timestamp
  dawn :: Timestamp
  dusk :: Timestamp
  nauticalDawn :: Timestamp
  nauticalDusk :: Timestamp
  nightEnd :: Timestamp
  night :: Timestamp
  goldenHourEnd :: Timestamp
  goldenHour :: Timestamp

record Coords =
  rightAscension :: f64
  declination :: f64
  distance :: f64

record Illumination =
  fraction :: f64
  phase :: f64
  angle :: f64

section \<open>General calculations for position\<close>

definition rightAscension :: "f64 \<Rightarrow> f64 \<Rightarrow> f64" where
  "rightAscension l b =
     f_atan2 (f_sub (f_mul (f_sin l) (f_cos OBLIQUITY_OF_EARTH))
                    (f_mul (f_tan b) (f_sin OBLIQUITY_OF_EARTH)))
             (f_cos l)"

definition declination :: "f64 \<Rightarrow> f64 \<Rightarrow> f64" where
  "declination l b =
     f_asin (f_add (f_mul (f_sin b) (f_cos OBLIQUITY_OF_EARTH))
                   (f_mul (f_mul (f_cos b) (f_sin OBLIQUITY_OF_EARTH)) (f_sin l)))"

definition azimuth :: "f64 \<Rightarrow> f64 \<Rightarrow> f64 \<Rightarrow> f64" where
  "azimuth h phi dec =
     f_atan2 (f_sin h) (f_sub (f_mul (f_cos h) (f_sin phi)) (f_mul (f_tan dec) (f_cos phi)))"

definition altitude :: "f64 \<Rightarrow> f64 \<Rightarrow> f64 \<Rightarrow> f64" where
  "altitude h phi dec =
     f_asin (f_add (f_mul (f_sin phi) (f_sin dec))
                   (f_mul (f_mul (f_cos phi) (f_cos dec)) (f_cos h)))"

definition siderealTime :: "f64 \<Rightarrow> f64 \<Rightarrow> f64" where
  "siderealTime d lw =
     f_sub (f_mul (f_add (Fin 280.16) (f_mul (Fin 360.9856235) d)) TO_RAD) lw"

definition astro_refraction :: "f64 \<Rightarrow> f64" where
  "astro_refraction h =
     (let hh = (if f_lt h (Fin 0) then Fin 0 else h)
      in f_tan (f_div (Fin 0.0002967)
                      (f_add hh (f_div (Fin 0.00312536) (f_add hh (Fin 0.08901179))))))"

section \<open>General sun calculations\<close>

definition solar_mean_anomaly :: "f64 \<Rightarrow> f64" where
  "solar_mean_anomaly d = f_mul (f_add (Fin 357.5291) (f_mul (Fin 0.98560028) d)) TO_RAD"

definition equationOfCenter :: "f64 \<Rightarrow> f64" where
  "equationOfCenter m =
     f_mul (f_add (f_add (f_mul (Fin 1.9148) (f_sin (f_mul (Fin 1) m)))
                         (f_mul (Fin 0.02) (f_sin (f_mul (Fin 2) m))))
                  (f_mul (Fin 0.0003) (f_sin (f_mul (Fin 3) m))))
           TO_RAD"

definition eclipticLongitude :: "f64 \<Rightarrow> f64" where
  "eclipticLongitude m = f_add (f_add (f_add m (equationOfCenter m)) PERIHELION_OF_EARTH) PI"

section \<open>Calculations for sun times\<close>

definition J0 :: f64 where "J0 = Fin 0.0009"

definition julianCycle :: "f64 \<Rightarrow> f64 \<Rightarrow> f64" where
  "julianCycle d lw = f_round (f_sub (f_sub d J0) (f_div lw (f_mul (Fin 2) PI)))"

definition approxTransit :: "f64 \<Rightarrow> f64 \<Rightarrow> f64 \<Rightarrow> f64" where
  "approxTransit h_t lw n = f_add (f_add J0 (f_div (f_add h_t lw) (f_mul (Fin 2) PI))) n"

definition solarTransitJ :: "f64 \<Rightarrow> f64 \<Rightarrow> f64 \<Rightarrow> f64" where
  "solarTransitJ ds m l =
     f_sub (f_add (f_add (u32_as_f64 J2000) ds) (f_mul (Fin 0.0053) (f_sin m)))
           (f_mul (Fin 0.0069) (f_sin (f_mul (Fin 2) l)))"

text \<open>The argument that \<^verbatim>\<open>hourAngle\<close> passes to \<^verbatim>\<open>acos\<close>, and \<^verbatim>\<open>hourAngle\<close> itself.\<close>

definition hourAngle_arg :: "f64 \<Rightarrow> f64 \<Rightarrow> f64 \<Rightarrow> f64" where
  "hourAngle_arg h phi dec =
     f_div (f_sub (f_sin h) (f_mul (f_sin phi) (f_sin dec)))
           (f_mul (f_cos phi) (f_cos dec))"

definition hourAngle :: "f64 \<Rightarrow> f64 \<Rightarrow> f64 \<Rightarrow> f64" where
  "hourAngle h phi dec = f_acos (hourAngle_arg h phi dec)"

definition observerAngle :: "f64 \<Rightarrow> f64" where
  "observerAngle height = f_div (f_mul (Fin (- 2.076)) (f_sqrt height)) (Fin 60)"

definition get_set_j :: "f64 \<Rightarrow> f64 \<Rightarrow> f64 \<Rightarrow> f64 \<Rightarrow> f64 \<Rightarrow> f64 \<Rightarrow> f64 \<Rightarrow> f64" where
  "get_set_j h lw phi dec n m l =
     (let w = hourAngle h phi dec;
          a = approxTransit w lw n
      in solarTransitJ a m l)"

definition sunCoords :: "f64 \<Rightarrow> Coords" where
  "sunCoords d =
     (let m = solar_mean_anomaly d;
          l = eclipticLongitude m
      in \<lparr>Coords.rightAscension = rightAscension l (Fin 0),
          Coords.declination = declination l (Fin 0),
          Coords.distance = Fin 0\<rparr>)"

text \<open>
  The class \<^verbatim>\<open>SunTime\<close> holds one altitude threshold in degrees; its six static instances
  are the thresholds of the six pairs of times.
\<close>

datatype SunTime = SunTime (value_of: f64)

definition SUNRISE_SUNSET :: SunTime where "SUNRISE_SUNSET = SunTime (Fin (- 0.833))"
definition SUNRISE_END_SUNSET_START :: SunTime where
  "SUNRISE_END_SUNSET_START = SunTime (Fin (- 0.3))"
definition DAWN_DUSK :: SunTime where "DAWN_DUSK = SunTime (Fin (- 6))"
definition NAUTICAL_DAWN_NAUTICAL_DUSK :: SunTime where
  "NAUTICAL_DAWN_NAUTICAL_DUSK = SunTime (Fin (- 12))"
definition NIGHT_END_NIGHT :: SunTime where "NIGHT_END_NIGHT = SunTime (Fin (- 18))"
definition GOLDEN_HOUR_END_GOLDEN_HOUR :: SunTime where
  "GOLDEN_HOUR_END_GOLDEN_HOUR = SunTime (Fin 6)"

text \<open>
  The three locals of \<^verbatim>\<open>SunTime.calc\<close>: the threshold in radians \<open>h0\<close>, the Julian moment
  of the evening crossing \<open>j_set\<close> and its mirror image \<open>j_rise\<close>.
\<close>

definition calc_h0 :: "SunTime \<Rightarrow> f64 \<Rightarrow> f64" where
  "calc_h0 this dh = f_div (f_mul (f_add (value_of this) dh) PI) (Fin 180)"

definition calc_j_set :: "SunTime \<Rightarrow> f64 \<Rightarrow> f64 \<Rightarrow> f64 \<Rightarrow> f64 \<Rightarrow> f64 \<Rightarrow> f64 \<Rightarrow> f64 \<Rightarrow> f64" where
  "calc_j_set this dh lw phi dec n m l = get_set_j (calc_h0 this dh) lw phi dec n m l"

text \<open>
  The mirroring step \<^verbatim>\<open>j_rise = j_noon - (j_set - j_noon)\<close>, here with exact subtractions;
  \<open>calc_j_rise_b64\<close> below rounds them.
\<close>

definition calc_j_rise :: "f64 \<Rightarrow> f64 \<Rightarrow> f64" where
  "calc_j_rise j_noon j_set = f_sub j_noon (f_sub j_set j_noon)"

text \<open>\<^verbatim>\<open>calc\<close> returns the array \<^verbatim>\<open>[fromJulian(j_rise), fromJulian(j_set)]\<close>.\<close>

definition calc ::
  "f2i \<Rightarrow> SunTime \<Rightarrow> f64 \<Rightarrow> f64 \<Rightarrow> f64 \<Rightarrow> f64 \<Rightarrow> f64 \<Rightarrow> f64 \<Rightarrow> f64 \<Rightarrow> f64 \<Rightarrow> Timestamp list option" where
  "calc mode this j_noon dh lw phi dec n m l =
     (let j_set = calc_j_set this dh lw phi dec n m l;
          j_rise = calc_j_rise j_noon j_set
      in do {
        rise \<leftarrow> fromJulian mode j_rise;
        set \<leftarrow> fromJulian mode j_set;
        Some [rise, set]
      })"

text \<open>
  The values \<^verbatim>\<open>getTimes\<close> computes before it calls \<^verbatim>\<open>calc\<close>, in the order of the
  parameters of \<^verbatim>\<open>calc\<close>: \<open>(j_noon, dh, lw, phi, dec, n, m, l)\<close>.
\<close>

definition getTimes_args :: "f64 \<Rightarrow> f64 \<Rightarrow> f64 \<Rightarrow> f64 \<Rightarrow> f64 \<times> f64 \<times> f64 \<times> f64 \<times> f64 \<times> f64 \<times> f64 \<times> f64" where
  "getTimes_args timestamp lat lon h =
     (let height = h;
          lw = f_mul (f_neg lon) TO_RAD;
          phi = f_mul lat TO_RAD;
          dh = observerAngle height;
          d = toDays timestamp;
          n = julianCycle d lw;
          ds = approxTransit (Fin 0) lw n;
          m = solar_mean_anomaly ds;
          l = eclipticLongitude m;
          dec = declination l (Fin 0);
          j_noon = solarTransitJ ds m l
      in (j_noon, dh, lw, phi, dec, n, m, l))"

definition getTimes :: "f2i \<Rightarrow> f64 \<Rightarrow> f64 \<Rightarrow> f64 \<Rightarrow> f64 \<Rightarrow> SunTimes option" where
  "getTimes mode timestamp lat lon h =
     (case getTimes_args timestamp lat lon h of (j_noon, dh, lw, phi, dec, n, m, l) \<Rightarrow>
      do {
        time \<leftarrow> calc mode SUNRISE_SUNSET j_noon dh lw phi dec n m l;
        timeStart \<leftarrow> calc mode SUNRISE_END_SUNSET_START j_noon dh lw phi dec n m l;
        dawnDusk \<leftarrow> calc mode DAWN_DUSK j_noon dh lw phi dec n m l;
        nautical \<leftarrow> calc mode NAUTICAL_DAWN_NAUTICAL_DUSK j_noon dh lw phi dec n m l;
        nightTime \<leftarrow> calc mode NIGHT_END_NIGHT j_noon dh lw phi dec n m l;
        golden \<leftarrow> calc mode GOLDEN_HOUR_END_GOLDEN_HOUR j_noon dh lw phi dec n m l;
        noon \<leftarrow> fromJulian mode j_noon;
        nad \<leftarrow> fromJulian mode (f_sub j_noon (Fin 0.5));
        Some \<lparr>solarNoon = noon, nadir = nad,
              sunrise = time ! 0, sunset = time ! 1,
              sunrise_end = timeStart ! 0, sunsetStart = timeStart ! 1,
              dawn = dawnDusk ! 0, dusk = dawnDusk ! 1,
              nauticalDawn = nautical ! 0, nauticalDusk = nautical ! 1,
              nightEnd = nightTime ! 0, night = nightTime ! 1,
              goldenHourEnd = golden ! 0, goldenHour = golden ! 1\<rparr>
      })"

section \<open>General moon calculations\<close>

text \<open>
  The three lunar angles, here in exact arithmetic, where no product overflows;
  \<open>lunarMeanAnomaly_b64\<close> below rounds every operation.
\<close>

definition lunarMeanAnomaly :: "f64 \<Rightarrow> f64" where
  "lunarMeanAnomaly d = f_mul (f_add (Fin 134.963) (f_mul (Fin 13.064993) d)) TO_RAD"

definition lunarEclipticLongitude :: "f64 \<Rightarrow> f64" where
  "lunarEclipticLongitude d = f_mul (f_add (Fin 218.316) (f_mul (Fin 13.176396) d)) TO_RAD"

definition lunarMeanDistance :: "f64 \<Rightarrow> f64" where
  "lunarMeanDistance d = f_mul (f_add (Fin 93.272) (f_mul (Fin 13.229350) d)) TO_RAD"

text \<open>The local \<^verbatim>\<open>distance\<close> of \<^verbatim>\<open>moonCoords\<close>, in kilometres, before the fallback.\<close>

definition moon_distance :: "f64 \<Rightarrow> f64" where
  "moon_distance d = f_sub (Fin 385001) (f_mul (Fin 20905) (f_cos (lunarMeanAnomaly d)))"

definition moonCoords :: "f64 \<Rightarrow> Coords" where
  "moonCoords d =
     (let l = lunarEclipticLongitude d;
          m = lunarMeanAnomaly d;
          f = lunarMeanDistance d;
          lng = f_add l (f_mul (f_mul TO_RAD (Fin 6.289)) (f_sin m));
          lat = f_mul (f_mul TO_RAD (Fin 5.128)) (f_sin f);
          distance = moon_distance d
      in \<lparr>Coords.rightAscension = rightAscension lng lat,
          Coords.declination = declination lng lat,
          Coords.distance = f_or distance (Fin 0)\<rparr>)"

text \<open>The local \<^verbatim>\<open>pa\<close> of \<^verbatim>\<open>getMoonPosition\<close>, before the fallback.\<close>

definition moon_pa :: "f64 \<Rightarrow> f64 \<Rightarrow> f64 \<Rightarrow> f64" where
  "moon_pa timestamp lat lon =
     (let lw = f_mul TO_RAD (f_neg lon);
          phi = f_mul TO_RAD lat;
          d = toDays timestamp;
          c = moonCoords d;
          h = f_sub (siderealTime d lw) (Coords.rightAscension c)
      in f_atan2 (f_sin h)
           (f_sub (f_mul (f_tan phi) (f_cos (Coords.declination c)))
                  (f_mul (f_sin (Coords.declination c)) (f_cos h))))"

definition getMoonPosition :: "f64 \<Rightarrow> f64 \<Rightarrow> f64 \<Rightarrow> Position" where
  "getMoonPosition timestamp lat lon =
     (let lw = f_mul TO_RAD (f_neg lon);
          phi = f_mul TO_RAD lat;
          d = toDays timestamp;
          c = moonCoords d;
          h = f_sub (siderealTime d lw) (Coords.rightAscension c);
          alt = altitude h phi (Coords.declination c);
          alt = f_add alt (astro_refraction alt);
          pa = moon_pa timestamp lat lon
      in \<lparr>Position.azimuth = azimuth h phi (Coords.declination c),
          Position.altitude = alt,
          Position.distance = f_or (Coords.distance c) (Fin 0),
          parallacticAngle = f_or pa (Fin 0)\<rparr>)"

text \<open>
  The locals \<^verbatim>\<open>inc\<close> and \<^verbatim>\<open>angle\<close> of \<^verbatim>\<open>getMoonIllumination\<close>: the phase angle and the
  angle of the bright limb.
\<close>

definition illum_phi :: "Coords \<Rightarrow> Coords \<Rightarrow> f64" where
  "illum_phi s m =
     f_acos (f_add (f_mul (f_sin (Coords.declination s)) (f_sin (Coords.declination m)))
                   (f_mul (f_mul (f_cos (Coords.declination s)) (f_cos (Coords.declination m)))
                          (f_cos (f_sub (Coords.rightAscension s) (Coords.rightAscension m)))))"

definition illum_inc :: "f64 \<Rightarrow> f64" where
  "illum_inc timestamp =
     (let d = toDays timestamp;
          s = sunCoords d;
          m = moonCoords d;
          sdist = Fin 149598000;
          phi = illum_phi s m
      in f_atan2 (f_mul sdist (f_sin phi))
                 (f_sub (Coords.distance m) (f_mul sdist (f_cos phi))))"

definition illum_angle :: "f64 \<Rightarrow> f64" where
  "illum_angle timestamp =
     (let d = toDays timestamp;
          s = sunCoords d;
          m = moonCoords d
      in f_atan2
           (f_mul (f_cos (Coords.declination s))
                  (f_sin (f_sub (Coords.rightAscension s) (Coords.rightAscension m))))
           (f_sub (f_mul (f_sin (Coords.declination s)) (f_cos (Coords.declination m)))
                  (f_mul (f_mul (f_cos (Coords.declination s)) (f_sin (Coords.declination m)))
                         (f_cos (f_sub (Coords.rightAscension s) (Coords.rightAscension m))))))"

definition getMoonIllumination :: "f64 \<Rightarrow> Illumination" where
  "getMoonIllumination timestamp =
     (let inc = illum_inc timestamp;
          angle = illum_angle timestamp;
          sign = (if f_lt angle (Fin 0) then Fin (- 1) else Fin 1)
      in \<lparr>fraction = f_div (f_add (Fin 1) (f_cos inc)) (Fin 2),
          phase = f_add (Fin 0.5) (f_div (f_mul (f_mul (Fin 0.5) inc) sign) PI),
          angle = angle\<rparr>)"

section \<open>The mirroring step and the distance of the Moon in binary64 arithmetic\<close>

text \<open>
  The mirroring step \<^verbatim>\<open>j_rise = j_noon - (j_set - j_noon)\<close> of \<^verbatim>\<open>calc\<close>, each of its two
  subtractions rounded to \<^verbatim>\<open>f64\<close>.
\<close>

definition calc_j_rise_b64 :: "f64 \<Rightarrow> f64 \<Rightarrow> f64" where
  "calc_j_rise_b64 j_noon j_set = b64 (f_sub j_noon (b64 (f_sub j_set j_noon)))"

text \<open>
  \<^verbatim>\<open>Math.PI\<close> is the \<^verbatim>\<open>f64\<close> number nearest to \<open>\<pi>\<close>, and \<^verbatim>\<open>TO_RAD\<close> the rounded quotient
  \<^verbatim>\<open>Math.PI / 180.0\<close>.
\<close>

definition PI_b64 :: f64 where "PI_b64 = b64 PI"

definition TO_RAD_b64 :: f64 where "TO_RAD_b64 = b64 (f_div PI_b64 (Fin 180))"

text \<open>
  \<^verbatim>\<open>Math.cos\<close> belongs to the library of the language, not to the repository. Its result
  is taken to be the cosine rounded to \<^verbatim>\<open>f64\<close>; the library may differ from that in the
  last bit. What is proved below uses of it only that it is not-a-number at an infinity and
  a number from -1 to 1 at a finite argument.
\<close>

definition f_cos_b64 :: "f64 \<Rightarrow> f64" where "f_cos_b64 x = b64 (f_cos x)"

text \<open>
  \<^verbatim>\<open>lunarMeanAnomaly\<close> and the local \<^verbatim>\<open>distance\<close> of \<^verbatim>\<open>moonCoords\<close> with every operation
  rounded, the literals 134.963 and 13.064993 included; then the field \<^verbatim>\<open>distance\<close> that
  \<^verbatim>\<open>moonCoords\<close> returns, after the fallback \<^verbatim>\<open>|| 0\<close>.
\<close>

definition lunarMeanAnomaly_b64 :: "f64 \<Rightarrow> f64" where
  "lunarMeanAnomaly_b64 d =
     b64 (f_mul (b64 (f_add (b64 (Fin 134.963)) (b64 (f_mul (b64 (Fin 13.064993)) d))))
                TO_RAD_b64)"

definition moon_distance_b64 :: "f64 \<Rightarrow> f64" where
  "moon_distance_b64 d =
     b64 (f_sub (Fin 385001) (b64 (f_mul (Fin 20905) (f_cos_b64 (lunarMeanAnomaly_b64 d)))))"

definition moonCoords_distance_b64 :: "f64 \<Rightarrow> f64" where
  "moonCoords_distance_b64 d = f_or (moon_distance_b64 d) (Fin 0)"

section \<open>Vocabulary of the specification\<close>

text \<open>
  A number outside the interval from -1 to 1, the infinities included: where \<^verbatim>\<open>acos\<close>
  has no value. A threshold is never crossed on the day of a call of \<^verbatim>\<open>getTimes\<close> when
  the argument of \<^verbatim>\<open>acos\<close> in the hour angle of that threshold is such a number.
\<close>

fun outside_unit :: "f64 \<Rightarrow> bool" where
  "outside_unit PInf = True"
| "outside_unit MInf = True"
| "outside_unit (Fin x) = (x < - 1 \<or> 1 < x)"
| "outside_unit _ = False"

definition never_crossed :: "SunTime \<Rightarrow> f64 \<Rightarrow> f64 \<Rightarrow> f64 \<Rightarrow> f64 \<Rightarrow> bool" where
  "never_crossed this timestamp lat lon h =
     (case getTimes_args timestamp lat lon h of (j_noon, dh, lw, phi, dec, n, m, l) \<Rightarrow>
        outside_unit (hourAngle_arg (calc_h0 this dh) phi dec))"

text \<open>
  The altitude threshold of a pair of times as the specification words it: the threshold
  in degrees plus the correction \<open>-2.076 \<cdot> \<surd>height / 60\<close> for the height of the observer,
  in radians.
\<close>

definition corrected_threshold :: "real \<Rightarrow> f64 \<Rightarrow> f64" where
  "corrected_threshold degrees height =
     f_div (f_mul (f_add (Fin degrees)
                         (f_div (f_mul (Fin (- 2.076)) (f_sqrt height)) (Fin 60)))
                  PI)
           (Fin 180)"

text \<open>
  The mean anomaly and the ecliptic longitude of the Sun, in radians, that \<^verbatim>\<open>getTimes\<close>
  works with on 22 June 2000 at longitude 0 (the approximate transit is 172.0009 days
  after the epoch J2000).
\<close>

definition polar_M :: real where
  "polar_M = (357.5291 + 0.98560028 * 172.0009) * (pi / 180)"

definition polar_L :: real where
  "polar_L = polar_M
     + (1.9148 * sin (1 * polar_M) + 0.02 * sin (2 * polar_M) + 0.0003 * sin (3 * polar_M))
         * (pi / 180)
     + 102.9372 * (pi / 180) + pi"

section \<open>Auxiliary facts\<close>

subsection \<open>Constants, not-a-number and finite values\<close>

lemma u32_consts [simp]:
  "u32_as_f64 MILLISECONDS_PER_DAY = Fin 86400000"
  "u32_as_f64 J1970 = Fin 2440588"
  "u32_as_f64 J2000 = Fin 2451545"
  by (simp_all add: u32_as_f64_def MILLISECONDS_PER_DAY_def J1970_def J2000_def)

lemma trunc_real_of_int [simp]: "trunc_real (of_int i) = i"
  by (simp add: trunc_real_def)

lemma f_sub_Fin [simp]: "f_sub (Fin x) (Fin y) = Fin (x - y)"
  by (simp add: f_sub_def)

lemma f_add_NaN [simp]: "f_add a NaN = NaN"
  by (cases a) simp_all

lemma f_mul_NaN [simp]: "f_mul a NaN = NaN"
  by (cases a) simp_all

lemma f_div_NaN [simp]: "f_div a NaN = NaN"
  by (cases a) simp_all

lemma f_atan2_NaN [simp]: "f_atan2 a NaN = NaN"
  by (cases a) simp_all

lemma f_sub_NaN [simp]: "f_sub NaN b = NaN" "f_sub a NaN = NaN"
  by (simp_all add: f_sub_def)

lemma f_mul_Fin_pos: "0 < c \<Longrightarrow> f_mul (Fin a) (Fin c) = Fin (a * c)"
  by auto

text \<open>Finite operands: the operations act on the real values.\<close>

lemma fin_neg: "is_finite a \<Longrightarrow> is_finite (f_neg a) \<and> f_val (f_neg a) = - f_val a"
  by (cases a) simp_all

lemma fin_add:
  "is_finite a \<Longrightarrow> is_finite b \<Longrightarrow> is_finite (f_add a b) \<and> f_val (f_add a b) = f_val a + f_val b"
  by (cases a; cases b) simp_all

lemma fin_sub:
  "is_finite a \<Longrightarrow> is_finite b \<Longrightarrow> is_finite (f_sub a b) \<and> f_val (f_sub a b) = f_val a - f_val b"
  by (cases a; cases b) (simp_all add: f_sub_def)

lemma fin_mul:
  "is_finite a \<Longrightarrow> is_finite b \<Longrightarrow> is_finite (f_mul a b) \<and> f_val (f_mul a b) = f_val a * f_val b"
  by (cases a; cases b) auto

lemma fin_div:
  "is_finite a \<Longrightarrow> is_finite b \<Longrightarrow> f_val b \<noteq> 0 \<Longrightarrow>
   is_finite (f_div a b) \<and> f_val (f_div a b) = f_val a / f_val b"
  by (cases a; cases b) auto

lemma fin_sin: "is_finite a \<Longrightarrow> is_finite (f_sin a) \<and> f_val (f_sin a) = sin (f_val a)"
  by (cases a) simp_all

lemma fin_cos: "is_finite a \<Longrightarrow> is_finite (f_cos a) \<and> f_val (f_cos a) = cos (f_val a)"
  by (cases a) simp_all

lemma fin_asin:
  "is_finite a \<Longrightarrow> \<bar>f_val a\<bar> \<le> 1 \<Longrightarrow>
   is_finite (f_asin a) \<and> f_val (f_asin a) = arcsin (f_val a)"
  by (cases a) auto

lemma fin_acos:
  "is_finite a \<Longrightarrow> \<bar>f_val a\<bar> \<le> 1 \<Longrightarrow>
   is_finite (f_acos a) \<and> f_val (f_acos a) = arccos (f_val a)"
  by (cases a) auto

lemma fin_round:
  "is_finite a \<Longrightarrow> is_finite (f_round a) \<and> f_val (f_round a) = of_int \<lfloor>f_val a + 1 / 2\<rfloor>"
  by (cases a) auto

lemma fin_sqrt:
  "is_finite a \<Longrightarrow> 0 \<le> f_val a \<Longrightarrow> is_finite (f_sqrt a) \<and> f_val (f_sqrt a) = sqrt (f_val a)"
  by (cases a) auto

lemma cast_round_Fin:
  assumes "I64_MIN \<le> \<lfloor>s + 1 / 2\<rfloor>" and "\<lfloor>s + 1 / 2\<rfloor> \<le> I64_MAX"
  shows "f64_as_i64 mode (f_round (Fin s)) = Some (word_of_int \<lfloor>s + 1 / 2\<rfloor>)"
  using assms by (cases mode) auto

lemma fromJulian_Fin:
  assumes "I64_MIN \<le> \<lfloor>(x + 0.5 - 2440588) * 86400000 + 1 / 2\<rfloor>"
      and "\<lfloor>(x + 0.5 - 2440588) * 86400000 + 1 / 2\<rfloor> \<le> I64_MAX"
  shows "fromJulian mode (Fin x) = Some (word_of_int \<lfloor>(x + 0.5 - 2440588) * 86400000 + 1 / 2\<rfloor>)"
  unfolding fromJulian_def u32_consts f_add.simps f_sub_Fin
  by (subst f_mul_Fin_pos, simp, rule cast_round_Fin [OF assms])

lemma fromJulian_NaN [simp]: "fromJulian Saturating NaN = Some 0" "fromJulian Trapping NaN = None"
  by (simp_all add: fromJulian_def)

lemma cast_Saturating_total: "\<exists>w. f64_as_i64 Saturating a = Some w"
  by (cases a) simp_all

lemma fromJulian_Saturating_total: "\<exists>w. fromJulian Saturating j = Some w"
  by (simp add: fromJulian_def cast_Saturating_total)

lemma TO_RAD_Fin [simp]: "TO_RAD = Fin (pi / 180)"
  by (simp add: TO_RAD_def PI_def)

subsection \<open>The structure of \<^verbatim>\<open>calc\<close> and \<^verbatim>\<open>getTimes\<close>\<close>

lemma calc_Some:
  "calc mode this j_noon dh lw phi dec n m l = Some xs \<longleftrightarrow>
   (\<exists>rise set. xs = [rise, set] \<and>
      fromJulian mode (calc_j_rise j_noon (calc_j_set this dh lw phi dec n m l)) = Some rise \<and>
      fromJulian mode (calc_j_set this dh lw phi dec n m l) = Some set)"
  by (auto simp: calc_def Let_def bind_eq_Some_conv)

lemma getTimes_Some:
  assumes "getTimes mode timestamp lat lon h = Some r"
      and "getTimes_args timestamp lat lon h = (j_noon, dh, lw, phi, dec, n, m, l)"
  shows "calc mode SUNRISE_SUNSET j_noon dh lw phi dec n m l = Some [sunrise r, sunset r]"
    and "calc mode SUNRISE_END_SUNSET_START j_noon dh lw phi dec n m l
           = Some [sunrise_end r, sunsetStart r]"
    and "calc mode DAWN_DUSK j_noon dh lw phi dec n m l = Some [dawn r, dusk r]"
    and "calc mode NAUTICAL_DAWN_NAUTICAL_DUSK j_noon dh lw phi dec n m l
           = Some [nauticalDawn r, nauticalDusk r]"
    and "calc mode NIGHT_END_NIGHT j_noon dh lw phi dec n m l = Some [nightEnd r, night r]"
    and "calc mode GOLDEN_HOUR_END_GOLDEN_HOUR j_noon dh lw phi dec n m l
           = Some [goldenHourEnd r, goldenHour r]"
    and "fromJulian mode j_noon = Some (solarNoon r)"
    and "fromJulian mode (f_sub j_noon (Fin 0.5)) = Some (nadir r)"
  using assms
  by (auto simp: getTimes_def bind_eq_Some_conv calc_Some)

lemma calc_h0_corrected:
  "calc_h0 (SunTime (Fin v)) (observerAngle h) = corrected_threshold v h"
  by (simp add: calc_h0_def corrected_threshold_def observerAngle_def)

lemma getTimes_args_dh:
  "getTimes_args timestamp lat lon h = (j_noon, dh, lw, phi, dec, n, m, l) \<Longrightarrow> dh = observerAngle h"
  by (simp add: getTimes_args_def Let_def)

lemma calc_fields:
  assumes "calc mode (SunTime (Fin v)) j_noon (observerAngle h) lw phi dec n m l = Some [a, b]"
  shows "fromJulian mode
           (f_sub j_noon
              (f_sub (solarTransitJ (approxTransit (hourAngle (corrected_threshold v h) phi dec) lw n) m l)
                     j_noon)) = Some a"
    and "fromJulian mode
           (solarTransitJ (approxTransit (hourAngle (corrected_threshold v h) phi dec) lw n) m l) = Some b"
  using assms
  by (simp_all add: calc_Some calc_j_set_def calc_j_rise_def get_set_j_def Let_def calc_h0_corrected)

lemma getTimes_args_NaN:
  "getTimes_args NaN NaN NaN NaN = (NaN, NaN, NaN, NaN, NaN, NaN, NaN, NaN)"
  by (simp add: getTimes_args_def Let_def observerAngle_def toDays_def toJulian_def julianCycle_def
        approxTransit_def solar_mean_anomaly_def eclipticLongitude_def equationOfCenter_def
        declination_def solarTransitJ_def)

lemma calc_NaN: "calc Saturating this NaN NaN NaN NaN NaN NaN NaN NaN = Some [0, 0]"
  by (simp add: calc_def calc_j_set_def calc_j_rise_def get_set_j_def calc_h0_def hourAngle_def
        approxTransit_def solarTransitJ_def Let_def)

lemma getTimes_NaN:
  "getTimes Saturating NaN NaN NaN NaN =
     Some \<lparr>solarNoon = 0, nadir = 0, sunrise = 0, sunset = 0, sunrise_end = 0, sunsetStart = 0,
           dawn = 0, dusk = 0, nauticalDawn = 0, nauticalDusk = 0, nightEnd = 0, night = 0,
           goldenHourEnd = 0, goldenHour = 0\<rparr>"
  by (simp add: getTimes_def getTimes_args_NaN calc_NaN)

lemma calc_hourAngle_NaN:
  assumes "hourAngle (calc_h0 this dh) phi dec = NaN"
  shows "calc Saturating this j_noon dh lw phi dec n m l = Some [0, 0]"
    and "calc Trapping this j_noon dh lw phi dec n m l = None"
proof -
  have "calc_j_set this dh lw phi dec n m l = NaN"
    by (simp add: calc_j_set_def get_set_j_def assms approxTransit_def solarTransitJ_def)
  thus "calc Saturating this j_noon dh lw phi dec n m l = Some [0, 0]"
   and "calc Trapping this j_noon dh lw phi dec n m l = None"
    by (simp_all add: calc_def calc_j_rise_def)
qed

lemma calc_Saturating_total: "\<exists>a b. calc Saturating this j_noon dh lw phi dec n m l = Some [a, b]"
  using fromJulian_Saturating_total [of "calc_j_rise j_noon (calc_j_set this dh lw phi dec n m l)"]
        fromJulian_Saturating_total [of "calc_j_set this dh lw phi dec n m l"]
  by (auto simp: calc_Some)

lemma getTimes_Saturating_total: "\<exists>r. getTimes Saturating timestamp lat lon h = Some r"
proof -
  obtain j_noon dh lw phi dec n m l
    where a: "getTimes_args timestamp lat lon h = (j_noon, dh, lw, phi, dec, n, m, l)"
    by (simp add: getTimes_args_def Let_def)
  obtain a1 b1 where c1: "calc Saturating SUNRISE_SUNSET j_noon dh lw phi dec n m l = Some [a1, b1]"
    using calc_Saturating_total by blast
  obtain a2 b2 where c2: "calc Saturating SUNRISE_END_SUNSET_START j_noon dh lw phi dec n m l = Some [a2, b2]"
    using calc_Saturating_total by blast
  obtain a3 b3 where c3: "calc Saturating DAWN_DUSK j_noon dh lw phi dec n m l = Some [a3, b3]"
    using calc_Saturating_total by blast
  obtain a4 b4 where c4: "calc Saturating NAUTICAL_DAWN_NAUTICAL_DUSK j_noon dh lw phi dec n m l = Some [a4, b4]"
    using calc_Saturating_total by blast
  obtain a5 b5 where c5: "calc Saturating NIGHT_END_NIGHT j_noon dh lw phi dec n m l = Some [a5, b5]"
    using calc_Saturating_total by blast
  obtain a6 b6 where c6: "calc Saturating GOLDEN_HOUR_END_GOLDEN_HOUR j_noon dh lw phi dec n m l = Some [a6, b6]"
    using calc_Saturating_total by blast
  obtain w1 where f1: "fromJulian Saturating j_noon = Some w1"
    using fromJulian_Saturating_total by blast
  obtain w2 where f2: "fromJulian Saturating (f_sub j_noon (Fin 0.5)) = Some w2"
    using fromJulian_Saturating_total by blast
  show ?thesis
    using f2 by (simp add: getTimes_def a c1 c2 c3 c4 c5 c6 f1)
qed

lemma getTimes_pair_zero:
  fixes rise_f set_f :: "SunTimes \<Rightarrow> Timestamp"
  assumes args: "getTimes_args timestamp lat lon h = (j_noon, dh, lw, phi, dec, n, m, l)"
      and nan: "hourAngle (calc_h0 this dh) phi dec = NaN"
      and c: "\<And>r. getTimes Saturating timestamp lat lon h = Some r \<Longrightarrow>
                calc Saturating this j_noon dh lw phi dec n m l = Some [rise_f r, set_f r]"
      and t: "\<And>r. getTimes Trapping timestamp lat lon h = Some r \<Longrightarrow>
                \<exists>xs. calc Trapping this j_noon dh lw phi dec n m l = Some xs"
  shows "map_option rise_f (getTimes Saturating timestamp lat lon h) = Some 0 \<and>
         map_option set_f (getTimes Saturating timestamp lat lon h) = Some 0 \<and>
         getTimes Trapping timestamp lat lon h = None"
proof -
  obtain r where r: "getTimes Saturating timestamp lat lon h = Some r"
    using getTimes_Saturating_total by blast
  from c [OF r] calc_hourAngle_NaN(1) [OF nan, of j_noon lw n m l]
  have "rise_f r = 0" "set_f r = 0" by simp_all
  moreover have "getTimes Trapping timestamp lat lon h = None"
  proof (cases "getTimes Trapping timestamp lat lon h")
    case (Some r')
    from t [OF Some] calc_hourAngle_NaN(2) [OF nan, of j_noon lw n m l] show ?thesis by simp
  qed simp
  ultimately show ?thesis by (simp add: r)
qed

subsection \<open>The fallback \<^verbatim>\<open>|| 0\<close>\<close>

lemma f_or_cases:
  "f_or a (Fin 0) = (if a = NaN \<or> a = NZero \<or> a = Fin 0 then Fin 0 else a)"
  by (simp add: f_or_def truthy_def)

lemma lunarMeanAnomaly_fin:
  "is_finite d \<Longrightarrow> is_finite (lunarMeanAnomaly d)"
  by (cases d) (auto simp: lunarMeanAnomaly_def)

lemma moon_distance_fin:
  assumes "is_finite d"
  shows "Coords.distance (moonCoords d) =
           f_sub (Fin 385001) (f_mul (Fin 20905) (f_cos (lunarMeanAnomaly d))) \<and>
         is_finite (Coords.distance (moonCoords d)) \<and>
         364096 \<le> f_val (Coords.distance (moonCoords d)) \<and>
         f_val (Coords.distance (moonCoords d)) \<le> 405906 \<and>
         f_val (Coords.distance (moonCoords d)) =
           385001 - 20905 * cos (f_val (lunarMeanAnomaly d))"
proof -
  let ?m = "lunarMeanAnomaly d"
  have m: "is_finite ?m" using assms by (rule lunarMeanAnomaly_fin)
  have c: "is_finite (f_cos ?m)" "f_val (f_cos ?m) = cos (f_val ?m)"
    using fin_cos [OF m] by simp_all
  have p: "is_finite (f_mul (Fin 20905) (f_cos ?m))"
          "f_val (f_mul (Fin 20905) (f_cos ?m)) = 20905 * cos (f_val ?m)"
    using fin_mul [of "Fin 20905" "f_cos ?m"] c by simp_all
  have s: "is_finite (moon_distance d)"
          "f_val (moon_distance d) = 385001 - 20905 * cos (f_val ?m)"
    using fin_sub [of "Fin 385001" "f_mul (Fin 20905) (f_cos ?m)"] p
    by (simp_all add: moon_distance_def)
  have lo: "364096 \<le> f_val (moon_distance d)" and hi: "f_val (moon_distance d) \<le> 405906"
    using cos_le_one [of "f_val ?m"] cos_ge_minus_one [of "f_val ?m"] unfolding s(2) by linarith+
  have t: "truthy (moon_distance d)"
    using s(1) lo by (cases "moon_distance d") (simp_all add: truthy_def)
  have e: "Coords.distance (moonCoords d) = moon_distance d"
    using t by (simp add: moonCoords_def Let_def f_or_def)
  show ?thesis
    unfolding e using s lo hi by (simp add: moon_distance_def)
qed

subsection \<open>Midsummer at latitude 78\<close>

lemma sin4: "sin (x - 4 * pi) = sin (x::real)"
proof -
  have "sin x = sin ((x - 4 * pi) + 2 * pi + 2 * pi)" by (simp add: algebra_simps)
  also have "\<dots> = sin (x - 4 * pi)" by (simp only: sin_periodic)
  finally show ?thesis by simp
qed

lemma center_bound':
  fixes a b c :: real
  assumes "\<bar>a\<bar> \<le> 1" "\<bar>b\<bar> \<le> 1" "\<bar>c\<bar> \<le> 1"
  shows "\<bar>1.9148 * a + 0.02 * b + 0.0003 * c\<bar> \<le> 2"
  using assms unfolding abs_le_iff by (simp; linarith)

lemma midsummer_sin_longitude:
  fixes M C :: real
  defines "M \<equiv> (357.5291 + 0.98560028 * 172.0009) * (pi / 180)"
  defines "C \<equiv> (1.9148 * sin (1 * M) + 0.02 * sin (2 * M) + 0.0003 * sin (3 * M)) * (pi / 180)"
  shows "cos (2.01 * (pi / 180)) \<le> sin (M + C + 102.9372 * (pi / 180) + pi)"
proof -
  let ?L = "M + C + 102.9372 * (pi / 180) + pi"
  define q where "q = 1.9148 * sin (1 * M) + 0.02 * sin (2 * M) + 0.0003 * sin (3 * M)"
  have q: "\<bar>q\<bar> \<le> 2"
    unfolding q_def by (rule center_bound') (rule abs_sin_le_one)+
  have L: "?L - 4 * pi = pi / 2 - (0.009564799748 - q) * (pi / 180)"
    unfolding M_def C_def q_def by (simp add: algebra_simps)
  have "sin ?L = sin (?L - 4 * pi)" by (simp only: sin4)
  also have "\<dots> = cos ((0.009564799748 - q) * (pi / 180))"
    unfolding L using cos_sin_eq [of "(0.009564799748 - q) * (pi / 180)"] by simp
  also have "\<dots> = cos \<bar>(0.009564799748 - q) * (pi / 180)\<bar>" by (simp only: cos_abs_real)
  finally have s: "sin ?L = cos \<bar>(0.009564799748 - q) * (pi / 180)\<bar>" .
  have "\<bar>0.009564799748 - q\<bar> \<le> 2.01" using q by (simp add: field_simps abs_le_iff)
  hence "\<bar>0.009564799748 - q\<bar> * (pi / 180) \<le> 2.01 * (pi / 180)"
    using pi_gt_zero by (intro mult_right_mono) simp_all
  hence b: "\<bar>(0.009564799748 - q) * (pi / 180)\<bar> \<le> 2.01 * (pi / 180)"
    using pi_gt_zero by (simp add: abs_mult)
  have "cos (2.01 * (pi / 180)) \<le> cos \<bar>(0.009564799748 - q) * (pi / 180)\<bar>"
    by (rule cos_monotone_0_pi_le [OF _ b]) (use pi_gt_zero in \<open>simp_all\<close>)
  thus ?thesis by (simp only: s)
qed

lemma sin_sum_diff: "sin (a + b) + sin (a - b) = 2 * (sin a * cos b)" for a b :: real
  by (simp add: sin_add sin_diff)

lemma midsummer_declination_sine:
  fixes sL :: real
  assumes "cos (2.01 * (pi / 180)) \<le> sL" "sL \<le> 1"
  shows "sin (pi / 10) < sin (23.4397 * (pi / 180)) * sL"
    and "sin (23.4397 * (pi / 180)) * sL < 1"
proof -
  let ?e = "23.4397 * (pi / 180) :: real" and ?b = "2.01 * (pi / 180) :: real"
  have e0: "0 < sin ?e"
    by (rule sin_gt_zero) (use pi_gt_zero in \<open>simp_all\<close>)
  have "sin ?e < sin (pi / 2)"
    by (rule sin_monotone_2pi) (use pi_gt_zero in \<open>(simp; linarith)+\<close>)
  hence e1: "sin ?e < 1" by simp
  have "sin ?e * sL \<le> sin ?e * 1"
    using e0 assms(2) by (intro mult_left_mono) simp_all
  thus "sin ?e * sL < 1" using e1 by simp
  have "sin (?e - ?b) \<le> sin (?e + ?b)"
    by (rule sin_monotone_2pi_le) (use pi_gt_zero in \<open>(simp; linarith)+\<close>)
  moreover have "sin (?e + ?b) + sin (?e - ?b) = 2 * (sin ?e * cos ?b)"
    by (rule sin_sum_diff)
  ultimately have "sin (?e - ?b) \<le> sin ?e * cos ?b" by linarith
  moreover have "sin ?e * cos ?b \<le> sin ?e * sL"
    using e0 assms(1) by (intro mult_left_mono) simp_all
  moreover have "sin (pi / 10) < sin (?e - ?b)"
    by (rule sin_monotone_2pi) (use pi_gt_zero in \<open>(simp; linarith)+\<close>)
  ultimately show "sin (pi / 10) < sin ?e * sL" by linarith
qed

lemma midnight_sun:
  fixes s h0 :: real
  assumes s: "sin (pi / 10) < s" "s < 1"
      and h0: "- (pi / 2) \<le> h0" "h0 \<le> 6 * (pi / 180)"
  shows "(sin h0 - sin (78 * (pi / 180)) * sin (arcsin s))
           / (cos (78 * (pi / 180)) * cos (arcsin s)) < - 1"
proof -
  let ?p = "78 * (pi / 180) :: real" and ?d = "arcsin s"
  have s0: "0 < s"
    using s(1) sin_gt_zero [of "pi / 10"] pi_gt_zero by simp
  have "arcsin (sin (pi / 10)) < arcsin s"
    using s s0 by (intro arcsin_less_arcsin) (simp_all add: order.trans [OF _ sin_ge_minus_one])
  moreover have "arcsin (sin (pi / 10)) = pi / 10"
    by (rule arcsin_sin) (use pi_gt_zero in \<open>simp_all\<close>)
  ultimately have d1: "pi / 10 < ?d" by simp
  have d2: "?d < pi / 2" "- (pi / 2) < ?d"
    using arcsin_lt_bounded [of s] s s0 by simp_all
  have cp: "0 < cos ?p"
    by (rule cos_gt_zero_pi) (use pi_gt_zero in \<open>(simp; linarith)+\<close>)
  have cd: "0 < cos ?d"
    using d2 by (intro cos_gt_zero_pi)
  have den: "0 < cos ?p * cos ?d" using cp cd by simp
  have "cos (?p + ?d) < cos (96 * (pi / 180))"
    by (rule cos_monotone_0_pi) (use pi_gt_zero d1 d2 in \<open>(simp; linarith)+\<close>)
  moreover have "cos (96 * (pi / 180)) = - sin (6 * (pi / 180))"
    using minus_sin_cos_eq [of "6 * (pi / 180) :: real"] by (simp add: algebra_simps)
  moreover have "sin h0 \<le> sin (6 * (pi / 180))"
    by (rule sin_monotone_2pi_le) (use pi_gt_zero h0 in \<open>(simp; linarith)+\<close>)
  moreover have "cos (?p + ?d) = cos ?p * cos ?d - sin ?p * sin ?d"
    by (rule cos_add)
  ultimately have "sin h0 - sin ?p * sin ?d < - (cos ?p * cos ?d)" by linarith
  thus ?thesis using den by (simp only: pos_divide_less_eq)
qed

lemmas fin_simps =
  fin_neg [THEN conjunct1] fin_neg [THEN conjunct2]
  fin_add [THEN conjunct1] fin_add [THEN conjunct2]
  fin_sub [THEN conjunct1] fin_sub [THEN conjunct2]
  fin_mul [THEN conjunct1] fin_mul [THEN conjunct2]
  fin_div [THEN conjunct1] fin_div [THEN conjunct2]
  fin_sin [THEN conjunct1] fin_sin [THEN conjunct2]
  fin_cos [THEN conjunct1] fin_cos [THEN conjunct2]
  fin_round [THEN conjunct1] fin_round [THEN conjunct2]

lemma polar_lw: "f_mul (f_neg (Fin 0)) TO_RAD = NZero" by simp
lemma polar_dh: "observerAngle (Fin 0) = NZero" by (simp add: observerAngle_def)
lemma polar_d: "toDays (Fin 961632000000) = Fin 172.5"
  by (simp add: toDays_def toJulian_def)
lemma polar_n: "julianCycle (Fin 172.5) NZero = Fin 172"
  by (simp add: julianCycle_def J0_def PI_def f_sub_def)
lemma polar_ds: "approxTransit (Fin 0) NZero (Fin 172) = Fin 172.0009"
  by (simp add: approxTransit_def J0_def PI_def)
lemma polar_m: "solar_mean_anomaly (Fin 172.0009) = Fin ((357.5291 + 0.98560028 * 172.0009) * (pi / 180))"
  by (simp add: solar_mean_anomaly_def)

lemma polar_l: "is_finite (eclipticLongitude (Fin polar_M)) \<and> f_val (eclipticLongitude (Fin polar_M)) = polar_L"
  by (simp add: eclipticLongitude_def equationOfCenter_def PERIHELION_OF_EARTH_def PI_def fin_simps polar_L_def)

lemma declination_zero_lat:
  assumes "is_finite l"
  shows "is_finite (declination l (Fin 0)) \<and>
         f_val (declination l (Fin 0)) = arcsin (sin (23.4397 * (pi / 180)) * sin (f_val l))"
proof -
  let ?a = "f_add (f_mul (f_sin (Fin 0)) (f_cos OBLIQUITY_OF_EARTH))
                  (f_mul (f_mul (f_cos (Fin 0)) (f_sin OBLIQUITY_OF_EARTH)) (f_sin l))"
  have a: "is_finite ?a" "f_val ?a = sin (23.4397 * (pi / 180)) * sin (f_val l)"
    using assms by (simp_all add: OBLIQUITY_OF_EARTH_def fin_simps)
  have "\<bar>sin (23.4397 * (pi / 180)) * sin (f_val l)\<bar> \<le> 1 * 1"
    unfolding abs_mult by (intro mult_mono) simp_all
  hence "\<bar>f_val ?a\<bar> \<le> 1" by (simp only: a(2) mult_1)
  from fin_asin [OF a(1) this] show ?thesis unfolding declination_def a(2) .
qed

lemma hourAngle_NaN_if_outside: "outside_unit (hourAngle_arg h phi dec) \<Longrightarrow> hourAngle h phi dec = NaN"
  by (cases "hourAngle_arg h phi dec") (auto simp: hourAngle_def)

lemma outside_unit_below: "is_finite a \<Longrightarrow> f_val a < - 1 \<Longrightarrow> outside_unit a"
  by (cases a) simp_all

lemma polar_args:
  "getTimes_args (Fin 961632000000) (Fin 78) (Fin 0) (Fin 0) =
     (solarTransitJ (Fin 172.0009) (Fin polar_M) (eclipticLongitude (Fin polar_M)),
      NZero, NZero, Fin (78 * (pi / 180)),
      declination (eclipticLongitude (Fin polar_M)) (Fin 0),
      Fin 172, Fin polar_M, eclipticLongitude (Fin polar_M))"
  unfolding getTimes_args_def Let_def polar_lw polar_dh polar_d polar_n polar_ds polar_m polar_M_def
  by simp

lemma polar_dec:
  "is_finite (declination (eclipticLongitude (Fin polar_M)) (Fin 0))"
  "f_val (declination (eclipticLongitude (Fin polar_M)) (Fin 0))
     = arcsin (sin (23.4397 * (pi / 180)) * sin polar_L)"
  using declination_zero_lat [of "eclipticLongitude (Fin polar_M)"] polar_l by simp_all

lemma polar_s:
  "sin (pi / 10) < sin (23.4397 * (pi / 180)) * sin polar_L"
  "sin (23.4397 * (pi / 180)) * sin polar_L < 1"
proof -
  have "cos (2.01 * (pi / 180)) \<le> sin polar_L"
    unfolding polar_L_def polar_M_def by (rule midsummer_sin_longitude)
  from midsummer_declination_sine [OF this sin_le_one]
  show "sin (pi / 10) < sin (23.4397 * (pi / 180)) * sin polar_L"
       "sin (23.4397 * (pi / 180)) * sin polar_L < 1" .
qed

lemma polar_outside:
  assumes "- 90 \<le> v" "v \<le> 6" "v \<noteq> 0"
  shows "outside_unit (hourAngle_arg (calc_h0 (SunTime (Fin v)) NZero) (Fin (78 * (pi / 180)))
           (declination (eclipticLongitude (Fin polar_M)) (Fin 0)))"
proof -
  let ?dec = "declination (eclipticLongitude (Fin polar_M)) (Fin 0)"
  let ?s = "sin (23.4397 * (pi / 180)) * sin polar_L"
  have h0: "calc_h0 (SunTime (Fin v)) NZero = Fin (v * pi / 180)"
    using assms(3) by (simp add: calc_h0_def PI_def)
  have s0: "0 < ?s" using polar_s(1) sin_gt_zero [of "pi / 10"] pi_gt_zero by simp
  have "- (pi / 2) < arcsin ?s \<and> arcsin ?s < pi / 2"
    using arcsin_lt_bounded [of ?s] polar_s(2) s0 by simp
  hence cd: "0 < cos (arcsin ?s)" by (intro cos_gt_zero_pi) simp_all
  have cp: "0 < cos (78 * (pi / 180))"
    by (rule cos_gt_zero_pi) (use pi_gt_zero in \<open>(simp; linarith)+\<close>)
  have nz: "cos (78 * (pi / 180)) * cos (arcsin ?s) \<noteq> 0" using cp cd by simp
  have fin: "is_finite (hourAngle_arg (Fin (v * pi / 180)) (Fin (78 * (pi / 180))) ?dec)"
    and val: "f_val (hourAngle_arg (Fin (v * pi / 180)) (Fin (78 * (pi / 180))) ?dec)
      = (sin (v * pi / 180) - sin (78 * (pi / 180)) * sin (arcsin ?s))
          / (cos (78 * (pi / 180)) * cos (arcsin ?s))"
    unfolding hourAngle_arg_def using nz polar_dec by (simp_all add: fin_simps)
  have "(- 90) * pi \<le> v * pi" "v * pi \<le> 6 * pi"
    using assms pi_gt_zero by (intro mult_right_mono; simp)+
  hence "- (pi / 2) \<le> v * pi / 180" "v * pi / 180 \<le> 6 * (pi / 180)"
    by simp_all
  from midnight_sun [OF polar_s this]
  show ?thesis unfolding h0 by (intro outside_unit_below fin) (simp only: val)
qed

lemma never_crossed_pair:
  fixes rise_f set_f :: "SunTimes \<Rightarrow> Timestamp"
  assumes nc: "never_crossed this timestamp lat lon h"
      and c: "\<And>mode r j_noon dh lw phi dec n m l.
                getTimes mode timestamp lat lon h = Some r \<Longrightarrow>
                getTimes_args timestamp lat lon h = (j_noon, dh, lw, phi, dec, n, m, l) \<Longrightarrow>
                calc mode this j_noon dh lw phi dec n m l = Some [rise_f r, set_f r]"
  shows "map_option rise_f (getTimes Saturating timestamp lat lon h) = Some 0 \<and>
         map_option set_f (getTimes Saturating timestamp lat lon h) = Some 0 \<and>
         getTimes Trapping timestamp lat lon h = None"
proof -
  obtain j_noon dh lw phi dec n m l
    where a: "getTimes_args timestamp lat lon h = (j_noon, dh, lw, phi, dec, n, m, l)"
    by (simp add: getTimes_args_def Let_def)
  have nan: "hourAngle (calc_h0 this dh) phi dec = NaN"
    using nc by (simp add: never_crossed_def a hourAngle_NaN_if_outside)
  show ?thesis
    by (rule getTimes_pair_zero [OF a nan]) (use c a in blast)+
qed

lemma polar_never_crossed:
  assumes "- 90 \<le> v" "v \<le> 6" "v \<noteq> 0"
  shows "never_crossed (SunTime (Fin v)) (Fin 961632000000) (Fin 78) (Fin 0) (Fin 0)"
  unfolding never_crossed_def polar_args using polar_outside [OF assms] by simp

subsection \<open>Ranges and finite values of the illumination\<close>

lemma unit_combination:
  fixes a b c d :: real
  assumes "a\<^sup>2 + b\<^sup>2 = 1" "c\<^sup>2 + d\<^sup>2 \<le> 1"
  shows "\<bar>a * c + b * d\<bar> \<le> 1"
proof -
  have "(a * c + b * d)\<^sup>2 = (a\<^sup>2 + b\<^sup>2) * (c\<^sup>2 + d\<^sup>2) - (a * d - b * c)\<^sup>2"
    by (simp add: power2_eq_square algebra_simps)
  also have "\<dots> \<le> (a\<^sup>2 + b\<^sup>2) * (c\<^sup>2 + d\<^sup>2)" by simp
  also have "\<dots> \<le> 1" using assms by simp
  finally have "(a * c + b * d)\<^sup>2 \<le> 1\<^sup>2" by simp
  thus ?thesis by (simp only: abs_le_square_iff [symmetric] abs_one)
qed

lemma declination_arg_bounded:
  fixes b e l :: real
  shows "\<bar>sin b * cos e + cos b * sin e * sin l\<bar> \<le> 1"
proof -
  have "(sin e * sin l)\<^sup>2 \<le> (sin e)\<^sup>2 * 1"
    unfolding power_mult_distrib using abs_sin_le_one [of l]
    by (intro mult_left_mono) (simp_all add: abs_square_le_1)
  hence "(cos e)\<^sup>2 + (sin e * sin l)\<^sup>2 \<le> 1"
    using sin_cos_squared_add2 [of e] by linarith
  from unit_combination [OF sin_cos_squared_add this]
  show ?thesis by (simp add: mult.assoc)
qed

lemma separation_arg_bounded:
  fixes ds dm r :: real
  shows "\<bar>sin ds * sin dm + cos ds * cos dm * cos r\<bar> \<le> 1"
proof -
  have "(cos dm * cos r)\<^sup>2 \<le> (cos dm)\<^sup>2 * 1"
    unfolding power_mult_distrib using abs_cos_le_one [of r]
    by (intro mult_left_mono) (simp_all add: abs_square_le_1)
  hence "(sin dm)\<^sup>2 + (cos dm * cos r)\<^sup>2 \<le> 1"
    using sin_cos_squared_add [of dm] by linarith
  from unit_combination [OF sin_cos_squared_add this]
  show ?thesis by (simp add: mult.assoc)
qed

lemma fin_tan:
  "is_finite a \<Longrightarrow> cos (f_val a) \<noteq> 0 \<Longrightarrow> is_finite (f_tan a) \<and> f_val (f_tan a) = tan (f_val a)"
  by (cases a) (auto simp: tan_def)

lemma fin_atan2: "is_finite y \<Longrightarrow> is_finite x \<Longrightarrow> is_finite (f_atan2 y x)"
  by (cases y; cases x) auto

lemma acos_range:
  "f_acos a = NaN \<or>
   (f_acos a = Fin (f_val (f_acos a)) \<and> 0 \<le> f_val (f_acos a) \<and> f_val (f_acos a) \<le> pi)"
  using pi_gt_zero by (cases a) (auto simp: arccos_lbound arccos_ubound)

lemma atan2_upper_half:
  assumes "0 \<le> y"
  shows "f_atan2 (Fin y) x = NaN \<or>
         (f_atan2 (Fin y) x = Fin (f_val (f_atan2 (Fin y) x)) \<and>
          0 \<le> f_val (f_atan2 (Fin y) x) \<and> f_val (f_atan2 (Fin y) x) \<le> pi)"
proof (cases x)
  case (Fin r)
  have a: "0 \<le> arctan (y / r) \<and> arctan (y / r) \<le> pi" if "0 < y" "0 < r"
  proof -
    have "0 \<le> y / r" using that by simp
    hence "0 \<le> arctan (y / r)" by (simp only: zero_le_arctan_iff)
    thus ?thesis using arctan_ubound [of "y / r"] pi_gt_zero by linarith
  qed
  have b: "0 \<le> arctan (y / r) + pi \<and> arctan (y / r) + pi \<le> pi" if "0 < y" "r < 0"
  proof -
    have "y / r \<le> 0" using that by (simp add: divide_le_0_iff)
    hence "arctan (y / r) \<le> 0" by (simp only: arctan_le_zero_iff)
    thus ?thesis using arctan_lbound [of "y / r"] pi_gt_zero by linarith
  qed
  show ?thesis using assms Fin a b pi_gt_zero by auto
qed (use assms pi_gt_zero in \<open>auto simp: less_eq_real_def\<close>)

lemma f_mul_pos_Fin: "0 < c \<Longrightarrow> f_mul (Fin c) (Fin a) = Fin (c * a)"
  by auto

lemma half_range: "- 1 \<le> c \<Longrightarrow> c \<le> 1 \<Longrightarrow> 0 \<le> (1 + c) / 2 \<and> (1 + c) / 2 \<le> (1::real)"
  by simp

lemma phase_range:
  fixes r s :: real
  assumes "0 \<le> r" "r \<le> 1" "s = 1 \<or> s = - 1"
  shows "0 \<le> 0.5 + 0.5 * r * s \<and> 0.5 + 0.5 * r * s \<le> 1"
  using assms by auto

lemma illum_inc_range:
  "illum_inc t = NaN \<or>
   (illum_inc t = Fin (f_val (illum_inc t)) \<and> 0 \<le> f_val (illum_inc t) \<and> f_val (illum_inc t) \<le> pi)"
proof -
  let ?phi = "illum_phi (sunCoords (toDays t)) (moonCoords (toDays t))"
  let ?x = "f_sub (Coords.distance (moonCoords (toDays t))) (f_mul (Fin 149598000) (f_cos ?phi))"
  have inc: "illum_inc t = f_atan2 (f_mul (Fin 149598000) (f_sin ?phi)) ?x"
    by (simp add: illum_inc_def Let_def)
  from acos_range [of "f_add (f_mul (f_sin (Coords.declination (sunCoords (toDays t))))
                                     (f_sin (Coords.declination (moonCoords (toDays t)))))
                   (f_mul (f_mul (f_cos (Coords.declination (sunCoords (toDays t))))
                                 (f_cos (Coords.declination (moonCoords (toDays t)))))
                          (f_cos (f_sub (Coords.rightAscension (sunCoords (toDays t)))
                                        (Coords.rightAscension (moonCoords (toDays t))))))"]
  have "?phi = NaN \<or> (?phi = Fin (f_val ?phi) \<and> 0 \<le> f_val ?phi \<and> f_val ?phi \<le> pi)"
    unfolding illum_phi_def .
  thus ?thesis
  proof
    assume "?phi = NaN"
    thus ?thesis by (simp add: inc)
  next
    assume p: "?phi = Fin (f_val ?phi) \<and> 0 \<le> f_val ?phi \<and> f_val ?phi \<le> pi"
    define p where "p = f_val ?phi"
    from p have phi: "?phi = Fin p" and p0: "0 \<le> p" and p1: "p \<le> pi" by (simp_all add: p_def)
    have y: "f_mul (Fin 149598000) (f_sin ?phi) = Fin (149598000 * sin p)"
      unfolding phi by (simp add: f_mul_pos_Fin)
    have "0 \<le> 149598000 * sin p" using sin_ge_zero [OF p0 p1] by simp
    from atan2_upper_half [OF this, of ?x] show ?thesis unfolding inc y .
  qed
qed

lemma is_finite_not_NaN: "is_finite a \<Longrightarrow> a \<noteq> NaN"
  by (cases a) simp_all

lemma toDays_fin: "is_finite t \<Longrightarrow> is_finite (toDays t)"
  by (simp add: toDays_def toJulian_def fin_simps)

lemma declination_fin:
  assumes "is_finite l" "is_finite b"
  shows "is_finite (declination l b)"
proof -
  let ?a = "f_add (f_mul (f_sin b) (f_cos OBLIQUITY_OF_EARTH))
                  (f_mul (f_mul (f_cos b) (f_sin OBLIQUITY_OF_EARTH)) (f_sin l))"
  have a: "is_finite ?a"
    "f_val ?a = sin (f_val b) * cos (23.4397 * (pi / 180))
                + cos (f_val b) * sin (23.4397 * (pi / 180)) * sin (f_val l)"
    using assms by (simp_all add: OBLIQUITY_OF_EARTH_def fin_simps)
  have "\<bar>f_val ?a\<bar> \<le> 1" unfolding a(2) by (rule declination_arg_bounded)
  from fin_asin [OF a(1) this] show ?thesis unfolding declination_def by simp
qed

lemma rightAscension_fin:
  assumes "is_finite l" "is_finite b" "cos (f_val b) \<noteq> 0"
  shows "is_finite (rightAscension l b)"
  unfolding rightAscension_def
  using assms fin_tan [OF assms(2,3)]
  by (intro fin_atan2) (simp_all add: OBLIQUITY_OF_EARTH_def fin_simps)

lemma solar_mean_anomaly_fin: "is_finite d \<Longrightarrow> is_finite (solar_mean_anomaly d)"
  by (simp add: solar_mean_anomaly_def fin_simps)

lemma eclipticLongitude_fin: "is_finite m \<Longrightarrow> is_finite (eclipticLongitude m)"
  by (simp add: eclipticLongitude_def equationOfCenter_def PERIHELION_OF_EARTH_def PI_def fin_simps)

lemma sunCoords_fin:
  assumes "is_finite d"
  shows "is_finite (Coords.rightAscension (sunCoords d))"
    and "is_finite (Coords.declination (sunCoords d))"
  using assms
  by (simp_all add: sunCoords_def Let_def rightAscension_fin declination_fin
        solar_mean_anomaly_fin eclipticLongitude_fin)

lemma abs_bound_strict: "\<bar>x\<bar> \<le> c \<Longrightarrow> c < d \<Longrightarrow> - d < x \<and> x < d" for x c d :: real
  by auto

lemma moon_latitude_cos:
  fixes s :: real
  assumes "\<bar>s\<bar> \<le> 1"
  shows "cos (pi / 180 * 5.128 * s) \<noteq> 0"
proof -
  have "\<bar>pi / 180 * 5.128 * s\<bar> \<le> pi / 180 * 5.128 * 1"
    unfolding abs_mult using assms pi_gt_zero by (intro mult_mono) simp_all
  moreover have "pi / 180 * 5.128 * 1 < pi / 2" using pi_gt_zero by simp
  ultimately have "- (pi / 2) < pi / 180 * 5.128 * s \<and> pi / 180 * 5.128 * s < pi / 2"
    by (rule abs_bound_strict)
  hence "0 < cos (pi / 180 * 5.128 * s)" by (intro cos_gt_zero_pi) simp_all
  thus ?thesis by simp
qed

lemma moonCoords_fin:
  assumes "is_finite d"
  shows "is_finite (Coords.rightAscension (moonCoords d))"
    and "is_finite (Coords.declination (moonCoords d))"
    and "is_finite (Coords.distance (moonCoords d))"
proof -
  let ?l = "lunarEclipticLongitude d" and ?m = "lunarMeanAnomaly d" and ?f = "lunarMeanDistance d"
  let ?lng = "f_add ?l (f_mul (f_mul TO_RAD (Fin 6.289)) (f_sin ?m))"
  let ?lat = "f_mul (f_mul TO_RAD (Fin 5.128)) (f_sin ?f)"
  have l: "is_finite ?l" and m: "is_finite ?m" and f: "is_finite ?f"
    using assms
    by (simp_all add: lunarEclipticLongitude_def lunarMeanAnomaly_def lunarMeanDistance_def fin_simps)
  have lng: "is_finite ?lng" using l m by (simp add: fin_simps)
  have lat: "is_finite ?lat" "f_val ?lat = pi / 180 * 5.128 * sin (f_val ?f)"
    using f by (simp_all add: fin_simps)
  have c: "cos (f_val ?lat) \<noteq> 0"
    unfolding lat(2) by (rule moon_latitude_cos) (rule abs_sin_le_one)
  show "is_finite (Coords.rightAscension (moonCoords d))"
    using rightAscension_fin [OF lng lat(1) c] by (simp add: moonCoords_def Let_def)
  show "is_finite (Coords.declination (moonCoords d))"
    using declination_fin [OF lng lat(1)] by (simp add: moonCoords_def Let_def)
  show "is_finite (Coords.distance (moonCoords d))"
    using moon_distance_fin [OF assms] by blast
qed

lemma illum_phi_fin:
  assumes "is_finite (Coords.declination s)" "is_finite (Coords.declination m)"
          "is_finite (Coords.rightAscension s)" "is_finite (Coords.rightAscension m)"
  shows "is_finite (illum_phi s m)"
proof -
  let ?a = "f_add (f_mul (f_sin (Coords.declination s)) (f_sin (Coords.declination m)))
                  (f_mul (f_mul (f_cos (Coords.declination s)) (f_cos (Coords.declination m)))
                         (f_cos (f_sub (Coords.rightAscension s) (Coords.rightAscension m))))"
  have a: "is_finite ?a"
    "f_val ?a = sin (f_val (Coords.declination s)) * sin (f_val (Coords.declination m))
       + cos (f_val (Coords.declination s)) * cos (f_val (Coords.declination m))
         * cos (f_val (Coords.rightAscension s) - f_val (Coords.rightAscension m))"
    using assms by (simp_all add: fin_simps)
  have "\<bar>f_val ?a\<bar> \<le> 1" unfolding a(2) by (rule separation_arg_bounded)
  from fin_acos [OF a(1) this] show ?thesis unfolding illum_phi_def by simp
qed

lemma illum_inc_fin:
  assumes "is_finite t"
  shows "is_finite (illum_inc t)"
proof -
  note d = toDays_fin [OF assms]
  note p = illum_phi_fin [OF sunCoords_fin(2) [OF d] moonCoords_fin(2) [OF d]
             sunCoords_fin(1) [OF d] moonCoords_fin(1) [OF d]]
  show ?thesis
    unfolding illum_inc_def Let_def
    using p moonCoords_fin(3) [OF d] by (intro fin_atan2) (simp_all add: fin_simps)
qed

lemma illumination_fin:
  assumes "is_finite t"
  shows "is_finite (fraction (getMoonIllumination t))"
    and "is_finite (phase (getMoonIllumination t))"
  using illum_inc_fin [OF assms]
  by (simp_all add: getMoonIllumination_def Let_def PI_def fin_simps)

lemma toDays_nonfinite: "\<not> is_finite t \<Longrightarrow> \<not> is_finite (toDays t)"
  by (cases t) (simp_all add: toDays_def toJulian_def f_sub_def)

lemma solar_longitude_nonfinite: "\<not> is_finite d \<Longrightarrow> eclipticLongitude (solar_mean_anomaly d) = NaN"
  by (cases d) (simp_all add: solar_mean_anomaly_def eclipticLongitude_def equationOfCenter_def)

lemma sunCoords_nonfinite:
  assumes "\<not> is_finite d"
  shows "Coords.declination (sunCoords d) = NaN" and "Coords.rightAscension (sunCoords d) = NaN"
  using solar_longitude_nonfinite [OF assms]
  by (simp_all add: sunCoords_def Let_def declination_def rightAscension_def)

lemma illumination_nonfinite:
  assumes "\<not> is_finite t"
  shows "illum_angle t = NaN" and "illum_inc t = NaN"
    and "getMoonIllumination t = \<lparr>fraction = NaN, phase = NaN, angle = NaN\<rparr>"
proof -
  note s = sunCoords_nonfinite [OF toDays_nonfinite [OF assms]]
  show a: "illum_angle t = NaN" by (simp add: illum_angle_def Let_def s)
  show i: "illum_inc t = NaN" by (simp add: illum_inc_def illum_phi_def Let_def s)
  show "getMoonIllumination t = \<lparr>fraction = NaN, phase = NaN, angle = NaN\<rparr>"
    by (simp add: getMoonIllumination_def Let_def a i)
qed

subsection \<open>Rounding to binary64\<close>

lemma round_half_even_error: "\<bar>of_int (round_half_even z) - z\<bar> \<le> 1 / 2"
  unfolding round_half_even_def Let_def by (auto simp: abs_le_iff)

lemma expo_lower:
  assumes "x \<noteq> 0"
  shows "2 powi (expo x) \<le> \<bar>x\<bar>"
proof (cases "1 \<le> \<bar>x\<bar>")
  case True
  hence p: "0 < \<lfloor>\<bar>x\<bar>\<rfloor>" by simp
  from bitlen_bounds [OF p] have "2 ^ nat (bitlen \<lfloor>\<bar>x\<bar>\<rfloor> - 1) \<le> \<lfloor>\<bar>x\<bar>\<rfloor>" by simp
  hence "(2::real) ^ nat (bitlen \<lfloor>\<bar>x\<bar>\<rfloor> - 1) \<le> of_int \<lfloor>\<bar>x\<bar>\<rfloor>"
    by (metis of_int_le_iff of_int_numeral of_int_power)
  also have "\<dots> \<le> \<bar>x\<bar>" by simp
  finally have "(2::real) ^ nat (bitlen \<lfloor>\<bar>x\<bar>\<rfloor> - 1) \<le> \<bar>x\<bar>" .
  moreover have "0 \<le> bitlen \<lfloor>\<bar>x\<bar>\<rfloor> - 1" using p by (simp add: bitlen_alt_def)
  ultimately show ?thesis using True by (simp add: expo_def power_int_def)
next
  case False
  define r where "r = \<lfloor>1 / \<bar>x\<bar>\<rfloor>"
  define L where "L = bitlen r"
  have x: "0 < \<bar>x\<bar>" "\<bar>x\<bar> < 1" using assms False by simp_all
  hence "1 \<le> 1 / \<bar>x\<bar>" by simp
  hence r: "0 < r" unfolding r_def by simp
  have L1: "1 \<le> L" using r by (simp add: L_def bitlen_alt_def)
  have e: "expo x = (if 1 / \<bar>x\<bar> = 2 powi (L - 1) then - (L - 1) else - L)"
    using False by (simp add: expo_def Let_def r_def L_def)
  show ?thesis
  proof (cases "1 / \<bar>x\<bar> = 2 powi (L - 1)")
    case True
    hence "inverse (2 powi (L - 1)) = \<bar>x\<bar>" using x by (simp add: field_simps)
    hence "2 powi (- (L - 1)) = \<bar>x\<bar>" by (simp only: power_int_minus)
    moreover from e True have "expo x = - (L - 1)" by simp
    ultimately show ?thesis by (simp only:)
  next
    case ne: False
    from bitlen_bounds [OF r] have "r < 2 ^ nat L" by (simp add: L_def)
    hence "r + 1 \<le> 2 ^ nat L" by simp
    hence "real_of_int (r + 1) \<le> 2 ^ nat L"
      by (metis of_int_le_iff of_int_numeral of_int_power)
    moreover have "1 / \<bar>x\<bar> < real_of_int (r + 1)" unfolding r_def by linarith
    ultimately have "1 / \<bar>x\<bar> < 2 ^ nat L" by linarith
    hence "1 / \<bar>x\<bar> < 2 powi L" using L1 by (simp add: power_int_def)
    hence "inverse (2 powi L) < \<bar>x\<bar>" using x by (simp add: field_simps)
    hence "2 powi (- L) \<le> \<bar>x\<bar>" by (simp only: power_int_minus)
    moreover from e ne have "expo x = - L" by simp
    ultimately show ?thesis by (simp only:)
  qed
qed

lemma quantum_le:
  assumes "x \<noteq> 0" "\<bar>x\<bar> < 2 powi k" "- 1021 \<le> k"
  shows "quantum x \<le> k - 53"
proof -
  have "(2::real) powi (expo x) < 2 powi k" using expo_lower [OF assms(1)] assms(2) by linarith
  hence "expo x < k"
    using power_int_increasing [of k "expo x" "2::real"] by (cases "expo x < k") simp_all
  thus ?thesis using assms(3) by (simp add: quantum_def)
qed

lemma b64_value_error: "\<bar>b64_value x - x\<bar> \<le> 2 powi (quantum x) / 2"
proof -
  define q where "q = (2::real) powi quantum x"
  have q: "0 < q" by (simp add: q_def)
  have "b64_value x - x = (of_int (round_half_even (x / q)) - x / q) * q"
    using q by (simp add: b64_value_def q_def [symmetric] algebra_simps)
  hence "\<bar>b64_value x - x\<bar> = \<bar>of_int (round_half_even (x / q)) - x / q\<bar> * q"
    using q by (simp add: abs_mult)
  also have "\<dots> \<le> 1 / 2 * q"
    using round_half_even_error [of "x / q"] q by (intro mult_right_mono) simp_all
  finally show ?thesis by (simp add: q_def)
qed

lemma b64_error:
  assumes "is_finite a" "\<bar>f_val a\<bar> < 2 powi k" "- 1021 \<le> k" "k \<le> 1023"
  shows "is_finite (b64 a) \<and> \<bar>f_val (b64 a) - f_val a\<bar> \<le> 2 powi (k - 54)"
proof (cases a)
  case (Fin x)
  show ?thesis
  proof (cases "x = 0")
    case True
    thus ?thesis using Fin by simp
  next
    case False
    have x: "\<bar>x\<bar> < 2 powi k" using assms(2) Fin by simp
    have "quantum x - 1 \<le> k - 54" using quantum_le [OF False x assms(3)] by simp
    hence "(2::real) powi (quantum x - 1) \<le> 2 powi (k - 54)"
      by (intro power_int_increasing) simp_all
    moreover have "(2::real) powi (quantum x - 1) = 2 powi quantum x / 2"
      by (simp add: power_int_diff)
    ultimately have e: "\<bar>b64_value x - x\<bar> \<le> 2 powi (k - 54)"
      using b64_value_error [of x] by linarith
    have "(2::real) powi (k - 54) \<le> 2 powi k" by (intro power_int_increasing) simp_all
    hence "\<bar>b64_value x\<bar> < 2 powi k + 2 powi k" using e x by linarith
    also have "\<dots> = 2 powi (k + 1)" by (simp add: power_int_add)
    also have "\<dots> \<le> 2 powi 1024" using assms(4) by (intro power_int_increasing) simp_all
    finally have "\<bar>b64_value x\<bar> < 2 ^ 1024" by simp
    moreover have "\<bar>x\<bar> \<le> 2 powi (k - 54)" if "b64_value x = 0"
      using e that by simp
    ultimately show ?thesis using Fin False e by (auto simp add: Let_def)
  qed
qed (use assms in simp_all)

lemma cast_of_int:
  assumes "is_finite a" "f_val a = of_int i" "I64_MIN \<le> i" "i \<le> I64_MAX"
  shows "f64_as_i64 mode a = Some (word_of_int i)"
  using assms by (cases a; cases mode) (simp_all add: I64_MIN_def I64_MAX_def)

lemma powi_less_imp_less: "(2::real) powi a < 2 powi b \<Longrightarrow> a < b"
  using power_int_increasing [of b a "2::real"] by (cases "a < b") simp_all

lemma expo_upper:
  assumes "x \<noteq> 0"
  shows "\<bar>x\<bar> < 2 powi (expo x + 1)"
proof (cases "1 \<le> \<bar>x\<bar>")
  case True
  hence p: "0 < \<lfloor>\<bar>x\<bar>\<rfloor>" by simp
  have b: "1 \<le> bitlen \<lfloor>\<bar>x\<bar>\<rfloor>" using p by (simp add: bitlen_alt_def)
  from bitlen_bounds [OF p] have "\<lfloor>\<bar>x\<bar>\<rfloor> + 1 \<le> 2 ^ nat (bitlen \<lfloor>\<bar>x\<bar>\<rfloor>)" by simp
  hence "real_of_int (\<lfloor>\<bar>x\<bar>\<rfloor> + 1) \<le> 2 ^ nat (bitlen \<lfloor>\<bar>x\<bar>\<rfloor>)"
    by (metis of_int_le_iff of_int_numeral of_int_power)
  moreover have "\<bar>x\<bar> < real_of_int (\<lfloor>\<bar>x\<bar>\<rfloor> + 1)" by linarith
  ultimately have "\<bar>x\<bar> < 2 ^ nat (bitlen \<lfloor>\<bar>x\<bar>\<rfloor>)" by linarith
  thus ?thesis using True b by (simp add: expo_def power_int_def)
next
  case False
  define r where "r = \<lfloor>1 / \<bar>x\<bar>\<rfloor>"
  define L where "L = bitlen r"
  have x: "0 < \<bar>x\<bar>" "\<bar>x\<bar> < 1" using assms False by simp_all
  hence "1 \<le> 1 / \<bar>x\<bar>" by simp
  hence r: "0 < r" unfolding r_def by simp
  have L1: "1 \<le> L" using r by (simp add: L_def bitlen_alt_def)
  have e: "expo x = (if 1 / \<bar>x\<bar> = 2 powi (L - 1) then - (L - 1) else - L)"
    using False by (simp add: expo_def Let_def r_def L_def)
  from bitlen_bounds [OF r] have "2 ^ nat (L - 1) \<le> r" by (simp add: L_def)
  hence "(2::real) ^ nat (L - 1) \<le> of_int r"
    by (metis of_int_le_iff of_int_numeral of_int_power)
  moreover have "of_int r \<le> 1 / \<bar>x\<bar>" unfolding r_def by simp
  ultimately have "(2::real) ^ nat (L - 1) \<le> 1 / \<bar>x\<bar>" by linarith
  hence le: "2 powi (L - 1) \<le> 1 / \<bar>x\<bar>" using L1 by (simp add: power_int_def)
  have p: "(0::real) < 2 powi (L - 1)" by simp
  show ?thesis
  proof (cases "1 / \<bar>x\<bar> = 2 powi (L - 1)")
    case True
    hence "inverse (2 powi (L - 1)) = \<bar>x\<bar>" using x by (simp add: field_simps)
    hence "2 powi (- (L - 1)) = \<bar>x\<bar>" by (simp only: power_int_minus)
    moreover have "(2::real) powi (- (L - 1)) < 2 powi (- (L - 1) + 1)"
      by (intro power_int_strict_increasing) simp_all
    moreover from e True have "expo x = - (L - 1)" by simp
    ultimately show ?thesis by (simp only:)
  next
    case ne: False
    with le have "2 powi (L - 1) < 1 / \<bar>x\<bar>" by simp
    hence "\<bar>x\<bar> < inverse (2 powi (L - 1))" using x p by (simp add: field_simps)
    hence "\<bar>x\<bar> < 2 powi (- (L - 1))" by (simp only: power_int_minus)
    moreover from e ne have "expo x = - L" by simp
    ultimately show ?thesis by simp
  qed
qed

lemma expo_eq:
  assumes "2 powi e \<le> \<bar>x\<bar>" "\<bar>x\<bar> < 2 powi (e + 1)"
  shows "expo x = e"
proof -
  have "(0::real) < 2 powi e" by simp
  hence "0 < \<bar>x\<bar>" using assms(1) by linarith
  hence x: "x \<noteq> 0" by simp
  have "(2::real) powi e < 2 powi (expo x + 1)" using assms(1) expo_upper [OF x] by linarith
  hence "e < expo x + 1" by (rule powi_less_imp_less)
  moreover have "(2::real) powi (expo x) < 2 powi (e + 1)" using assms(2) expo_lower [OF x] by linarith
  hence "expo x < e + 1" by (rule powi_less_imp_less)
  ultimately show ?thesis by simp
qed

lemma b64_eval:
  assumes "2 powi e \<le> \<bar>x\<bar>" "\<bar>x\<bar> < 2 powi (e + 1)" "- 1022 \<le> e" "e \<le> 1022"
      and "round_half_even (x / 2 powi (e - 52)) = m"
  shows "b64 (Fin x) = Fin (of_int m * 2 powi (e - 52))"
proof -
  have ex: "expo x = e" using assms(1,2) by (rule expo_eq)
  have q: "quantum x = e - 52" using assms(3) by (simp add: quantum_def ex)
  have v: "b64_value x = of_int m * 2 powi (e - 52)"
    by (simp add: b64_value_def q assms(5))
  have "(0::real) < 2 powi e" by simp
  hence "0 < \<bar>x\<bar>" using assms(1) by linarith
  hence x: "x \<noteq> 0" by simp
  have "\<bar>f_val (Fin x)\<bar> < 2 powi (e + 1)" using assms(2) by simp
  from b64_error [OF _ this] assms(3,4)
  have f: "is_finite (b64 (Fin x))"
    and er: "\<bar>f_val (b64 (Fin x)) - x\<bar> \<le> 2 powi (e + 1 - 54)" by simp_all
  have "(2::real) powi (e + 1 - 54) < 2 powi e" by (intro power_int_strict_increasing) simp_all
  hence nz: "f_val (b64 (Fin x)) \<noteq> 0" using er assms(1) by linarith
  have "b64_value x \<noteq> 0 \<and> \<not> 2 ^ 1024 \<le> \<bar>b64_value x\<bar>"
    using f nz x by (auto simp: Let_def split: if_splits)
  thus ?thesis using x v by (simp add: Let_def)
qed

lemma round_trip_error:
  fixes t :: real
  assumes t: "0 \<le> t"
      and k: "- 1021 \<le> k" "k \<le> 1023" "t / 86400000 + 2440590 \<le> 2 powi k"
      and k2: "- 1021 \<le> k2" "k2 \<le> 1023" "t + 2 \<le> 2 powi k2"
      and small: "5 * 2 powi (k - 54) * 86400000 \<le> (1::real)"
  defines "e \<equiv> b64 (f_mul (b64 (f_sub (b64 (f_add (toJulian_b64 (Fin t)) (Fin 0.5)))
                                   (u32_as_f64 J1970))) (u32_as_f64 MILLISECONDS_PER_DAY))"
  shows "is_finite e \<and>
         \<bar>f_val e - t\<bar> \<le> 5 * 2 powi (k - 54) * 86400000 + 2 powi (k2 - 54)"
proof -
  define u where "u = (2::real) powi (k - 54)"
  have u0: "0 < u" by (simp add: u_def)
  have u1: "u \<le> 1 / 432000000" using small by (simp add: u_def)
  define x0 where "x0 = f_div (Fin t) (Fin 86400000)"
  define a where "a = b64 x0"
  define x1 where "x1 = f_sub a (Fin 0.5)"
  define b where "b = b64 x1"
  define x2 where "x2 = f_add b (Fin 2440588)"
  define J where "J = b64 x2"
  define x3 where "x3 = f_add J (Fin 0.5)"
  define c where "c = b64 x3"
  define x4 where "x4 = f_sub c (Fin 2440588)"
  define d where "d = b64 x4"
  define x5 where "x5 = f_mul d (Fin 86400000)"
  have e: "e = b64 x5"
    by (simp add: e_def toJulian_b64_def x5_def d_def x4_def c_def x3_def J_def x2_def b_def
          x1_def a_def x0_def)
  define s where "s = t / 86400000"
  have s0: "0 \<le> s" using t by (simp add: s_def)
  have sk: "s + 2440590 \<le> 2 powi k" using k(3) by (simp add: s_def)
  have x0: "is_finite x0" "f_val x0 = s"
    using fin_div [of "Fin t" "Fin 86400000"] by (simp_all add: x0_def s_def)
  have "\<bar>f_val x0\<bar> < 2 powi k" using x0(2) s0 sk by linarith
  from b64_error [OF x0(1) this k(1,2)]
  have a: "is_finite a" "\<bar>f_val a - s\<bar> \<le> u" by (simp_all add: a_def x0(2) u_def)
  have x1: "is_finite x1" "f_val x1 = f_val a - 0.5"
    using fin_sub [OF a(1), of "Fin 0.5"] by (simp_all add: x1_def)
  have "\<bar>f_val x1\<bar> < 2 powi k" using x1(2) a(2) s0 sk u1 by linarith
  from b64_error [OF x1(1) this k(1,2)]
  have b: "is_finite b" "\<bar>f_val b - (f_val a - 0.5)\<bar> \<le> u" by (simp_all add: b_def x1(2) u_def)
  have x2: "is_finite x2" "f_val x2 = f_val b + 2440588"
    using fin_add [OF b(1), of "Fin 2440588"] by (simp_all add: x2_def)
  have "\<bar>f_val x2\<bar> < 2 powi k" using x2(2) a(2) b(2) s0 sk u1 by linarith
  from b64_error [OF x2(1) this k(1,2)]
  have J: "is_finite J" "\<bar>f_val J - (f_val b + 2440588)\<bar> \<le> u" by (simp_all add: J_def x2(2) u_def)
  have x3: "is_finite x3" "f_val x3 = f_val J + 0.5"
    using fin_add [OF J(1), of "Fin 0.5"] by (simp_all add: x3_def)
  have "\<bar>f_val x3\<bar> < 2 powi k" using x3(2) a(2) b(2) J(2) s0 sk u1 by linarith
  from b64_error [OF x3(1) this k(1,2)]
  have c: "is_finite c" "\<bar>f_val c - (f_val J + 0.5)\<bar> \<le> u" by (simp_all add: c_def x3(2) u_def)
  have x4: "is_finite x4" "f_val x4 = f_val c - 2440588"
    using fin_sub [OF c(1), of "Fin 2440588"] by (simp_all add: x4_def)
  have "\<bar>f_val x4\<bar> < 2 powi k" using x4(2) a(2) b(2) J(2) c(2) s0 sk u1 by linarith
  from b64_error [OF x4(1) this k(1,2)]
  have d: "is_finite d" "\<bar>f_val d - (f_val c - 2440588)\<bar> \<le> u" by (simp_all add: d_def x4(2) u_def)
  have ds: "\<bar>f_val d - s\<bar> \<le> 5 * u" using a(2) b(2) J(2) c(2) d(2) by linarith
  have x5: "is_finite x5" "f_val x5 = f_val d * 86400000"
    using fin_mul [OF d(1), of "Fin 86400000"] by (simp_all add: x5_def)
  have "f_val x5 - t = (f_val d - s) * 86400000" by (simp add: x5(2) s_def algebra_simps)
  hence "\<bar>f_val x5 - t\<bar> = \<bar>f_val d - s\<bar> * \<bar>86400000\<bar>" by (simp only: abs_mult)
  hence "\<bar>f_val x5 - t\<bar> = \<bar>f_val d - s\<bar> * 86400000" by simp
  hence x5t: "\<bar>f_val x5 - t\<bar> \<le> 5 * u * 86400000" using ds by simp
  hence "\<bar>f_val x5\<bar> < 2 powi k2" using t k2(3) u1 by linarith
  from b64_error [OF x5(1) this k2(1,2)]
  have "is_finite e" "\<bar>f_val e - f_val x5\<bar> \<le> 2 powi (k2 - 54)" by (simp_all add: e)
  thus ?thesis using x5t unfolding u_def by linarith
qed

lemma round_trip_cast:
  fixes t :: int
  assumes "0 \<le> t" "t \<le> 2 ^ 51"
  shows "\<exists>i. fromJulian_b64 mode (toJulian_b64 (Fin (of_int t))) = Some (word_of_int i) \<and>
             \<bar>i - t\<bar> \<le> 1 \<and> (t \<le> 2 ^ 49 \<longrightarrow> i = t)"
proof -
  define e where "e = b64 (f_mul (b64 (f_sub (b64 (f_add (toJulian_b64 (Fin (of_int t))) (Fin 0.5)))
                                   (u32_as_f64 J1970))) (u32_as_f64 MILLISECONDS_PER_DAY))"
  define i where "i = \<lfloor>f_val e + 1 / 2\<rfloor>"
  have t0: "0 \<le> real_of_int t" using assms(1) by simp
  have t51: "real_of_int t \<le> 2 ^ 51" using assms(2)
    by (metis of_int_le_iff of_int_numeral of_int_power)
  have wide: "is_finite e \<and> \<bar>f_val e - of_int t\<bar> \<le> 5 * 2 powi (25 - 54) * 86400000 + 2 powi (52 - 54)"
    unfolding e_def using t51 by (intro round_trip_error t0) simp_all
  hence fin: "is_finite e" and w: "\<bar>f_val e - of_int t\<bar> \<le> 11 / 10" by simp_all
  have i1: "\<bar>i - t\<bar> \<le> 1" unfolding i_def using w by linarith
  have i2: "i = t" if "t \<le> 2 ^ 49"
  proof -
    have "real_of_int t \<le> 2 ^ 49" using that
      by (metis of_int_le_iff of_int_numeral of_int_power)
    hence "is_finite e \<and> \<bar>f_val e - of_int t\<bar> \<le> 5 * 2 powi (24 - 54) * 86400000 + 2 powi (50 - 54)"
      unfolding e_def by (intro round_trip_error t0) simp_all
    hence "\<bar>f_val e - of_int t\<bar> \<le> 49 / 100" by simp
    thus ?thesis unfolding i_def by linarith
  qed
  have r: "is_finite (f_round e)" "f_val (f_round e) = of_int i"
    using fin_round [OF fin] by (simp_all add: i_def)
  have "I64_MIN \<le> i" "i \<le> I64_MAX"
    using i1 assms by (simp_all add: I64_MIN_def I64_MAX_def)
  from cast_of_int [OF r this]
  have "fromJulian_b64 mode (toJulian_b64 (Fin (of_int t))) = Some (word_of_int i)"
    by (simp add: fromJulian_b64_def e_def)
  thus ?thesis using i1 i2 by blast
qed

text \<open>
  Beyond \<open>2 ^ 51\<close> milliseconds five rounding errors of half a spacing each are more than
  a millisecond, so the roundings that change nothing are told apart: the result of a
  rounding is a multiple of the spacing of its binade, and a sum or difference of such
  multiples that stays within the binade is an \<^verbatim>\<open>f64\<close> number again. Of the five roundings
  on the way from the day count back to the day count, only the first and one more can
  change their argument.
\<close>

lemma powi_le_imp_le:
  assumes "(2::real) powi a \<le> 2 powi b"
  shows "a \<le> b"
proof (rule ccontr)
  assume "\<not> a \<le> b"
  hence "(2::real) powi b < 2 powi a" by (intro power_int_strict_increasing) simp_all
  thus False using assms by simp
qed

lemma round_half_even_Ints: "z \<in> \<int> \<Longrightarrow> of_int (round_half_even z) = z"
  by (auto elim!: Ints_cases simp: round_half_even_def)

lemma powi_split: "(2::real) powi (a + b) = 2 powi a * 2 powi b"
  by (rule power_int_add) simp

lemma round_half_even_ge:
  assumes "of_int n \<le> z"
  shows "n \<le> round_half_even z"
proof -
  have "n \<le> \<lfloor>z\<rfloor>" using assms by (simp add: le_floor_iff)
  thus ?thesis unfolding round_half_even_def Let_def by auto
qed

lemma round_half_even_le:
  assumes "z \<le> of_int n"
  shows "round_half_even z \<le> n"
proof (cases "z = of_int n")
  case True
  thus ?thesis by (simp add: round_half_even_def)
next
  case False
  hence "z < of_int n" using assms by simp
  hence "\<lfloor>z\<rfloor> < n" by (simp add: floor_less_iff)
  thus ?thesis unfolding round_half_even_def Let_def by auto
qed

lemma grid_coarser:
  fixes x :: real
  assumes "x / 2 powi g \<in> \<int>" "g' \<le> g"
  shows "x / 2 powi g' \<in> \<int>"
proof -
  have "(2::real) powi g = 2 powi g' * 2 powi (g - g')"
    using powi_split [of g' "g - g'"] by simp
  hence eq: "x / 2 powi g' = x / 2 powi g * 2 powi (g - g')" by simp
  have "(2::real) powi (g - g') = 2 ^ nat (g - g')"
    using assms(2) by (simp add: power_int_def)
  hence p: "(2::real) powi (g - g') \<in> \<int>" by simp
  show ?thesis unfolding eq using assms(1) p by (rule Ints_mult)
qed

lemma half_on_grid: "g \<le> - 1 \<Longrightarrow> (1 / 2) / (2::real) powi g \<in> \<int>"
proof -
  assume g: "g \<le> - 1"
  have "(2::real) powi (- 1 - g) * 2 powi g = 2 powi (- 1)"
    using powi_split [of "- 1 - g" g] by simp
  hence "(1 / 2) / (2::real) powi g = 2 powi (- 1 - g)" by (simp add: field_simps)
  also have "\<dots> = 2 ^ nat (- 1 - g)" using g by (simp add: power_int_def)
  finally show ?thesis by simp
qed

lemma int_on_grid: "g \<le> 0 \<Longrightarrow> of_int n / (2::real) powi g \<in> \<int>"
proof -
  assume g: "g \<le> 0"
  have "of_int n / (2::real) powi g = of_int n * 2 powi (- g)"
    by (simp add: power_int_minus field_simps)
  also have "\<dots> = of_int n * 2 ^ nat (- g)" using g by (simp add: power_int_def)
  finally show ?thesis by simp
qed

lemma b64_exact:
  assumes g: "x / 2 powi g \<in> \<int>" and b: "\<bar>x\<bar> \<le> 2 powi (g + 53)"
      and r: "- 1074 \<le> g" "g \<le> 969"
  shows "b64 (Fin x) = Fin x"
proof (cases "x = 0")
  case True
  thus ?thesis by simp
next
  case False
  have "(2::real) powi expo x \<le> 2 powi (g + 53)" using expo_lower [OF False] b by linarith
  hence le: "expo x \<le> g + 53" by (rule powi_le_imp_le)
  have z: "x / 2 powi quantum x \<in> \<int>"
  proof (cases "expo x = g + 53")
    case True
    hence "2 powi (g + 53) \<le> \<bar>x\<bar>" using expo_lower [OF False] by simp
    hence ax: "\<bar>x\<bar> = 2 powi (g + 53)" using b by linarith
    have q: "quantum x = g + 1" using True r by (simp add: quantum_def)
    have "(2::real) powi (g + 53) = 2 ^ 52 * 2 powi (g + 1)"
      using powi_split [of 52 "g + 1"] by (simp add: add.commute)
    hence "\<bar>x\<bar> / 2 powi (g + 1) = 2 ^ 52" using ax by simp
    hence "x / 2 powi (g + 1) = 2 ^ 52 \<or> x / 2 powi (g + 1) = - (2 ^ 52)"
      by (cases "0 \<le> x") (simp_all add: field_simps)
    thus ?thesis unfolding q by auto
  next
    case False
    hence "quantum x \<le> g" using le r by (simp add: quantum_def)
    with g show ?thesis by (rule grid_coarser)
  qed
  have v: "b64_value x = x" by (simp add: b64_value_def round_half_even_Ints [OF z])
  have "(2::real) powi (g + 53) \<le> 2 powi 1022" using r by (intro power_int_increasing) simp_all
  hence "\<bar>x\<bar> \<le> 2 powi 1022" using b by linarith
  also have "(2::real) powi 1022 < 2 powi 1024" by (intro power_int_strict_increasing) simp_all
  finally have "\<bar>x\<bar> < 2 ^ 1024" by simp
  thus ?thesis using False v by (simp add: Let_def)
qed

lemma b64_binade:
  assumes "2 powi e \<le> x" "x < 2 powi (e + 1)" "- 1022 \<le> e" "e \<le> 1022"
  shows "\<exists>a. b64 (Fin x) = Fin a \<and> a / 2 powi (e - 52) \<in> \<int> \<and> 2 powi e \<le> a \<and>
             a \<le> 2 powi (e + 1) \<and> \<bar>a - x\<bar> \<le> 2 powi (e - 53)"
proof -
  define q where "q = (2::real) powi (e - 52)"
  define m where "m = round_half_even (x / q)"
  have q0: "0 < q" by (simp add: q_def)
  have "(0::real) < 2 powi e" by simp
  hence x0: "0 < x" using assms(1) by linarith
  have ev: "b64 (Fin x) = Fin (of_int m * q)"
    unfolding q_def m_def by (rule b64_eval) (use assms x0 in simp_all)
  have lo: "(2::real) powi e = 2 ^ 52 * q"
    unfolding q_def using powi_split [of 52 "e - 52"] by simp
  have hi: "(2::real) powi (e + 1) = 2 ^ 53 * q"
    unfolding q_def using powi_split [of 53 "e - 52"] by (simp add: add.commute)
  have "real_of_int (2 ^ 52) \<le> x / q" using lo assms(1) q0 by (simp add: field_simps)
  hence m1: "2 ^ 52 \<le> m" unfolding m_def by (rule round_half_even_ge)
  have "x / q \<le> real_of_int (2 ^ 53)" using hi assms(2) q0 by (simp add: field_simps)
  hence m2: "m \<le> 2 ^ 53" unfolding m_def by (rule round_half_even_le)
  have "real_of_int (2 ^ 52) * q \<le> of_int m * q"
    by (rule mult_right_mono [OF iffD2 [OF of_int_le_iff m1]]) (use q0 in simp)
  hence b1: "2 powi e \<le> of_int m * q" using lo by simp
  have "of_int m * q \<le> real_of_int (2 ^ 53) * q"
    by (rule mult_right_mono [OF iffD2 [OF of_int_le_iff m2]]) (use q0 in simp)
  hence b2: "of_int m * q \<le> 2 powi (e + 1)" using hi by simp
  have "of_int m * q - x = (of_int m - x / q) * q" using q0 by (simp add: algebra_simps)
  hence "\<bar>of_int m * q - x\<bar> = \<bar>of_int m - x / q\<bar> * q" using q0 by (simp add: abs_mult)
  also have "\<dots> \<le> 1 / 2 * q"
    using round_half_even_error [of "x / q"] q0 unfolding m_def
    by (intro mult_right_mono) simp_all
  also have "\<dots> = 2 powi (e - 53)"
    unfolding q_def by (simp add: power_int_diff)
  finally have er: "\<bar>of_int m * q - x\<bar> \<le> 2 powi (e - 53)" .
  have "of_int m * q / q \<in> \<int>" using q0 by simp
  thus ?thesis using ev b1 b2 er unfolding q_def by blast
qed

lemma b64_on_grid:
  fixes x :: real
  assumes "x / 2 powi (k - 53) \<in> \<int>" "0 \<le> x" "x \<le> 2 powi k" "- 1021 \<le> k" "k \<le> 1022"
  shows "b64 (Fin x) = Fin x"
  using assms b64_exact [of x "k - 53"] by simp

lemma grid_add:
  fixes x :: real
  shows "x / q \<in> \<int> \<Longrightarrow> y / q \<in> \<int> \<Longrightarrow> (x + y) / q \<in> \<int>"
  by (simp add: add_divide_distrib)

lemma grid_diff:
  fixes x :: real
  shows "x / q \<in> \<int> \<Longrightarrow> y / q \<in> \<int> \<Longrightarrow> (x - y) / q \<in> \<int>"
  by (simp add: diff_divide_distrib)

lemma day_chain_steps:
  assumes "b64 (Fin s) = Fin a" "b64 (Fin (a - 1 / 2)) = Fin b"
      and "b64 (Fin (b + 2440588)) = Fin J" "b64 (Fin (J + 1 / 2)) = Fin c"
      and "b64 (Fin (c - 2440588)) = Fin d"
  shows "b64 (f_sub (b64 (f_add (b64 (f_add (b64 (f_sub (b64 (Fin s)) (Fin 0.5)))
           (Fin 2440588))) (Fin 0.5))) (Fin 2440588)) = Fin d"
  using assms by simp

lemma day_chain:
  fixes s :: real
  assumes s: "2 powi e \<le> s" "s < 2 powi (e + 1)"
      and e: "22 \<le> e" "e \<le> 50"
      and top: "s + 2440590 \<le> 2 powi (e + 2)"
  shows "\<exists>d. b64 (f_sub (b64 (f_add (b64 (f_add (b64 (f_sub (b64 (Fin s)) (Fin 0.5)))
                 (Fin 2440588))) (Fin 0.5))) (Fin 2440588)) = Fin d \<and>
             \<bar>d - s\<bar> \<le> 3 * 2 powi (e - 53) \<and>
             (s + 2440590 \<le> 2 powi (e + 1) \<longrightarrow> \<bar>d - s\<bar> \<le> 2 powi (e - 53))"
proof -
  define P where "P = (2::real) powi e"
  define h where "h = (2::real) powi (e - 53)"
  define G where "G = (2::real) powi (e + 1 - 53)"
  define G' where "G' = (2::real) powi (e + 2 - 53)"
  have h0: "0 < h" by (simp add: h_def)
  have "(2::real) powi (e - 53) \<le> 2 powi (- 3)" using e by (intro power_int_increasing) simp_all
  hence h8: "h \<le> 1 / 8" by (simp add: h_def)
  have "(2::real) powi 22 \<le> 2 powi e" using e by (intro power_int_increasing) simp_all
  hence P22: "4194304 \<le> P" by (simp add: P_def)
  have p1: "(2::real) powi (e + 1) = 2 * P" unfolding P_def using powi_split [of e 1] by simp
  have p2: "(2::real) powi (e + 2) = 4 * P" unfolding P_def using powi_split [of e 2] by simp
  have p3: "(2::real) powi (2 + e) = 4 * P" using p2 by (simp only: add.commute)
  have h2: "(2::real) powi (e + 1 - 53) = 2 * h"
    unfolding h_def using powi_split [of "e - 53" 1] by simp
  have k1: "- 1021 \<le> e + 1" "e + 1 \<le> 1022" "- 1021 \<le> e + 2" "e + 2 \<le> 1022"
    "- 1022 \<le> e" "e \<le> 1022" "- 1022 \<le> e + 1" "e + 1 \<le> 1022"
    using e by simp_all
  have halfG: "(1 / 2) / G \<in> \<int>" unfolding G_def using e by (intro half_on_grid) simp
  have halfG': "(1 / 2) / G' \<in> \<int>" unfolding G'_def using e by (intro half_on_grid) simp
  have dayG: "2440588 / G \<in> \<int>"
    unfolding G_def using int_on_grid [of "e + 1 - 53" 2440588] e by simp
  have dayG': "2440588 / G' \<in> \<int>"
    unfolding G'_def using int_on_grid [of "e + 2 - 53" 2440588] e by simp
  from b64_binade [OF s k1(5,6)]
  obtain a where a: "b64 (Fin s) = Fin a" "a / 2 powi (e - 52) \<in> \<int>" "2 powi e \<le> a"
    "a \<le> 2 powi (e + 1)" "\<bar>a - s\<bar> \<le> 2 powi (e - 53)" by blast
  have aG: "a / G \<in> \<int>" using a(2) by (simp add: G_def)
  have aP: "P \<le> a" "a \<le> 2 * P" using a(3,4) by (simp_all add: P_def p1)
  have ah: "\<bar>a - s\<bar> \<le> h" using a(5) by (simp add: h_def)
  have sP: "s + 2440590 \<le> 4 * P" using top by (simp add: p2)
  have ex: "b64 (Fin x) = Fin x" if "x / G \<in> \<int>" "0 \<le> x" "x \<le> 2 * P" for x
    using that b64_on_grid [of x "e + 1"] k1 by (simp add: G_def p1)
  have ex': "b64 (Fin x) = Fin x" if "x / G' \<in> \<int>" "0 \<le> x" "x \<le> 4 * P" for x
    using that b64_on_grid [of x "e + 2"] k1 by (simp add: G'_def p2)
  have up: "\<exists>y. b64 (Fin x) = Fin y \<and> y / G' \<in> \<int> \<and> 2 * P \<le> y \<and> y \<le> 4 * P \<and> \<bar>y - x\<bar> \<le> 2 * h"
    if "2 * P \<le> x" "x < 4 * P" for x
  proof -
    have "2 powi (e + 1) \<le> x" "x < 2 powi (e + 1 + 1)"
      using that by (simp_all add: p1 p2 p3)
    from b64_binade [OF this k1(7,8)]
    obtain y where y: "b64 (Fin x) = Fin y" "y / 2 powi (e + 1 - 52) \<in> \<int>"
      "2 powi (e + 1) \<le> y" "y \<le> 2 powi (e + 1 + 1)" "\<bar>y - x\<bar> \<le> 2 powi (e + 1 - 53)"
      by blast
    have "y / G' \<in> \<int>" using y(2) by (simp add: G'_def)
    moreover have "2 * P \<le> y" "y \<le> 4 * P" using y(3,4) by (simp_all add: p1 p3)
    moreover have "\<bar>y - x\<bar> \<le> 2 * h" using y(5) by (simp only: h2)
    ultimately show ?thesis using y(1) by blast
  qed
  have b: "b64 (Fin (a - 1 / 2)) = Fin (a - 1 / 2)"
    using aP P22 by (intro ex grid_diff aG halfG) simp_all
  define x2 where "x2 = a - 1 / 2 + 2440588"
  have x2G: "x2 / G \<in> \<int>" unfolding x2_def by (intro grid_add grid_diff aG halfG dayG)
  have x2lo: "0 \<le> x2" "P \<le> x2" using aP P22 by (simp_all add: x2_def)
  have x2hi: "x2 + 1 / 2 + 2 * h < 4 * P" using ah sP h8 unfolding x2_def by linarith
  consider (A) "x2 + 1 / 2 < 2 * P" | (B) "x2 < 2 * P" "2 * P \<le> x2 + 1 / 2" | (C) "2 * P \<le> x2"
    by linarith
  thus ?thesis
  proof cases
    case A
    have J: "b64 (Fin (a - 1 / 2 + 2440588)) = Fin x2"
      using A x2lo x2G unfolding x2_def [symmetric] by (intro ex) simp_all
    have "(x2 + 1 / 2) / G \<in> \<int>" by (intro grid_add x2G halfG)
    hence c: "b64 (Fin (x2 + 1 / 2)) = Fin (x2 + 1 / 2)" using A x2lo by (intro ex) simp_all
    have "x2 + 1 / 2 - 2440588 = a" by (simp add: x2_def)
    moreover have "b64 (Fin a) = Fin a" using aG aP P22 by (intro ex) simp_all
    ultimately have d: "b64 (Fin (x2 + 1 / 2 - 2440588)) = Fin a" by simp
    from day_chain_steps [OF a(1) b J c d] ah h0 show ?thesis
      by (auto simp: h_def)
  next
    case B
    have J: "b64 (Fin (a - 1 / 2 + 2440588)) = Fin x2"
      using B x2lo x2G unfolding x2_def [symmetric] by (intro ex) simp_all
    have "x2 + 1 / 2 < 4 * P" using x2hi h0 by linarith
    from up [OF B(2) this]
    obtain c where c: "b64 (Fin (x2 + 1 / 2)) = Fin c" "c / G' \<in> \<int>" "2 * P \<le> c" "c \<le> 4 * P"
      "\<bar>c - (x2 + 1 / 2)\<bar> \<le> 2 * h" by blast
    have "(c - 2440588) / G' \<in> \<int>" by (intro grid_diff c(2) dayG')
    moreover have "c - 2440588 = a + (c - (x2 + 1 / 2))" by (simp add: x2_def)
    hence "0 \<le> c - 2440588" using c(5) aP P22 h8 by linarith
    moreover have "c - 2440588 \<le> 4 * P" using c(4) by simp
    ultimately have d: "b64 (Fin (c - 2440588)) = Fin (c - 2440588)" by (rule ex')
    have "\<bar>c - 2440588 - s\<bar> \<le> 3 * h" using c(5) ah unfolding x2_def by linarith
    moreover have "\<not> s + 2440590 \<le> 2 * P" using B(2) ah h8 unfolding x2_def by linarith
    ultimately show ?thesis using day_chain_steps [OF a(1) b J c(1) d]
      by (auto simp: h_def p1)
  next
    case C
    have "x2 < 4 * P" using x2hi h0 by linarith
    from up [OF C this]
    obtain J where J: "b64 (Fin x2) = Fin J" "J / G' \<in> \<int>" "2 * P \<le> J" "J \<le> 4 * P"
      "\<bar>J - x2\<bar> \<le> 2 * h" by blast
    have J': "b64 (Fin (a - 1 / 2 + 2440588)) = Fin J" using J(1) by (simp add: x2_def)
    have "(J + 1 / 2) / G' \<in> \<int>" by (intro grid_add J(2) halfG')
    moreover have "0 \<le> J + 1 / 2" using J(3) P22 by linarith
    moreover have "J + 1 / 2 \<le> 4 * P" using J(5) x2hi by linarith
    ultimately have c: "b64 (Fin (J + 1 / 2)) = Fin (J + 1 / 2)" by (rule ex')
    have "(J + 1 / 2 - 2440588) / G' \<in> \<int>" by (intro grid_add grid_diff J(2) halfG' dayG')
    moreover have "J + 1 / 2 - 2440588 = a + (J - x2)" by (simp add: x2_def)
    hence "0 \<le> J + 1 / 2 - 2440588" using J(5) aP P22 h8 by linarith
    moreover have "J + 1 / 2 - 2440588 \<le> 4 * P" using J(4) by simp
    ultimately have d: "b64 (Fin (J + 1 / 2 - 2440588)) = Fin (J + 1 / 2 - 2440588)" by (rule ex')
    have "\<bar>J + 1 / 2 - 2440588 - s\<bar> \<le> 3 * h" using J(5) ah unfolding x2_def by linarith
    moreover have "\<not> s + 2440590 \<le> 2 * P" using C ah h8 unfolding x2_def by linarith
    ultimately show ?thesis using day_chain_steps [OF a(1) b J' c d]
      by (auto simp: h_def p1)
  qed
qed

lemma day_chain_far:
  fixes t :: real
  assumes "2 ^ 51 \<le> t" "t \<le> 8640000000000000"
  shows "\<exists>d. b64 (f_sub (b64 (f_add (b64 (f_add (b64 (f_sub (b64 (Fin (t / 86400000))) (Fin 0.5)))
                 (Fin 2440588))) (Fin 0.5))) (Fin 2440588)) = Fin d \<and>
             \<bar>d - t / 86400000\<bar> \<le> 3 * 2 powi (- 28)"
proof -
  define s where "s = t / 86400000"
  have s: "2 ^ 51 / 86400000 \<le> s" "s \<le> 100000000"
    using assms by (simp_all add: s_def field_simps)
  consider (a) "s < 2 ^ 25" | (b) "2 ^ 25 \<le> s" "s < 2 ^ 26" | (c) "2 ^ 26 \<le> s"
    by linarith
  hence "\<exists>d. b64 (f_sub (b64 (f_add (b64 (f_add (b64 (f_sub (b64 (Fin s)) (Fin 0.5)))
      (Fin 2440588))) (Fin 0.5))) (Fin 2440588)) = Fin d \<and> \<bar>d - s\<bar> \<le> 3 * 2 powi (- 28)"
  proof cases
    case a
    have "2 powi 24 \<le> s" "s < 2 powi (24 + 1)" "(22::int) \<le> 24" "(24::int) \<le> 50"
      "s + 2440590 \<le> 2 powi (24 + 2)"
      using a s by simp_all
    from day_chain [OF this]
    obtain d where d: "b64 (f_sub (b64 (f_add (b64 (f_add (b64 (f_sub (b64 (Fin s)) (Fin 0.5)))
      (Fin 2440588))) (Fin 0.5))) (Fin 2440588)) = Fin d"
      "\<bar>d - s\<bar> \<le> 3 * 2 powi (24 - 53)" by blast
    from d(2) have "\<bar>d - s\<bar> \<le> 3 * 2 powi (- 28)" by simp
    with d(1) show ?thesis by blast
  next
    case b
    have "2 powi 25 \<le> s" "s < 2 powi (25 + 1)" "(22::int) \<le> 25" "(25::int) \<le> 50"
      "s + 2440590 \<le> 2 powi (25 + 2)"
      using b s by simp_all
    from day_chain [OF this]
    obtain d where d: "b64 (f_sub (b64 (f_add (b64 (f_add (b64 (f_sub (b64 (Fin s)) (Fin 0.5)))
      (Fin 2440588))) (Fin 0.5))) (Fin 2440588)) = Fin d"
      "\<bar>d - s\<bar> \<le> 3 * 2 powi (25 - 53)" by blast
    from d(2) have "\<bar>d - s\<bar> \<le> 3 * 2 powi (- 28)" by simp
    with d(1) show ?thesis by blast
  next
    case c
    have "2 powi 26 \<le> s" "s < 2 powi (26 + 1)" "(22::int) \<le> 26" "(26::int) \<le> 50"
      "s + 2440590 \<le> 2 powi (26 + 2)"
      using c s by simp_all
    moreover have "s + 2440590 \<le> 2 powi (26 + 1)" using s by simp
    ultimately obtain d where d: "b64 (f_sub (b64 (f_add (b64 (f_add (b64 (f_sub (b64 (Fin s)) (Fin 0.5)))
      (Fin 2440588))) (Fin 0.5))) (Fin 2440588)) = Fin d"
      "\<bar>d - s\<bar> \<le> 2 powi (26 - 53)" using day_chain [of 26 s] by blast
    from d(2) have "\<bar>d - s\<bar> \<le> 3 * 2 powi (- 28)" by simp
    with d(1) show ?thesis by blast
  qed
  thus ?thesis by (simp only: s_def)
qed

lemma round_trip_cast_far:
  fixes t :: int
  assumes "2 ^ 51 \<le> t" "t \<le> 8640000000000000"
  shows "\<exists>i. fromJulian_b64 mode (toJulian_b64 (Fin (of_int t))) = Some (word_of_int i) \<and>
             \<bar>i - t\<bar> \<le> 1"
proof -
  have t1: "(2::real) ^ 51 \<le> of_int t" using assms(1)
    by (metis of_int_le_iff of_int_numeral of_int_power)
  have t2: "real_of_int t \<le> 8640000000000000" using assms(2)
    by (metis of_int_le_iff of_int_numeral)
  from day_chain_far [OF t1 t2]
  obtain d where d: "b64 (f_sub (b64 (f_add (b64 (f_add (b64 (f_sub
      (b64 (Fin (of_int t / 86400000))) (Fin 0.5))) (Fin 2440588))) (Fin 0.5))) (Fin 2440588)) = Fin d"
    "\<bar>d - of_int t / 86400000\<bar> \<le> 3 * 2 powi (- 28)" by blast
  define y where "y = d * 86400000"
  have "y - of_int t = (d - of_int t / 86400000) * 86400000" by (simp add: y_def algebra_simps)
  hence "\<bar>y - of_int t\<bar> = \<bar>d - of_int t / 86400000\<bar> * \<bar>86400000\<bar>" by (simp only: abs_mult)
  hence "\<bar>y - of_int t\<bar> = \<bar>d - of_int t / 86400000\<bar> * 86400000" by simp
  hence yt: "\<bar>y - of_int t\<bar> \<le> 97 / 100" using d(2) by simp
  define p where "p = b64 (Fin y)"
  have t0: "0 \<le> real_of_int t" using assms(1) by simp
  have "\<bar>y\<bar> < 9007199254740992" using yt t2 t0 by linarith
  hence "\<bar>f_val (Fin y)\<bar> < 2 powi 53" by simp
  from b64_error [OF _ this]
  have p: "is_finite p" "\<bar>f_val p - y\<bar> \<le> 1 / 2" by (simp_all add: p_def)
  define i where "i = \<lfloor>f_val p + 1 / 2\<rfloor>"
  have i1: "\<bar>i - t\<bar> \<le> 1" unfolding i_def using p(2) yt by linarith
  have r: "is_finite (f_round p)" "f_val (f_round p) = of_int i"
    using fin_round [OF p(1)] by (simp_all add: i_def)
  have "I64_MIN \<le> i" "i \<le> I64_MAX"
    using i1 assms by (simp_all add: I64_MIN_def I64_MAX_def)
  from cast_of_int [OF r this]
  have c: "f64_as_i64 mode (f_round p) = Some (word_of_int i)" .
  have d0: "f_div (Fin (real_of_int t)) (Fin 86400000) = Fin (real_of_int t / 86400000)"
    by simp
  have d5: "f_mul (Fin d) (Fin 86400000) = Fin (d * 86400000)"
    by (rule f_mul_Fin_pos) simp
  have "fromJulian_b64 mode (toJulian_b64 (Fin (of_int t))) = f64_as_i64 mode (f_round p)"
    unfolding fromJulian_b64_def toJulian_b64_def u32_consts d0 d(1) d5 p_def y_def ..
  thus ?thesis using c i1 by auto
qed

lemma far_future_round_trip:
  "fromJulian_b64 mode (toJulian_b64 (Fin 50000000000000000)) = Some 50000000000000008"
proof -
  let ?y0 = "real_of_int 4854518518518519 * 2 powi (29 - 52)"
  let ?y1 = "real_of_int 4854518514324215 * 2 powi (29 - 52)"
  let ?y2 = "real_of_int 4874991650345719 * 2 powi (29 - 52)"
  let ?y3 = "real_of_int 4874991654540023 * 2 powi (29 - 52)"
  let ?y4 = "real_of_int 4854518518518519 * 2 powi (29 - 52)"
  let ?y5 = "real_of_int 6250000000000001 * 2 powi (55 - 52)"
  have d0: "f_div (Fin 50000000000000000) (Fin 86400000) = Fin (50000000000000000 / 86400000)"
    by simp
  have r0: "b64 (Fin (50000000000000000 / 86400000)) = Fin ?y0"
    by (rule b64_eval) (simp_all add: round_half_even_def)
  have d1: "f_sub (Fin ?y0) (Fin 0.5) = Fin (?y0 - 0.5)" by (rule f_sub_Fin)
  have r1: "b64 (Fin (?y0 - 0.5)) = Fin ?y1"
    by (rule b64_eval) (simp_all add: round_half_even_def)
  have d2: "f_add (Fin ?y1) (Fin 2440588) = Fin (?y1 + 2440588)" by (rule f_add.simps)
  have r2: "b64 (Fin (?y1 + 2440588)) = Fin ?y2"
    by (rule b64_eval) (simp_all add: round_half_even_def)
  have d3: "f_add (Fin ?y2) (Fin 0.5) = Fin (?y2 + 0.5)" by (rule f_add.simps)
  have r3: "b64 (Fin (?y2 + 0.5)) = Fin ?y3"
    by (rule b64_eval) (simp_all add: round_half_even_def)
  have d4: "f_sub (Fin ?y3) (Fin 2440588) = Fin (?y3 - 2440588)" by (rule f_sub_Fin)
  have r4: "b64 (Fin (?y3 - 2440588)) = Fin ?y4"
    by (rule b64_eval) (simp_all add: round_half_even_def)
  have d5: "f_mul (Fin ?y4) (Fin 86400000) = Fin (?y4 * 86400000)"
    by (rule f_mul_Fin_pos) simp
  have r5: "b64 (Fin (?y4 * 86400000)) = Fin ?y5"
    by (rule b64_eval) (simp_all add: round_half_even_def)
  have j: "toJulian_b64 (Fin 50000000000000000) = Fin ?y2"
    unfolding toJulian_b64_def u32_consts d0 r0 d1 r1 d2 r2 ..
  have "fromJulian_b64 mode (Fin ?y2) = f64_as_i64 mode (f_round (Fin ?y5))"
    unfolding fromJulian_b64_def u32_consts d3 r3 d4 r4 d5 r5 ..
  also have "\<dots> = Some 50000000000000008"
    by (cases mode) (simp_all add: I64_MIN_def I64_MAX_def trunc_real_def)
  finally show ?thesis unfolding j .
qed

text \<open>
  Rounding is monotone: it does not carry a value across a number of the grid it rounds to.
\<close>

lemma b64_value_le:
  assumes "hi / 2 powi quantum x \<in> \<int>" "x \<le> hi"
  shows "b64_value x \<le> hi"
proof -
  define q where "q = (2::real) powi quantum x"
  have q0: "0 < q" by (simp add: q_def)
  obtain n :: int where n: "hi / q = of_int n" using assms(1) unfolding q_def by (auto elim: Ints_cases)
  have "x / q \<le> of_int n" using assms(2) q0 unfolding n [symmetric] by (simp add: divide_right_mono)
  hence r: "round_half_even (x / q) \<le> n" by (rule round_half_even_le)
  have m: "real_of_int (round_half_even (x / q)) * q \<le> of_int n * q"
    by (rule mult_right_mono [OF iffD2 [OF of_int_le_iff r]]) (use q0 in simp)
  have e: "of_int n * q = hi" using n q0 by (simp add: field_simps)
  show ?thesis unfolding b64_value_def q_def [symmetric] using m unfolding e .
qed

lemma b64_value_ge:
  assumes "lo / 2 powi quantum x \<in> \<int>" "lo \<le> x"
  shows "lo \<le> b64_value x"
proof -
  define q where "q = (2::real) powi quantum x"
  have q0: "0 < q" by (simp add: q_def)
  obtain n :: int where n: "lo / q = of_int n" using assms(1) unfolding q_def by (auto elim: Ints_cases)
  have "of_int n \<le> x / q" using assms(2) q0 unfolding n [symmetric] by (simp add: divide_right_mono)
  hence r: "n \<le> round_half_even (x / q)" by (rule round_half_even_ge)
  have m: "real_of_int n * q \<le> of_int (round_half_even (x / q)) * q"
    by (rule mult_right_mono [OF iffD2 [OF of_int_le_iff r]]) (use q0 in simp)
  have e: "of_int n * q = lo" using n q0 by (simp add: field_simps)
  show ?thesis unfolding b64_value_def q_def [symmetric] using m unfolding e .
qed

lemma quantum_le_grid:
  assumes "x \<noteq> 0" "\<bar>x\<bar> < 2 powi (g + 53)" "- 1074 \<le> g"
  shows "quantum x \<le> g"
proof -
  have "(2::real) powi expo x < 2 powi (g + 53)" using expo_lower [OF assms(1)] assms(2) by linarith
  hence "expo x < g + 53" by (rule powi_less_imp_less)
  thus ?thesis using assms(3) by (simp add: quantum_def)
qed

lemma b64_bounds:
  assumes a: "is_finite a" "lo \<le> f_val a" "f_val a \<le> hi"
      and g: "lo / 2 powi g \<in> \<int>" "hi / 2 powi g \<in> \<int>" "\<bar>f_val a\<bar> < 2 powi (g + 53)" "- 1074 \<le> g"
      and r: "- (2 ^ 1024) < lo" "hi < 2 ^ 1024"
  shows "is_finite (b64 a) \<and> lo \<le> f_val (b64 a) \<and> f_val (b64 a) \<le> hi"
proof (cases a)
  case (Fin x)
  show ?thesis
  proof (cases "x = 0")
    case True
    thus ?thesis using Fin a by simp
  next
    case False
    have q: "quantum x \<le> g" using False g(3,4) Fin by (intro quantum_le_grid) simp_all
    have "lo \<le> b64_value x"
      using a(2) Fin by (intro b64_value_ge grid_coarser [OF g(1) q]) simp
    moreover have "b64_value x \<le> hi"
      using a(3) Fin by (intro b64_value_le grid_coarser [OF g(2) q]) simp
    ultimately have "lo \<le> b64_value x" "b64_value x \<le> hi" "\<bar>b64_value x\<bar> < 2 ^ 1024"
      using r by simp_all
    thus ?thesis using Fin False by (auto simp add: Let_def)
  qed
qed (use a in simp_all)

lemma b64_overflow:
  assumes "2 ^ 1024 \<le> x" "x < 2 ^ 1030"
  shows "b64 (Fin x) = PInf"
proof -
  have x0: "x \<noteq> 0" "\<not> x < 0" using assms(1) by simp_all
  have "\<bar>x\<bar> < 2 powi (977 + 53)" using assms by simp
  with x0(1) have "quantum x \<le> 977" by (rule quantum_le_grid) simp
  hence "quantum x \<le> 1024" by simp
  moreover have "(2::real) ^ 1024 / 2 powi 1024 \<in> \<int>" by simp
  ultimately have "(2::real) ^ 1024 / 2 powi quantum x \<in> \<int>" by (rule grid_coarser [rotated])
  hence "2 ^ 1024 \<le> b64_value x" using assms(1) by (rule b64_value_ge)
  hence "2 ^ 1024 \<le> \<bar>b64_value x\<bar>" by simp
  thus ?thesis using x0 by (simp add: Let_def)
qed

text \<open>An \<^verbatim>\<open>f64\<close> number is a multiple of the spacing at it.\<close>

lemma f64_on_grid:
  assumes "b64 (Fin x) = Fin x"
  shows "x / 2 powi quantum x \<in> \<int>"
proof (cases "x = 0")
  case True
  thus ?thesis by simp
next
  case False
  hence "b64_value x = x" using assms by (simp add: Let_def split: if_splits)
  hence "x / 2 powi quantum x = of_int (round_half_even (x / 2 powi quantum x))"
    by (simp add: b64_value_def field_simps)
  thus ?thesis by (metis Ints_of_int)
qed

lemma quantum_mono:
  assumes "x \<noteq> 0" "\<bar>x\<bar> \<le> \<bar>y\<bar>"
  shows "quantum x \<le> quantum y"
proof -
  have y: "y \<noteq> 0" using assms by auto
  have "(2::real) powi expo x < 2 powi (expo y + 1)"
    using expo_lower [OF assms(1)] expo_upper [OF y] assms(2) by linarith
  hence "expo x < expo y + 1" by (rule powi_less_imp_less)
  thus ?thesis by (simp add: quantum_def)
qed

lemma below_top_of_grid:
  assumes "x \<noteq> 0"
  shows "\<bar>x\<bar> < 2 powi (quantum x + 53)"
proof -
  have "expo x + 1 \<le> quantum x + 53" by (simp add: quantum_def)
  hence "(2::real) powi (expo x + 1) \<le> 2 powi (quantum x + 53)"
    by (intro power_int_increasing) simp_all
  thus ?thesis using expo_upper [OF assms] by linarith
qed

lemma b64_exact_finite:
  assumes g: "x / 2 powi g \<in> \<int>" and b: "\<bar>x\<bar> \<le> 2 powi (g + 53)"
      and r: "- 1074 \<le> g" "\<bar>x\<bar> < 2 ^ 1024"
  shows "b64 (Fin x) = Fin x"
proof (cases "x = 0")
  case True
  thus ?thesis by simp
next
  case False
  have "(2::real) powi expo x \<le> 2 powi (g + 53)" using expo_lower [OF False] b by linarith
  hence le: "expo x \<le> g + 53" by (rule powi_le_imp_le)
  have z: "x / 2 powi quantum x \<in> \<int>"
  proof (cases "expo x = g + 53")
    case True
    hence "2 powi (g + 53) \<le> \<bar>x\<bar>" using expo_lower [OF False] by simp
    hence ax: "\<bar>x\<bar> = 2 powi (g + 53)" using b by linarith
    have q: "quantum x = g + 1" using True r by (simp add: quantum_def)
    have "(2::real) powi (g + 53) = 2 ^ 52 * 2 powi (g + 1)"
      using powi_split [of 52 "g + 1"] by (simp add: add.commute)
    hence "\<bar>x\<bar> / 2 powi (g + 1) = 2 ^ 52" using ax by simp
    hence "x / 2 powi (g + 1) = 2 ^ 52 \<or> x / 2 powi (g + 1) = - (2 ^ 52)"
      by (cases "0 \<le> x") (simp_all add: field_simps)
    thus ?thesis unfolding q by auto
  next
    case False
    hence "quantum x \<le> g" using le r by (simp add: quantum_def)
    with g show ?thesis by (rule grid_coarser)
  qed
  have v: "b64_value x = x" by (simp add: b64_value_def round_half_even_Ints [OF z])
  show ?thesis using False v r(2) by (simp add: Let_def)
qed

subsection \<open>The mirroring step\<close>

lemma f64_below_max: "b64 (Fin x) = Fin x \<Longrightarrow> \<bar>x\<bar> < 2 ^ 1024"
  by (cases "x = 0") (auto simp: Let_def split: if_splits)

lemma quantum_ge: "- 1074 \<le> quantum x"
  by (simp add: quantum_def)

lemma mirror_without_rounding:
  assumes fa: "b64 (Fin a) = Fin a" and fs: "b64 (Fin s) = Fin s"
      and r: "0 < a" "a \<le> s" "s \<le> 2 * a"
  shows "b64 (Fin (s - a)) = Fin (s - a)" and "b64 (Fin (a - (s - a))) = Fin (a - (s - a))"
proof -
  define g where "g = quantum a"
  have a0: "a \<noteq> 0" using r by simp
  have ag: "a / 2 powi g \<in> \<int>" unfolding g_def using fa by (rule f64_on_grid)
  have "quantum a \<le> quantum s" using a0 r by (intro quantum_mono) simp_all
  hence sg: "s / 2 powi g \<in> \<int>" unfolding g_def by (rule grid_coarser [OF f64_on_grid [OF fs]])
  have top: "a < 2 powi (g + 53)" unfolding g_def using below_top_of_grid [OF a0] r by simp
  have mx: "a < 2 ^ 1024" using f64_below_max [OF fa] by simp
  have g0: "- 1074 \<le> g" unfolding g_def by (rule quantum_ge)
  have dg: "(s - a) / 2 powi g \<in> \<int>" using sg ag by (rule grid_diff)
  show "b64 (Fin (s - a)) = Fin (s - a)"
    using dg g0 r top mx by (intro b64_exact_finite [where g = g]) simp_all
  have "(a - (s - a)) / 2 powi g \<in> \<int>" using ag dg by (rule grid_diff)
  thus "b64 (Fin (a - (s - a))) = Fin (a - (s - a))"
    using g0 r top mx by (intro b64_exact_finite [where g = g]) simp_all
qed

lemma f64_2451545: "b64 (Fin 2451545) = Fin 2451545"
  by (rule b64_exact [where g = 0]) simp_all

lemma f64_2451545_25: "b64 (Fin 2451545.25) = Fin 2451545.25"
  by (rule b64_exact [where g = "- 2"]) simp_all

lemma before_day_zero_steps:
  "b64 (Fin (- (7 / 8))) = Fin (- (7 / 8))"
  "b64 (Fin (- (5 / 8 + 1 / 2 ^ 53))) = Fin (- (5 / 8 + 1 / 2 ^ 53))"
  "b64 (Fin (1 / 4 - 1 / 2 ^ 53)) = Fin (1 / 4 - 1 / 2 ^ 53)"
  "b64 (Fin (- (9 / 8) + 1 / 2 ^ 53)) = Fin (- (9 / 8))"
  "b64 (Fin (1 / 4)) = Fin (1 / 4)"
proof -
  show "b64 (Fin (- (7 / 8))) = Fin (- (7 / 8))"
    by (rule b64_exact [where g = "- 3"]) simp_all
  show "b64 (Fin (- (5 / 8 + 1 / 2 ^ 53))) = Fin (- (5 / 8 + 1 / 2 ^ 53))"
    by (rule b64_exact [where g = "- 53"]) simp_all
  show "b64 (Fin (1 / 4 - 1 / 2 ^ 53)) = Fin (1 / 4 - 1 / 2 ^ 53)"
    by (rule b64_exact [where g = "- 53"]) simp_all
  have "b64 (Fin (- (9 / 8) + 1 / 2 ^ 53))
          = Fin (of_int (- 5066549580791808) * 2 powi (0 - 52))"
    by (rule b64_eval) (simp_all add: round_half_even_def)
  thus "b64 (Fin (- (9 / 8) + 1 / 2 ^ 53)) = Fin (- (9 / 8))" by simp
  show "b64 (Fin (1 / 4)) = Fin (1 / 4)"
    by (rule b64_exact [where g = "- 2"]) simp_all
qed

lemma mirror_of_NaN:
  "calc_j_rise_b64 j_noon NaN = NaN"
  "\<not> f_eq (b64 (f_sub j_noon (calc_j_rise_b64 j_noon NaN))) (b64 (f_sub NaN j_noon))"
  by (simp_all add: calc_j_rise_b64_def f_sub_def)

lemma polar_night_j_set:
  "calc_j_set NIGHT_END_NIGHT NZero NZero (Fin (78 * (pi / 180)))
     (declination (eclipticLongitude (Fin polar_M)) (Fin 0))
     (Fin 172) (Fin polar_M) (eclipticLongitude (Fin polar_M)) = NaN"
proof -
  have "(- 90 :: real) \<le> - 18" "(- 18 :: real) \<le> 6" "(- 18 :: real) \<noteq> 0" by simp_all
  from hourAngle_NaN_if_outside [OF polar_outside [OF this]]
  show ?thesis
    by (simp add: NIGHT_END_NIGHT_def calc_j_set_def get_set_j_def approxTransit_def
          solarTransitJ_def)
qed

subsection \<open>Ties of \<^verbatim>\<open>fromJulian\<close>\<close>

text \<open>
  From \<open>2 ^ 52\<close> on every \<^verbatim>\<open>f64\<close> number is an integer, so that a scaled value is the half
  of an odd number only below.
\<close>

lemma fromJulian_b64_scaled:
  "fromJulian_b64 mode j = f64_as_i64 mode (f_round (fromJulian_scaled_b64 j))"
  by (simp only: fromJulian_b64_def fromJulian_scaled_b64_def)

lemma large_f64_is_integer:
  assumes "b64 a = Fin y" "2 ^ 52 \<le> \<bar>y\<bar>"
  shows "y \<in> \<int>"
proof (cases a)
  case (Fin x)
  have y0: "y \<noteq> 0" using assms(2) by auto
  have x0: "x \<noteq> 0" using assms(1) Fin y0 by auto
  have y: "y = b64_value x" using assms(1) Fin x0 by (simp add: Let_def split: if_splits)
  show ?thesis
  proof (cases "0 \<le> quantum x")
    case True
    hence "(2::real) powi quantum x = 2 ^ nat (quantum x)" by (simp add: power_int_def)
    thus ?thesis unfolding y b64_value_def by simp
  next
    case False
    hence q: "quantum x \<le> 0" "expo x \<le> 51" by (simp_all add: quantum_def)
    have "(2::real) powi (expo x + 1) \<le> 2 powi 52" using q(2) by (intro power_int_increasing) simp_all
    hence x52: "\<bar>x\<bar> < 2 ^ 52" using expo_upper [OF x0] by simp
    have "real_of_int (2 ^ 52) / 2 powi quantum x \<in> \<int>" using q(1) by (rule int_on_grid)
    hence "b64_value x \<le> real_of_int (2 ^ 52)" using x52 by (intro b64_value_le) simp_all
    moreover have "real_of_int (- (2 ^ 52)) / 2 powi quantum x \<in> \<int>" using q(1) by (rule int_on_grid)
    hence "real_of_int (- (2 ^ 52)) \<le> b64_value x" using x52 by (intro b64_value_ge) simp_all
    ultimately have "\<bar>y\<bar> \<le> 2 ^ 52" unfolding y by simp
    hence "y = 2 ^ 52 \<or> y = - (2 ^ 52)" using assms(2) by linarith
    thus ?thesis by auto
  qed
qed (use assms in simp_all)

lemma half_integer_not_integer: "real_of_int k + 1 / 2 \<notin> \<int>"
proof
  assume "real_of_int k + 1 / 2 \<in> \<int>"
  then obtain n :: int where "real_of_int k + 1 / 2 = of_int n" by (auto elim: Ints_cases)
  hence "real_of_int (2 * k + 1) = of_int (2 * n)" by simp
  hence "2 * k + 1 = 2 * n" by (simp only: of_int_eq_iff)
  thus False by presburger
qed

lemma half_integer_f64:
  assumes "b64 a = Fin (of_int k + 1 / 2)"
  shows "- (2 ^ 52) \<le> k \<and> k < 2 ^ 52"
proof -
  have "\<not> 2 ^ 52 \<le> \<bar>real_of_int k + 1 / 2\<bar>"
    using large_f64_is_integer [OF assms] half_integer_not_integer [of k] by blast
  hence "\<bar>real_of_int k + 1 / 2\<bar> < 2 ^ 52" by simp
  hence "real_of_int k < real_of_int (2 ^ 52)" "real_of_int (- (2 ^ 52) - 1) < real_of_int k"
    by simp_all
  hence "k < 2 ^ 52" "- (2 ^ 52) - 1 < k" by (simp_all only: of_int_less_iff)
  thus ?thesis by simp
qed

lemma fromJulian_b64_at_tie:
  assumes "fromJulian_scaled_b64 j = Fin (of_int k + 1 / 2)"
  shows "fromJulian_b64 mode j = Some (word_of_int (k + 1))" and "- (2 ^ 52) \<le> k" and "k < 2 ^ 52"
proof -
  have b: "- (2 ^ 52) \<le> k \<and> k < 2 ^ 52"
    using assms unfolding fromJulian_scaled_b64_def by (rule half_integer_f64)
  thus "- (2 ^ 52) \<le> k" "k < 2 ^ 52" by simp_all
  have "\<lfloor>real_of_int k + 1 / 2 + 1 / 2\<rfloor> = k + 1" by simp
  with fin_round [of "Fin (of_int k + 1 / 2)"]
  have r: "is_finite (f_round (Fin (of_int k + 1 / 2)))"
    "f_val (f_round (Fin (of_int k + 1 / 2))) = of_int (k + 1)" by simp_all
  have "I64_MIN \<le> k + 1" "k + 1 \<le> I64_MAX" using b by (simp_all add: I64_MIN_def I64_MAX_def)
  from cast_of_int [OF r this]
  show "fromJulian_b64 mode j = Some (word_of_int (k + 1))"
    unfolding fromJulian_b64_scaled assms .
qed

lemma scaled_minus_42187_5:
  "fromJulian_scaled_b64 (Fin 2440587.49951171875) = Fin (- 42187.5)"
proof -
  have a1: "f_add (Fin 2440587.49951171875) (Fin 0.5) = Fin 2440587.99951171875" by simp
  have r1: "b64 (Fin 2440587.99951171875) = Fin 2440587.99951171875"
    by (rule b64_exact [where g = "- 11"]) simp_all
  have a2: "f_sub (Fin 2440587.99951171875) (Fin 2440588) = Fin (- (1 / 2048))" by simp
  have r2: "b64 (Fin (- (1 / 2048))) = Fin (- (1 / 2048))"
    by (rule b64_exact [where g = "- 11"]) simp_all
  have a3: "f_mul (Fin (- (1 / 2048))) (Fin 86400000) = Fin (- 42187.5)" by simp
  have r3: "b64 (Fin (- 42187.5)) = Fin (- 42187.5)"
    by (rule b64_exact [where g = "- 1"]) simp_all
  show ?thesis
    unfolding fromJulian_scaled_b64_def u32_consts a1 r1 a2 r2 a3 r3 ..
qed

lemma scaled_large_tie:
  "(69549451.50146484375 + 0.5 - 2440588) * 86400000 = (5798205849726562 + 1 / 2 :: real)"
  "fromJulian_scaled_b64 (Fin 69549451.50146484375) = Fin 5798205849726562"
proof -
  show "(69549451.50146484375 + 0.5 - 2440588) * 86400000 = (5798205849726562 + 1 / 2 :: real)"
    by simp
  have a1: "f_add (Fin 69549451.50146484375) (Fin 0.5) = Fin 69549452.00146484375" by simp
  have r1: "b64 (Fin 69549452.00146484375) = Fin 69549452.00146484375"
    by (rule b64_exact [where g = "- 11"]) simp_all
  have a2: "f_sub (Fin 69549452.00146484375) (Fin 2440588) = Fin 67108864.00146484375" by simp
  have r2: "b64 (Fin 67108864.00146484375) = Fin 67108864.00146484375"
    by (rule b64_exact [where g = "- 11"]) simp_all
  have a3: "f_mul (Fin 67108864.00146484375) (Fin 86400000) = Fin 5798205849726562.5" by simp
  have "b64 (Fin 5798205849726562.5) = Fin (of_int 5798205849726562 * 2 powi (52 - 52))"
    by (rule b64_eval) (simp_all add: round_half_even_def)
  hence r3: "b64 (Fin 5798205849726562.5) = Fin 5798205849726562" by simp
  show "fromJulian_scaled_b64 (Fin 69549451.50146484375) = Fin 5798205849726562"
    unfolding fromJulian_scaled_b64_def u32_consts a1 r1 a2 r2 a3 r3 ..
qed

lemma fromJulian_b64_large_tie:
  "fromJulian_b64 mode (Fin 69549451.50146484375) = Some 5798205849726562"
  unfolding fromJulian_b64_scaled scaled_large_tie(2)
  by (cases mode) (simp_all add: I64_MIN_def I64_MAX_def trunc_real_def)

subsection \<open>The distance of the Moon without overflow\<close>

text \<open>Bounds by integers, for a value below \<open>2 ^ 53\<close>.\<close>

lemma b64_int_bounds:
  assumes "is_finite a" "of_int lo \<le> f_val a" "f_val a \<le> of_int hi"
      and "\<bar>f_val a\<bar> < 2 ^ 53" "- (2 ^ 1024) < real_of_int lo" "real_of_int hi < 2 ^ 1024"
  shows "is_finite (b64 a) \<and> of_int lo \<le> f_val (b64 a) \<and> f_val (b64 a) \<le> of_int hi"
  using assms(1-3) int_on_grid [of 0 lo] int_on_grid [of 0 hi] _ _ assms(5,6)
  by (rule b64_bounds) (use assms(4) in simp_all)

lemma literal_13: "is_finite (b64 (Fin 13.064993)) \<and> 13 \<le> f_val (b64 (Fin 13.064993)) \<and>
    f_val (b64 (Fin 13.064993)) \<le> 14"
  using b64_int_bounds [of "Fin 13.064993" 13 14] by simp

lemma literal_134: "is_finite (b64 (Fin 134.963)) \<and> 134 \<le> f_val (b64 (Fin 134.963)) \<and>
    f_val (b64 (Fin 134.963)) \<le> 135"
  using b64_int_bounds [of "Fin 134.963" 134 135] by simp

lemma b64_abs_bound:
  assumes "is_finite a" "\<bar>f_val a\<bar> \<le> M" "M / 2 powi g \<in> \<int>" "M < 2 powi (g + 53)"
      and "- 1074 \<le> g" "M < 2 ^ 1024"
  shows "is_finite (b64 a) \<and> \<bar>f_val (b64 a)\<bar> \<le> M"
proof -
  have "- (M / 2 powi g) \<in> \<int>" using assms(3) by (rule Ints_minus)
  hence lo: "(- M) / 2 powi g \<in> \<int>" by simp
  have b: "- M \<le> f_val a" "f_val a \<le> M" "\<bar>f_val a\<bar> < 2 powi (g + 53)" "- (2 ^ 1024) < - M"
    using assms(2,4,6) by linarith+
  from b64_bounds [OF assms(1) b(1,2) lo assms(3) b(3) assms(5) b(4) assms(6)]
  show ?thesis by (simp add: abs_le_iff)
qed

lemma PI_b64_bounds: "is_finite PI_b64 \<and> 2 \<le> f_val PI_b64 \<and> f_val PI_b64 \<le> 4"
proof -
  have "2 \<le> pi" "pi \<le> 4" using pi_ge_two pi_less_4 by simp_all
  thus ?thesis
    unfolding PI_b64_def PI_def using b64_int_bounds [of "Fin pi" 2 4] by simp
qed

lemma TO_RAD_b64_bounds:
  "is_finite TO_RAD_b64 \<and> 1 / 128 \<le> f_val TO_RAD_b64 \<and> f_val TO_RAD_b64 \<le> 1"
proof -
  let ?q = "f_div PI_b64 (Fin 180)"
  have p: "is_finite PI_b64" "2 \<le> f_val PI_b64" "f_val PI_b64 \<le> 4"
    using PI_b64_bounds by simp_all
  have q: "is_finite ?q" "f_val ?q = f_val PI_b64 / 180"
    using fin_div [of PI_b64 "Fin 180"] p(1) by simp_all
  have "(1 / 128) / (2::real) powi (- 47) \<in> \<int>" "1 / (2::real) powi (- 47) \<in> \<int>"
    by (simp_all add: power_int_minus)
  moreover have "1 / 128 \<le> f_val ?q" "f_val ?q \<le> 1" "\<bar>f_val ?q\<bar> < 2 powi (- 47 + 53)"
    unfolding q(2) using p(2,3) by simp_all
  ultimately show ?thesis
    unfolding TO_RAD_b64_def using q(1) by (intro b64_bounds [where g = "- 47"]) simp_all
qed

lemma lunarMeanAnomaly_b64_finite:
  assumes "is_finite d" "\<bar>f_val d\<bar> \<le> 2 ^ 1020"
  shows "is_finite (lunarMeanAnomaly_b64 d)"
proof -
  define B :: real where "B = 2 ^ 1020"
  define c where "c = b64 (Fin 13.064993)"
  define k where "k = b64 (Fin 134.963)"
  define p where "p = b64 (f_mul c d)"
  define s where "s = b64 (f_add k p)"
  have c: "is_finite c" "13 \<le> f_val c" "f_val c \<le> 14" using literal_13 by (simp_all add: c_def)
  have k: "is_finite k" "134 \<le> f_val k" "f_val k \<le> 135" using literal_134 by (simp_all add: k_def)
  have t: "is_finite TO_RAD_b64" "0 \<le> f_val TO_RAD_b64" "f_val TO_RAD_b64 \<le> 1"
    using TO_RAD_b64_bounds by simp_all
  have g14: "(14 * B) / 2 powi 971 \<in> \<int>" "14 * B < 2 powi (971 + 53)" "14 * B < 2 ^ 1024"
    by (simp_all add: B_def)
  have g15: "(15 * B) / 2 powi 971 \<in> \<int>" "15 * B < 2 powi (971 + 53)" "15 * B < 2 ^ 1024"
    by (simp_all add: B_def)
  have g: "- 1074 \<le> (971::int)" by simp
  have m: "is_finite (f_mul c d)" "f_val (f_mul c d) = f_val c * f_val d"
    using fin_mul [OF c(1) assms(1)] by simp_all
  have "\<bar>f_val c\<bar> * \<bar>f_val d\<bar> \<le> 14 * B"
    unfolding B_def using c(2,3) assms(2) by (intro mult_mono) simp_all
  hence mb: "\<bar>f_val (f_mul c d)\<bar> \<le> 14 * B" by (simp only: m(2) abs_mult)
  have p: "is_finite p" "\<bar>f_val p\<bar> \<le> 14 * B"
    unfolding p_def using b64_abs_bound [OF m(1) mb g14(1,2) g g14(3)] by simp_all
  have a: "is_finite (f_add k p)" "f_val (f_add k p) = f_val k + f_val p"
    using fin_add [of k p] k(1) p(1) by simp_all
  have "135 \<le> B" by (simp add: B_def)
  hence ab: "\<bar>f_val (f_add k p)\<bar> \<le> 15 * B" unfolding a(2) using k(2,3) p(2) by linarith
  have s: "is_finite s" "\<bar>f_val s\<bar> \<le> 15 * B"
    unfolding s_def using b64_abs_bound [OF a(1) ab g15(1,2) g g15(3)] by simp_all
  have x: "is_finite (f_mul s TO_RAD_b64)" "f_val (f_mul s TO_RAD_b64) = f_val s * f_val TO_RAD_b64"
    using fin_mul [of s TO_RAD_b64] s(1) t(1) by simp_all
  have "\<bar>f_val s\<bar> * \<bar>f_val TO_RAD_b64\<bar> \<le> (15 * B) * 1"
    using s(2) t(2,3) by (intro mult_mono) simp_all
  hence xb: "\<bar>f_val (f_mul s TO_RAD_b64)\<bar> \<le> 15 * B" by (simp only: x(2) abs_mult mult_1_right)
  from b64_abs_bound [OF x(1) xb g15(1,2) g g15(3)]
  show ?thesis by (simp add: lunarMeanAnomaly_b64_def s_def p_def c_def k_def)
qed

lemma finite_nonzero_Fin: "is_finite a \<Longrightarrow> f_val a \<noteq> 0 \<Longrightarrow> a = Fin (f_val a)"
  by (cases a) simp_all

lemma moon_distance_b64_range:
  assumes "is_finite (lunarMeanAnomaly_b64 d)"
  shows "is_finite (moon_distance_b64 d) \<and> 364096 \<le> f_val (moon_distance_b64 d) \<and>
         f_val (moon_distance_b64 d) \<le> 405906"
proof -
  define c where "c = f_cos_b64 (lunarMeanAnomaly_b64 d)"
  define t where "t = b64 (f_mul (Fin 20905) c)"
  define v where "v = f_val (lunarMeanAnomaly_b64 d)"
  have f: "is_finite (f_cos (lunarMeanAnomaly_b64 d))"
    "f_val (f_cos (lunarMeanAnomaly_b64 d)) = cos v"
    using fin_cos [OF assms] by (simp_all add: v_def)
  have "(1::real) < 2 ^ 53" by simp
  hence "\<bar>cos v\<bar> < 2 ^ 53" using abs_cos_le_one [of v] by linarith
  moreover have "real_of_int (- 1) \<le> cos v" "cos v \<le> real_of_int 1"
    using cos_ge_minus_one [of v] cos_le_one [of v] by simp_all
  ultimately have "is_finite (b64 (f_cos (lunarMeanAnomaly_b64 d))) \<and>
         real_of_int (- 1) \<le> f_val (b64 (f_cos (lunarMeanAnomaly_b64 d))) \<and>
         f_val (b64 (f_cos (lunarMeanAnomaly_b64 d))) \<le> real_of_int 1"
    unfolding f(2) [symmetric] using f(1) by (intro b64_int_bounds) simp_all
  hence c: "is_finite c" "- 1 \<le> f_val c" "f_val c \<le> 1"
    by (simp_all add: c_def f_cos_b64_def)
  have m: "is_finite (f_mul (Fin 20905) c)" "f_val (f_mul (Fin 20905) c) = 20905 * f_val c"
    using fin_mul [of "Fin 20905" c] c(1) by simp_all
  have t: "is_finite t" "- 20905 \<le> f_val t" "f_val t \<le> 20905"
    unfolding t_def using b64_int_bounds [of "f_mul (Fin 20905) c" "- 20905" 20905] m c(2,3)
    by simp_all
  have s: "is_finite (f_sub (Fin 385001) t)" "f_val (f_sub (Fin 385001) t) = 385001 - f_val t"
    using fin_sub [of "Fin 385001" t] t(1) by simp_all
  have "is_finite (b64 (f_sub (Fin 385001) t)) \<and> 364096 \<le> f_val (b64 (f_sub (Fin 385001) t)) \<and>
        f_val (b64 (f_sub (Fin 385001) t)) \<le> 405906"
    using b64_int_bounds [of "f_sub (Fin 385001) t" 364096 405906] s t(2,3) by simp
  thus ?thesis by (simp only: moon_distance_b64_def t_def c_def)
qed

lemma moon_distance_b64_kept:
  assumes "is_finite d" "\<bar>f_val d\<bar> \<le> 2 ^ 1020"
  shows "moonCoords_distance_b64 d = moon_distance_b64 d \<and> is_finite (moon_distance_b64 d) \<and>
         364096 \<le> f_val (moon_distance_b64 d) \<and> f_val (moon_distance_b64 d) \<le> 405906"
proof -
  note r = moon_distance_b64_range [OF lunarMeanAnomaly_b64_finite [OF assms]]
  hence "truthy (moon_distance_b64 d)"
    by (cases "moon_distance_b64 d") (simp_all add: truthy_def)
  thus ?thesis using r by (simp add: moonCoords_distance_b64_def f_or_def)
qed

lemma lunarMeanAnomaly_b64_overflow: "lunarMeanAnomaly_b64 (Fin (2 ^ 1023)) = PInf"
proof -
  define cv where "cv = f_val (b64 (Fin 13.064993))"
  define tv where "tv = f_val TO_RAD_b64"
  have cb: "13 \<le> cv" "cv \<le> 14" using literal_13 by (simp_all add: cv_def)
  have c: "b64 (Fin 13.064993) = Fin cv"
    unfolding cv_def using literal_13 by (intro finite_nonzero_Fin) simp_all
  have tb: "0 < tv" using TO_RAD_b64_bounds by (simp add: tv_def)
  have t: "TO_RAD_b64 = Fin tv"
    unfolding tv_def using TO_RAD_b64_bounds by (intro finite_nonzero_Fin) simp_all
  have "f_mul (Fin cv) (Fin (2 ^ 1023)) = Fin (cv * 2 ^ 1023)" using cb by simp
  moreover have "b64 (Fin (cv * 2 ^ 1023)) = PInf"
  proof (rule b64_overflow)
    have "2 * 2 ^ 1023 \<le> cv * (2::real) ^ 1023" using cb by (intro mult_right_mono) simp_all
    thus "2 ^ 1024 \<le> cv * 2 ^ 1023" by simp
    have "cv * (2::real) ^ 1023 \<le> 14 * 2 ^ 1023" using cb by (intro mult_right_mono) simp_all
    thus "cv * 2 ^ 1023 < 2 ^ 1030" by simp
  qed
  ultimately have p: "b64 (f_mul (b64 (Fin 13.064993)) (Fin (2 ^ 1023))) = PInf"
    by (simp only: c)
  have "is_finite (b64 (Fin 134.963))" using literal_134 by simp
  hence s: "f_add (b64 (Fin 134.963)) PInf = PInf"
    by (cases "b64 (Fin 134.963)") simp_all
  have m: "f_mul PInf TO_RAD_b64 = PInf" unfolding t using tb by simp
  have i: "b64 PInf = PInf" by simp
  show ?thesis unfolding lunarMeanAnomaly_b64_def p s i m ..
qed

subsection \<open>Midsummer at the equator, 100 metres above the sea\<close>

lemma sqrt_100: "sqrt 100 = 10"
  using real_sqrt_abs [of 10] by simp

lemma hill_dh: "observerAngle (Fin 100) = Fin (- 0.346)"
  by (simp add: observerAngle_def sqrt_100)

lemma hill_args:
  "getTimes_args (Fin 961632000000) (Fin 0) (Fin 0) (Fin 100) =
     (solarTransitJ (Fin 172.0009) (Fin polar_M) (eclipticLongitude (Fin polar_M)),
      Fin (- 0.346), NZero, Fin 0,
      declination (eclipticLongitude (Fin polar_M)) (Fin 0),
      Fin 172, Fin polar_M, eclipticLongitude (Fin polar_M))"
  unfolding getTimes_args_def Let_def polar_lw hill_dh polar_d polar_n polar_ds polar_m polar_M_def
  by simp

lemma hill_threshold: "corrected_threshold v (Fin 100) = Fin ((v - 0.346) * pi / 180)"
  by (simp add: corrected_threshold_def PI_def sqrt_100)

lemma sea_threshold: "corrected_threshold v (Fin 0) = Fin (v * pi / 180)"
  by (simp add: corrected_threshold_def PI_def)

lemma equator_declination_cos:
  "cos (23.4397 * (pi / 180))
     \<le> cos (arcsin (sin (23.4397 * (pi / 180)) * sin polar_L))"
proof -
  let ?e = "23.4397 * (pi / 180)"
  let ?s = "sin ?e * sin polar_L"
  have e: "0 \<le> ?e" "?e \<le> pi / 2" using pi_gt_zero by simp_all
  have se: "0 \<le> sin ?e" using e pi_gt_zero by (intro sin_ge_zero) simp_all
  have s0: "0 \<le> ?s" using polar_s(1) sin_gt_zero [of "pi / 10"] pi_gt_zero by simp
  have "?s \<le> sin ?e * 1" using se by (intro mult_left_mono) simp_all
  hence s1: "?s \<le> sin ?e" by simp
  have s2: "sin ?e \<le> 1" by (rule sin_le_one)
  have "arcsin ?s \<le> arcsin (sin ?e)"
    using s0 s1 s2 by (intro arcsin_le_arcsin) linarith+
  also have "\<dots> = ?e" using e by (intro arcsin_sin) simp_all
  finally have a1: "arcsin ?s \<le> ?e" .
  have "arcsin 0 \<le> arcsin ?s" using s0 s1 s2 by (intro arcsin_le_arcsin) linarith+
  hence a0: "0 \<le> arcsin ?s" by simp
  show ?thesis using a0 a1 e pi_gt_zero by (intro cos_monotone_0_pi_le) simp_all
qed

lemma equator_sine_bound:
  assumes "- 60 \<le> a" "a \<le> 60"
  shows "\<bar>sin (a * pi / 180)\<bar> \<le> cos (23.4397 * (pi / 180))"
proof -
  define c where "c = pi / 2 - 23.4397 * (pi / 180)"
  define x where "x = a * pi / 180"
  have cs: "cos (23.4397 * (pi / 180)) = sin c"
    unfolding c_def using cos_sin_eq [of "23.4397 * (pi / 180)"] by simp
  have "(- 60) * pi \<le> a * pi" "a * pi \<le> 60 * pi"
    using assms pi_gt_zero by (intro mult_right_mono; simp)+
  hence x: "- (pi / 3) \<le> x" "x \<le> pi / 3" by (simp_all add: x_def)
  have c: "pi / 3 \<le> c" "c \<le> pi / 2" using pi_gt_zero by (simp_all add: c_def)
  have "sin x \<le> sin c" using x c by (intro sin_monotone_2pi_le) linarith+
  moreover have "sin (- c) \<le> sin x" using x c by (intro sin_monotone_2pi_le) linarith+
  ultimately have "\<bar>sin x\<bar> \<le> sin c" by (simp add: abs_le_iff)
  thus ?thesis unfolding cs x_def .
qed

lemma equator_hour_angle:
  assumes "- 60 \<le> a" "a \<le> 60"
  defines "q \<equiv> sin (a * pi / 180) / cos (arcsin (sin (23.4397 * (pi / 180)) * sin polar_L))"
  shows "hourAngle (Fin (a * pi / 180)) (Fin 0)
           (declination (eclipticLongitude (Fin polar_M)) (Fin 0)) = Fin (arccos q)"
    and "\<bar>q\<bar> \<le> 1"
proof -
  let ?dec = "declination (eclipticLongitude (Fin polar_M)) (Fin 0)"
  let ?d = "arcsin (sin (23.4397 * (pi / 180)) * sin polar_L)"
  have "0 < cos (23.4397 * (pi / 180))"
    by (rule cos_gt_zero_pi) (use pi_gt_zero in \<open>(simp; linarith)+\<close>)
  hence cd: "0 < cos ?d" using equator_declination_cos by linarith
  have "\<bar>sin (a * pi / 180)\<bar> \<le> cos ?d"
    using equator_sine_bound [OF assms(1,2)] equator_declination_cos by linarith
  thus q1: "\<bar>q\<bar> \<le> 1" using cd by (simp add: q_def field_simps abs_le_iff)
  have "is_finite (hourAngle_arg (Fin (a * pi / 180)) (Fin 0) ?dec)"
    and "f_val (hourAngle_arg (Fin (a * pi / 180)) (Fin 0) ?dec) = q"
    unfolding hourAngle_arg_def q_def using cd polar_dec by (simp_all add: fin_simps)
  hence "f_acos (hourAngle_arg (Fin (a * pi / 180)) (Fin 0) ?dec) = Fin (arccos q)"
    using q1 by (cases "hourAngle_arg (Fin (a * pi / 180)) (Fin 0) ?dec") auto
  thus "hourAngle (Fin (a * pi / 180)) (Fin 0) ?dec = Fin (arccos q)"
    by (simp only: hourAngle_def)
qed

lemma hill_hour_angle:
  assumes "- 59 \<le> v" "v \<le> 60"
  shows "is_finite (hourAngle (corrected_threshold v (Fin 100)) (Fin 0)
           (declination (eclipticLongitude (Fin polar_M)) (Fin 0)))"
    and "hourAngle (corrected_threshold v (Fin 100)) (Fin 0)
           (declination (eclipticLongitude (Fin polar_M)) (Fin 0))
         \<noteq> hourAngle (corrected_threshold v (Fin 0)) (Fin 0)
           (declination (eclipticLongitude (Fin polar_M)) (Fin 0))"
proof -
  let ?dec = "declination (eclipticLongitude (Fin polar_M)) (Fin 0)"
  define c where "c = cos (arcsin (sin (23.4397 * (pi / 180)) * sin polar_L))"
  define x where "x = (v - 0.346) * pi / 180"
  define y where "y = v * pi / 180"
  have "0 < cos (23.4397 * (pi / 180))"
    by (rule cos_gt_zero_pi) (use pi_gt_zero in \<open>(simp; linarith)+\<close>)
  hence c0: "0 < c" unfolding c_def using equator_declination_cos by linarith
  have a: "- 60 \<le> v - 0.346" "v - 0.346 \<le> 60" "- 60 \<le> v" using assms by simp_all
  have hx: "hourAngle (Fin x) (Fin 0) ?dec = Fin (arccos (sin x / c))" and qx: "\<bar>sin x / c\<bar> \<le> 1"
    unfolding x_def c_def by (rule equator_hour_angle [OF a(1,2)])+
  have hy: "hourAngle (Fin y) (Fin 0) ?dec = Fin (arccos (sin y / c))" and qy: "\<bar>sin y / c\<bar> \<le> 1"
    unfolding y_def c_def by (rule equator_hour_angle [OF a(3) assms(2)])+
  show "is_finite (hourAngle (corrected_threshold v (Fin 100)) (Fin 0) ?dec)"
    unfolding hill_threshold x_def [symmetric] hx by simp
  define X where "X = (v - 0.346) * pi"
  define Y where "Y = v * pi"
  have "(- 60) * pi \<le> X" "Y \<le> 60 * pi"
    unfolding X_def Y_def using a assms pi_gt_zero by (intro mult_right_mono; simp)+
  moreover have "X < Y"
    unfolding X_def Y_def using pi_gt_zero by (intro mult_strict_right_mono) simp_all
  moreover have "x = X / 180" "y = Y / 180" by (simp_all add: x_def y_def X_def Y_def)
  ultimately have "- (pi / 2) \<le> x" "x < y" "y \<le> pi / 2"
    using pi_gt_zero by linarith+
  hence "sin x < sin y" by (rule sin_monotone_2pi)
  hence ne: "sin x / c \<noteq> sin y / c" using c0 by simp
  have "arccos (sin x / c) \<noteq> arccos (sin y / c)"
  proof
    assume "arccos (sin x / c) = arccos (sin y / c)"
    hence "cos (arccos (sin x / c)) = cos (arccos (sin y / c))" by simp
    thus False using ne qx qy by (simp add: cos_arccos abs_le_iff)
  qed
  thus "hourAngle (corrected_threshold v (Fin 100)) (Fin 0) ?dec
          \<noteq> hourAngle (corrected_threshold v (Fin 0)) (Fin 0) ?dec"
    unfolding hill_threshold sea_threshold x_def [symmetric] y_def [symmetric] hx hy by simp
qed

section \<open>The claims\<close>

text \<open>
  C1 (as amended). A field of \<^verbatim>\<open>SunTimes\<close> is a \<^verbatim>\<open>u64\<close> and holds no not-a-number. For
  every timestamp, latitude, longitude and height and for each of the six pairs of times:
  when the threshold of the pair is never crossed that day (the argument of \<^verbatim>\<open>acos\<close> in
  its hour angle lies outside the interval from -1 to 1), the not-a-number Julian moments
  are converted by \<^verbatim>\<open>fromJulian\<close>: both fields of the pair are 0 in the result of
  \<^verbatim>\<open>getTimes\<close> under the saturating conversion, and the call traps under the trapping one.
\<close>
theorem never_crossed_gives_zero_or_trap:
  "(never_crossed SUNRISE_SUNSET timestamp lat lon h \<longrightarrow>
      map_option sunrise (getTimes Saturating timestamp lat lon h) = Some 0 \<and>
      map_option sunset (getTimes Saturating timestamp lat lon h) = Some 0 \<and>
      getTimes Trapping timestamp lat lon h = None) \<and>
   (never_crossed SUNRISE_END_SUNSET_START timestamp lat lon h \<longrightarrow>
      map_option sunrise_end (getTimes Saturating timestamp lat lon h) = Some 0 \<and>
      map_option sunsetStart (getTimes Saturating timestamp lat lon h) = Some 0 \<and>
      getTimes Trapping timestamp lat lon h = None) \<and>
   (never_crossed DAWN_DUSK timestamp lat lon h \<longrightarrow>
      map_option dawn (getTimes Saturating timestamp lat lon h) = Some 0 \<and>
      map_option dusk (getTimes Saturating timestamp lat lon h) = Some 0 \<and>
      getTimes Trapping timestamp lat lon h = None) \<and>
   (never_crossed NAUTICAL_DAWN_NAUTICAL_DUSK timestamp lat lon h \<longrightarrow>
      map_option nauticalDawn (getTimes Saturating timestamp lat lon h) = Some 0 \<and>
      map_option nauticalDusk (getTimes Saturating timestamp lat lon h) = Some 0 \<and>
      getTimes Trapping timestamp lat lon h = None) \<and>
   (never_crossed NIGHT_END_NIGHT timestamp lat lon h \<longrightarrow>
      map_option nightEnd (getTimes Saturating timestamp lat lon h) = Some 0 \<and>
      map_option night (getTimes Saturating timestamp lat lon h) = Some 0 \<and>
      getTimes Trapping timestamp lat lon h = None) \<and>
   (never_crossed GOLDEN_HOUR_END_GOLDEN_HOUR timestamp lat lon h \<longrightarrow>
      map_option goldenHourEnd (getTimes Saturating timestamp lat lon h) = Some 0 \<and>
      map_option goldenHour (getTimes Saturating timestamp lat lon h) = Some 0 \<and>
      getTimes Trapping timestamp lat lon h = None)"
proof -
  have "never_crossed SUNRISE_SUNSET timestamp lat lon h \<Longrightarrow>
      map_option sunrise (getTimes Saturating timestamp lat lon h) = Some 0 \<and>
      map_option sunset (getTimes Saturating timestamp lat lon h) = Some 0 \<and>
      getTimes Trapping timestamp lat lon h = None"
    by (erule never_crossed_pair) (rule getTimes_Some(1); assumption)
  moreover have "never_crossed SUNRISE_END_SUNSET_START timestamp lat lon h \<Longrightarrow>
      map_option sunrise_end (getTimes Saturating timestamp lat lon h) = Some 0 \<and>
      map_option sunsetStart (getTimes Saturating timestamp lat lon h) = Some 0 \<and>
      getTimes Trapping timestamp lat lon h = None"
    by (erule never_crossed_pair) (rule getTimes_Some(2); assumption)
  moreover have "never_crossed DAWN_DUSK timestamp lat lon h \<Longrightarrow>
      map_option dawn (getTimes Saturating timestamp lat lon h) = Some 0 \<and>
      map_option dusk (getTimes Saturating timestamp lat lon h) = Some 0 \<and>
      getTimes Trapping timestamp lat lon h = None"
    by (erule never_crossed_pair) (rule getTimes_Some(3); assumption)
  moreover have "never_crossed NAUTICAL_DAWN_NAUTICAL_DUSK timestamp lat lon h \<Longrightarrow>
      map_option nauticalDawn (getTimes Saturating timestamp lat lon h) = Some 0 \<and>
      map_option nauticalDusk (getTimes Saturating timestamp lat lon h) = Some 0 \<and>
      getTimes Trapping timestamp lat lon h = None"
    by (erule never_crossed_pair) (rule getTimes_Some(4); assumption)
  moreover have "never_crossed NIGHT_END_NIGHT timestamp lat lon h \<Longrightarrow>
      map_option nightEnd (getTimes Saturating timestamp lat lon h) = Some 0 \<and>
      map_option night (getTimes Saturating timestamp lat lon h) = Some 0 \<and>
      getTimes Trapping timestamp lat lon h = None"
    by (erule never_crossed_pair) (rule getTimes_Some(5); assumption)
  moreover have "never_crossed GOLDEN_HOUR_END_GOLDEN_HOUR timestamp lat lon h \<Longrightarrow>
      map_option goldenHourEnd (getTimes Saturating timestamp lat lon h) = Some 0 \<and>
      map_option goldenHour (getTimes Saturating timestamp lat lon h) = Some 0 \<and>
      getTimes Trapping timestamp lat lon h = None"
    by (erule never_crossed_pair) (rule getTimes_Some(6); assumption)
  ultimately show ?thesis by blast
qed

text \<open>
  On 22 June 2000 at latitude 78 (longitude 0, height 0) none of the six thresholds is
  crossed: the Sun stays more than 6 degrees above the horizon.
\<close>
theorem never_crossed_gives_zero_or_trap_witness:
  "never_crossed SUNRISE_SUNSET (Fin 961632000000) (Fin 78) (Fin 0) (Fin 0) \<and>
   never_crossed SUNRISE_END_SUNSET_START (Fin 961632000000) (Fin 78) (Fin 0) (Fin 0) \<and>
   never_crossed DAWN_DUSK (Fin 961632000000) (Fin 78) (Fin 0) (Fin 0) \<and>
   never_crossed NAUTICAL_DAWN_NAUTICAL_DUSK (Fin 961632000000) (Fin 78) (Fin 0) (Fin 0) \<and>
   never_crossed NIGHT_END_NIGHT (Fin 961632000000) (Fin 78) (Fin 0) (Fin 0) \<and>
   never_crossed GOLDEN_HOUR_END_GOLDEN_HOUR (Fin 961632000000) (Fin 78) (Fin 0) (Fin 0) \<and>
   map_option sunrise (getTimes Saturating (Fin 961632000000) (Fin 78) (Fin 0) (Fin 0)) = Some 0 \<and>
   map_option sunsetStart (getTimes Saturating (Fin 961632000000) (Fin 78) (Fin 0) (Fin 0)) = Some 0 \<and>
   map_option dusk (getTimes Saturating (Fin 961632000000) (Fin 78) (Fin 0) (Fin 0)) = Some 0 \<and>
   map_option nauticalDusk (getTimes Saturating (Fin 961632000000) (Fin 78) (Fin 0) (Fin 0)) = Some 0 \<and>
   map_option nightEnd (getTimes Saturating (Fin 961632000000) (Fin 78) (Fin 0) (Fin 0)) = Some 0 \<and>
   map_option goldenHour (getTimes Saturating (Fin 961632000000) (Fin 78) (Fin 0) (Fin 0)) = Some 0"
proof -
  have n: "never_crossed SUNRISE_SUNSET (Fin 961632000000) (Fin 78) (Fin 0) (Fin 0)"
          "never_crossed SUNRISE_END_SUNSET_START (Fin 961632000000) (Fin 78) (Fin 0) (Fin 0)"
          "never_crossed DAWN_DUSK (Fin 961632000000) (Fin 78) (Fin 0) (Fin 0)"
          "never_crossed NAUTICAL_DAWN_NAUTICAL_DUSK (Fin 961632000000) (Fin 78) (Fin 0) (Fin 0)"
          "never_crossed NIGHT_END_NIGHT (Fin 961632000000) (Fin 78) (Fin 0) (Fin 0)"
          "never_crossed GOLDEN_HOUR_END_GOLDEN_HOUR (Fin 961632000000) (Fin 78) (Fin 0) (Fin 0)"
    unfolding SUNRISE_SUNSET_def SUNRISE_END_SUNSET_START_def DAWN_DUSK_def
      NAUTICAL_DAWN_NAUTICAL_DUSK_def NIGHT_END_NIGHT_def GOLDEN_HOUR_END_GOLDEN_HOUR_def
    by (rule polar_never_crossed; simp)+
  show ?thesis
    using never_crossed_gives_zero_or_trap [of "Fin 961632000000" "Fin 78" "Fin 0" "Fin 0"] n
    by blast
qed

text \<open>
  C1 as stated fails there: the threshold of -18 degrees is never crossed, and the field
  \<^verbatim>\<open>night\<close> is the timestamp 0 (or the call traps), not a not-a-number.
\<close>
theorem polar_night_is_epoch_not_NaN:
  "never_crossed NIGHT_END_NIGHT (Fin 961632000000) (Fin 78) (Fin 0) (Fin 0) \<and>
   map_option night (getTimes Saturating (Fin 961632000000) (Fin 78) (Fin 0) (Fin 0)) = Some 0 \<and>
   getTimes Trapping (Fin 961632000000) (Fin 78) (Fin 0) (Fin 0) = None"
proof -
  have n: "never_crossed NIGHT_END_NIGHT (Fin 961632000000) (Fin 78) (Fin 0) (Fin 0)"
    unfolding NIGHT_END_NIGHT_def by (rule polar_never_crossed) simp_all
  have "map_option nightEnd (getTimes Saturating (Fin 961632000000) (Fin 78) (Fin 0) (Fin 0)) = Some 0 \<and>
        map_option night (getTimes Saturating (Fin 961632000000) (Fin 78) (Fin 0) (Fin 0)) = Some 0 \<and>
        getTimes Trapping (Fin 961632000000) (Fin 78) (Fin 0) (Fin 0) = None"
    by (rule never_crossed_pair [OF n]) (rule getTimes_Some(5); assumption)
  with n show ?thesis by blast
qed

text \<open>
  C2 (as amended). \<^verbatim>\<open>getMoonIllumination\<close> has no fallback: for every timestamp for which
  the angle of the bright limb or the illuminated fraction evaluates to not-a-number,
  the returned \<^verbatim>\<open>Illumination\<close> carries not-a-number in that field. Both do so for every
  timestamp that is not finite.
\<close>
theorem illumination_keeps_NaN:
  "(illum_angle t = NaN \<longrightarrow> Illumination.angle (getMoonIllumination t) = NaN) \<and>
   (f_div (f_add (Fin 1) (f_cos (illum_inc t))) (Fin 2) = NaN \<longrightarrow>
      fraction (getMoonIllumination t) = NaN) \<and>
   (\<not> is_finite t \<longrightarrow>
      illum_angle t = NaN \<and> f_div (f_add (Fin 1) (f_cos (illum_inc t))) (Fin 2) = NaN)"
  using illumination_nonfinite(1,2) [of t]
  by (auto simp: getMoonIllumination_def Let_def)

theorem illumination_keeps_NaN_witness:
  "\<not> is_finite NaN \<and> illum_angle NaN = NaN \<and>
   f_div (f_add (Fin 1) (f_cos (illum_inc NaN))) (Fin 2) = NaN \<and>
   Illumination.angle (getMoonIllumination NaN) = NaN \<and>
   fraction (getMoonIllumination NaN) = NaN"
  using illumination_keeps_NaN [of NaN] by simp

text \<open>
  C2 as stated fails: for a not-a-number timestamp all three fields are not-a-number,
  none is 0.
\<close>
theorem illumination_of_NaN_is_NaN:
  "getMoonIllumination NaN = \<lparr>fraction = NaN, phase = NaN, angle = NaN\<rparr> \<and>
   Illumination.angle (getMoonIllumination NaN) \<noteq> Fin 0 \<and>
   fraction (getMoonIllumination NaN) \<noteq> Fin 0"
  using illumination_nonfinite(3) [of NaN] by simp

text \<open>
  C3 (as amended). In binary64 arithmetic, for every integer timestamp \<open>t\<close> from 0 to
  8640000000000000 milliseconds (the latest moment of an ECMAScript \<^verbatim>\<open>Date\<close>) the round trip
  \<^verbatim>\<open>fromJulian(toJulian(t))\<close> returns, and its result differs from \<open>t\<close> by at most 1
  millisecond; up to \<open>2 ^ 49\<close> milliseconds it is \<open>t\<close> itself.
\<close>
theorem round_trip_within_date_range:
  fixes t :: int
  assumes "0 \<le> t" "t \<le> 8640000000000000"
  shows "\<exists>w. fromJulian_b64 mode (toJulian_b64 (Fin (of_int t))) = Some w \<and>
             \<bar>uint w - t\<bar> \<le> 1 \<and> (t \<le> 2 ^ 49 \<longrightarrow> uint w = t)"
proof -
  have "\<exists>i. fromJulian_b64 mode (toJulian_b64 (Fin (of_int t))) = Some (word_of_int i) \<and>
             \<bar>i - t\<bar> \<le> 1 \<and> (t \<le> 2 ^ 49 \<longrightarrow> i = t)"
  proof (cases "t \<le> 2 ^ 51")
    case True
    with assms(1) show ?thesis by (rule round_trip_cast)
  next
    case False
    hence "2 ^ 51 \<le> t" "\<not> t \<le> 2 ^ 49" by simp_all
    thus ?thesis using round_trip_cast_far [OF _ assms(2), of mode] by blast
  qed
  then obtain i where i: "fromJulian_b64 mode (toJulian_b64 (Fin (of_int t))) = Some (word_of_int i)"
    "\<bar>i - t\<bar> \<le> 1" "t \<le> 2 ^ 49 \<longrightarrow> i = t" by blast
  have "0 \<le> i"
  proof (cases "t \<le> 2 ^ 49")
    case True
    thus ?thesis using i(3) assms(1) by simp
  next
    case False
    thus ?thesis using i(2) by simp
  qed
  moreover have "i < 2 ^ 64" using i(2) assms(2) by simp
  ultimately have "uint (word_of_int i :: 64 word) = i"
    by (simp add: uint_word_of_int take_bit_int_eq_self)
  thus ?thesis using i by auto
qed

theorem round_trip_within_date_range_witness:
  "(0::int) \<le> 961632000000 \<and> (961632000000::int) \<le> 8640000000000000 \<and>
   (961632000000::int) \<le> 2 ^ 49 \<and>
   fromJulian_b64 Saturating (toJulian_b64 (Fin 961632000000)) = Some 961632000000"
proof -
  have a: "(0::int) \<le> 961632000000" and b: "(961632000000::int) \<le> 8640000000000000"
    and c: "(961632000000::int) \<le> 2 ^ 49" by simp_all
  from round_trip_within_date_range [OF a b, of Saturating] c
  obtain w :: "64 word" where w: "fromJulian_b64 Saturating (toJulian_b64 (Fin 961632000000)) = Some w"
    "uint w = 961632000000" by auto
  have "w = word_of_int (uint w)" by simp
  hence "w = 961632000000" unfolding w(2) by simp
  thus ?thesis using w(1) a b c by simp
qed

text \<open>
  C3 as stated fails: the timestamp \<open>5 * 10 ^ 16\<close> is an \<^verbatim>\<open>f64\<close> number, and its round trip
  returns a timestamp 8 milliseconds later.
\<close>
theorem round_trip_far_future_counterexample:
  "fromJulian_b64 Saturating (toJulian_b64 (Fin 50000000000000000)) = Some 50000000000000008 \<and>
   fromJulian_b64 Trapping (toJulian_b64 (Fin 50000000000000000)) = Some 50000000000000008 \<and>
   \<not> \<bar>uint (50000000000000008 :: 64 word) - 50000000000000000\<bar> \<le> 1"
  using far_future_round_trip [of Saturating] far_future_round_trip [of Trapping] by simp

text \<open>
  C4. In every call of \<^verbatim>\<open>getTimes\<close> that returns, the correction for the height of the
  observer is added to the threshold of every one of the six pairs before the hour angle
  is computed: each of the twelve fields is the conversion of the Julian moment obtained
  from the hour angle of \<open>corrected_threshold degrees h\<close>, for the thresholds of -0.833,
  -0.3, -6, -12, -18 and 6 degrees alike.
\<close>
theorem height_correction_all_pairs:
  assumes "getTimes mode timestamp lat lon h = Some r"
      and "getTimes_args timestamp lat lon h = (j_noon, dh, lw, phi, dec, n, m, l)"
  shows "let j_set = (\<lambda>degrees. solarTransitJ
                        (approxTransit (hourAngle (corrected_threshold degrees h) phi dec) lw n) m l);
             rise = (\<lambda>degrees. fromJulian mode (f_sub j_noon (f_sub (j_set degrees) j_noon)));
             set = (\<lambda>degrees. fromJulian mode (j_set degrees))
         in rise (- 0.833) = Some (sunrise r) \<and> set (- 0.833) = Some (sunset r) \<and>
            rise (- 0.3) = Some (sunrise_end r) \<and> set (- 0.3) = Some (sunsetStart r) \<and>
            rise (- 6) = Some (dawn r) \<and> set (- 6) = Some (dusk r) \<and>
            rise (- 12) = Some (nauticalDawn r) \<and> set (- 12) = Some (nauticalDusk r) \<and>
            rise (- 18) = Some (nightEnd r) \<and> set (- 18) = Some (night r) \<and>
            rise 6 = Some (goldenHourEnd r) \<and> set 6 = Some (goldenHour r)"
proof -
  have dh: "dh = observerAngle h" using assms(2) by (rule getTimes_args_dh)
  note g = getTimes_Some [OF assms, unfolded dh]
  show ?thesis
    unfolding Let_def
    using calc_fields [OF g(1) [unfolded SUNRISE_SUNSET_def]]
          calc_fields [OF g(2) [unfolded SUNRISE_END_SUNSET_START_def]]
          calc_fields [OF g(3) [unfolded DAWN_DUSK_def]]
          calc_fields [OF g(4) [unfolded NAUTICAL_DAWN_NAUTICAL_DUSK_def]]
          calc_fields [OF g(5) [unfolded NIGHT_END_NIGHT_def]]
          calc_fields [OF g(6) [unfolded GOLDEN_HOUR_END_GOLDEN_HOUR_def]]
    by blast
qed

text \<open>
  A call that returns with six finite hour angles: the equator at longitude 0 on 22 June
  2000, 100 metres above the sea, under the saturating conversion. The correction is
  -0.346 degrees; the hour angles of the thresholds of -18 and 6 degrees are numbers, and
  they are not the hour angles of the uncorrected thresholds.
\<close>
theorem height_correction_all_pairs_witness:
  "getTimes Saturating (Fin 961632000000) (Fin 0) (Fin 0) (Fin 100) \<noteq> None \<and>
   getTimes_args (Fin 961632000000) (Fin 0) (Fin 0) (Fin 100) =
     (solarTransitJ (Fin 172.0009) (Fin polar_M) (eclipticLongitude (Fin polar_M)),
      Fin (- 0.346), NZero, Fin 0,
      declination (eclipticLongitude (Fin polar_M)) (Fin 0),
      Fin 172, Fin polar_M, eclipticLongitude (Fin polar_M)) \<and>
   map_option night (getTimes Saturating (Fin 961632000000) (Fin 0) (Fin 0) (Fin 100)) =
     fromJulian Saturating
       (solarTransitJ (approxTransit (hourAngle (corrected_threshold (- 18) (Fin 100)) (Fin 0)
          (declination (eclipticLongitude (Fin polar_M)) (Fin 0))) NZero (Fin 172))
          (Fin polar_M) (eclipticLongitude (Fin polar_M))) \<and>
   map_option goldenHour (getTimes Saturating (Fin 961632000000) (Fin 0) (Fin 0) (Fin 100)) =
     fromJulian Saturating
       (solarTransitJ (approxTransit (hourAngle (corrected_threshold 6 (Fin 100)) (Fin 0)
          (declination (eclipticLongitude (Fin polar_M)) (Fin 0))) NZero (Fin 172))
          (Fin polar_M) (eclipticLongitude (Fin polar_M))) \<and>
   is_finite (hourAngle (corrected_threshold (- 18) (Fin 100)) (Fin 0)
     (declination (eclipticLongitude (Fin polar_M)) (Fin 0))) \<and>
   hourAngle (corrected_threshold (- 18) (Fin 100)) (Fin 0)
     (declination (eclipticLongitude (Fin polar_M)) (Fin 0))
   \<noteq> hourAngle (corrected_threshold (- 18) (Fin 0)) (Fin 0)
     (declination (eclipticLongitude (Fin polar_M)) (Fin 0)) \<and>
   is_finite (hourAngle (corrected_threshold 6 (Fin 100)) (Fin 0)
     (declination (eclipticLongitude (Fin polar_M)) (Fin 0))) \<and>
   hourAngle (corrected_threshold 6 (Fin 100)) (Fin 0)
     (declination (eclipticLongitude (Fin polar_M)) (Fin 0))
   \<noteq> hourAngle (corrected_threshold 6 (Fin 0)) (Fin 0)
     (declination (eclipticLongitude (Fin polar_M)) (Fin 0))"
proof -
  obtain r where r: "getTimes Saturating (Fin 961632000000) (Fin 0) (Fin 0) (Fin 100) = Some r"
    using getTimes_Saturating_total by blast
  have a: "(- 59 :: real) \<le> - 18" "(- 18 :: real) \<le> 60" "(- 59 :: real) \<le> 6" "(6 :: real) \<le> 60"
    by simp_all
  from height_correction_all_pairs [OF r hill_args]
  have "fromJulian Saturating
       (solarTransitJ (approxTransit (hourAngle (corrected_threshold (- 18) (Fin 100)) (Fin 0)
          (declination (eclipticLongitude (Fin polar_M)) (Fin 0))) NZero (Fin 172))
          (Fin polar_M) (eclipticLongitude (Fin polar_M))) = Some (night r)"
    and "fromJulian Saturating
       (solarTransitJ (approxTransit (hourAngle (corrected_threshold 6 (Fin 100)) (Fin 0)
          (declination (eclipticLongitude (Fin polar_M)) (Fin 0))) NZero (Fin 172))
          (Fin polar_M) (eclipticLongitude (Fin polar_M))) = Some (goldenHour r)"
    unfolding Let_def by blast+
  thus ?thesis
    using hill_hour_angle [OF a(1,2)] hill_hour_angle [OF a(3,4)] hill_args
    by (simp only: r option.map) simp
qed

text \<open>
  C5. For every timestamp for which the results of \<^verbatim>\<open>getMoonIllumination\<close> are not
  not-a-number: the phase angle \<open>inc\<close> lies between 0 and \<open>\<pi>\<close> (the first argument of its
  \<^verbatim>\<open>atan2\<close> is not negative), the fraction \<open>(1 + cos inc) / 2\<close> lies between 0 and 1, and
  the phase \<open>0.5 + 0.5 \<cdot> inc \<cdot> sign / \<pi>\<close> lies between 0 and 1.
\<close>
theorem illumination_ranges:
  "(illum_inc t \<noteq> NaN \<longrightarrow>
      is_finite (illum_inc t) \<and> 0 \<le> f_val (illum_inc t) \<and> f_val (illum_inc t) \<le> pi) \<and>
   (fraction (getMoonIllumination t) \<noteq> NaN \<longrightarrow>
      is_finite (fraction (getMoonIllumination t)) \<and>
      0 \<le> f_val (fraction (getMoonIllumination t)) \<and>
      f_val (fraction (getMoonIllumination t)) \<le> 1) \<and>
   (phase (getMoonIllumination t) \<noteq> NaN \<longrightarrow>
      is_finite (phase (getMoonIllumination t)) \<and>
      0 \<le> f_val (phase (getMoonIllumination t)) \<and>
      f_val (phase (getMoonIllumination t)) \<le> 1)"
proof (cases "illum_inc t = NaN")
  case True
  thus ?thesis by (simp add: getMoonIllumination_def Let_def)
next
  case False
  define i where "i = f_val (illum_inc t)"
  from False illum_inc_range [of t]
  have inc: "illum_inc t = Fin i" and i0: "0 \<le> i" and i1: "i \<le> pi" by (simp_all add: i_def)
  have fr: "is_finite (fraction (getMoonIllumination t))"
           "f_val (fraction (getMoonIllumination t)) = (1 + cos i) / 2"
    by (simp_all add: getMoonIllumination_def Let_def inc)
  have frb: "0 \<le> (1 + cos i) / 2 \<and> (1 + cos i) / 2 \<le> 1"
    by (rule half_range [OF cos_ge_minus_one cos_le_one])
  define s :: real where "s = (if f_lt (illum_angle t) (Fin 0) then - 1 else 1)"
  have ph: "is_finite (phase (getMoonIllumination t))"
           "f_val (phase (getMoonIllumination t)) = 0.5 + 0.5 * i * s / pi"
    by (simp_all add: getMoonIllumination_def Let_def inc s_def PI_def fin_simps)
  have q: "0 \<le> i / pi" "i / pi \<le> 1" using i0 i1 pi_gt_zero by simp_all
  have "s = 1 \<or> s = - 1" by (simp add: s_def)
  from phase_range [OF q this]
  have phb: "0 \<le> 0.5 + 0.5 * i * s / pi \<and> 0.5 + 0.5 * i * s / pi \<le> 1"
    by (simp add: field_simps)
  have frv: "0 \<le> f_val (fraction (getMoonIllumination t)) \<and>
             f_val (fraction (getMoonIllumination t)) \<le> 1"
    unfolding fr(2) by (rule frb)
  have phv: "0 \<le> f_val (phase (getMoonIllumination t)) \<and>
             f_val (phase (getMoonIllumination t)) \<le> 1"
    unfolding ph(2) by (rule phb)
  show ?thesis using i0 i1 fr(1) ph(1) frv phv by (simp add: inc)
qed

text \<open>The results are numbers for every finite timestamp, so at the epoch itself.\<close>
theorem illumination_ranges_witness:
  "illum_inc (Fin 0) \<noteq> NaN \<and>
   fraction (getMoonIllumination (Fin 0)) \<noteq> NaN \<and>
   phase (getMoonIllumination (Fin 0)) \<noteq> NaN \<and>
   0 \<le> f_val (illum_inc (Fin 0)) \<and> f_val (illum_inc (Fin 0)) \<le> pi \<and>
   0 \<le> f_val (fraction (getMoonIllumination (Fin 0))) \<and>
   f_val (fraction (getMoonIllumination (Fin 0))) \<le> 1 \<and>
   0 \<le> f_val (phase (getMoonIllumination (Fin 0))) \<and>
   f_val (phase (getMoonIllumination (Fin 0))) \<le> 1"
proof -
  have f: "is_finite (Fin 0)" by simp
  have "illum_inc (Fin 0) \<noteq> NaN" "fraction (getMoonIllumination (Fin 0)) \<noteq> NaN"
       "phase (getMoonIllumination (Fin 0)) \<noteq> NaN"
    using illum_inc_fin [OF f] illumination_fin [OF f] by (simp_all add: is_finite_not_NaN)
  with illumination_ranges [of "Fin 0"] show ?thesis by blast
qed

text \<open>
  C6 (as amended). In binary64 arithmetic the mirroring step is exact after Julian day 0:
  for all \<^verbatim>\<open>f64\<close> numbers \<open>j_noon\<close> and \<open>j_set\<close> with \<open>0 < j_noon \<le> j_set \<le> 2 \<cdot> j_noon\<close> neither
  subtraction of \<open>j_rise = j_noon - (j_set - j_noon)\<close> rounds, and
  \<open>j_noon - j_rise == j_set - j_noon\<close> holds: both differences are the number
  \<open>j_set - j_noon\<close>.
\<close>
theorem mirrored_rise_symmetric_after_day_zero:
  assumes "b64 (Fin j_noon) = Fin j_noon" and "b64 (Fin j_set) = Fin j_set"
      and "0 < j_noon" and "j_noon \<le> j_set" and "j_set \<le> 2 * j_noon"
  shows "calc_j_rise_b64 (Fin j_noon) (Fin j_set) = Fin (j_noon - (j_set - j_noon)) \<and>
         b64 (f_sub (Fin j_noon) (calc_j_rise_b64 (Fin j_noon) (Fin j_set))) = Fin (j_set - j_noon) \<and>
         b64 (f_sub (Fin j_set) (Fin j_noon)) = Fin (j_set - j_noon) \<and>
         f_eq (b64 (f_sub (Fin j_noon) (calc_j_rise_b64 (Fin j_noon) (Fin j_set))))
              (b64 (f_sub (Fin j_set) (Fin j_noon)))"
proof -
  note m = mirror_without_rounding [OF assms]
  have rise: "calc_j_rise_b64 (Fin j_noon) (Fin j_set) = Fin (j_noon - (j_set - j_noon))"
    unfolding calc_j_rise_b64_def f_sub_Fin m ..
  have "j_noon - (j_noon - (j_set - j_noon)) = j_set - j_noon" by simp
  hence bk: "b64 (f_sub (Fin j_noon) (calc_j_rise_b64 (Fin j_noon) (Fin j_set))) = Fin (j_set - j_noon)"
    unfolding rise f_sub_Fin using m(1) by simp
  have fw: "b64 (f_sub (Fin j_set) (Fin j_noon)) = Fin (j_set - j_noon)"
    unfolding f_sub_Fin by (rule m(1))
  show ?thesis unfolding bk fw using rise by simp
qed

theorem mirrored_rise_symmetric_after_day_zero_witness:
  "b64 (Fin 2451545) = Fin 2451545 \<and> b64 (Fin 2451545.25) = Fin 2451545.25 \<and>
   (0::real) < 2451545 \<and> (2451545::real) \<le> 2451545.25 \<and> (2451545.25::real) \<le> 2 * 2451545 \<and>
   calc_j_rise_b64 (Fin 2451545) (Fin 2451545.25) = Fin 2451544.75 \<and>
   f_eq (b64 (f_sub (Fin 2451545) (calc_j_rise_b64 (Fin 2451545) (Fin 2451545.25))))
        (b64 (f_sub (Fin 2451545.25) (Fin 2451545)))"
proof -
  have r: "(0::real) < 2451545" "(2451545::real) \<le> 2451545.25" "(2451545.25::real) \<le> 2 * 2451545"
    by simp_all
  from mirrored_rise_symmetric_after_day_zero [OF f64_2451545 f64_2451545_25 r]
  show ?thesis using f64_2451545 f64_2451545_25 by simp
qed

text \<open>
  C6 as stated fails in two ways. Before Julian day 0 the mirrored moment is farther from
  0 than the noon and needs a bit more than the noon has: for \<open>j_noon = -7/8\<close> and
  \<open>j_set = -(5/8 + 2\<^sup>-\<^sup>5\<^sup>3)\<close> the step rounds \<open>j_rise\<close> to \<open>-9/8\<close>, so that \<open>j_noon - j_rise\<close> is \<open>1/4\<close>
  and \<open>j_set - j_noon\<close> is \<open>1/4 - 2\<^sup>-\<^sup>5\<^sup>3\<close>. And where a threshold is never crossed, as that of
  -18 degrees at latitude 78 on 22 June 2000, \<open>j_set\<close> is not-a-number, so are both
  differences, and \<^verbatim>\<open>==\<close> is false of them.
\<close>
theorem mirrored_rise_not_symmetric:
  "b64 (Fin (- (7 / 8))) = Fin (- (7 / 8)) \<and>
   b64 (Fin (- (5 / 8 + 1 / 2 ^ 53))) = Fin (- (5 / 8 + 1 / 2 ^ 53)) \<and>
   calc_j_rise_b64 (Fin (- (7 / 8))) (Fin (- (5 / 8 + 1 / 2 ^ 53))) = Fin (- (9 / 8)) \<and>
   b64 (f_sub (Fin (- (7 / 8))) (calc_j_rise_b64 (Fin (- (7 / 8))) (Fin (- (5 / 8 + 1 / 2 ^ 53)))))
     = Fin (1 / 4) \<and>
   b64 (f_sub (Fin (- (5 / 8 + 1 / 2 ^ 53))) (Fin (- (7 / 8)))) = Fin (1 / 4 - 1 / 2 ^ 53) \<and>
   \<not> f_eq (b64 (f_sub (Fin (- (7 / 8)))
                (calc_j_rise_b64 (Fin (- (7 / 8))) (Fin (- (5 / 8 + 1 / 2 ^ 53))))))
           (b64 (f_sub (Fin (- (5 / 8 + 1 / 2 ^ 53))) (Fin (- (7 / 8))))) \<and>
   getTimes_args (Fin 961632000000) (Fin 78) (Fin 0) (Fin 0) =
     (solarTransitJ (Fin 172.0009) (Fin polar_M) (eclipticLongitude (Fin polar_M)),
      NZero, NZero, Fin (78 * (pi / 180)),
      declination (eclipticLongitude (Fin polar_M)) (Fin 0),
      Fin 172, Fin polar_M, eclipticLongitude (Fin polar_M)) \<and>
   calc_j_set NIGHT_END_NIGHT NZero NZero (Fin (78 * (pi / 180)))
     (declination (eclipticLongitude (Fin polar_M)) (Fin 0))
     (Fin 172) (Fin polar_M) (eclipticLongitude (Fin polar_M)) = NaN \<and>
   \<not> f_eq (b64 (f_sub (solarTransitJ (Fin 172.0009) (Fin polar_M) (eclipticLongitude (Fin polar_M)))
                (calc_j_rise_b64
                   (solarTransitJ (Fin 172.0009) (Fin polar_M) (eclipticLongitude (Fin polar_M)))
                   NaN)))
           (b64 (f_sub NaN
                   (solarTransitJ (Fin 172.0009) (Fin polar_M) (eclipticLongitude (Fin polar_M)))))"
proof -
  have d: "f_sub (Fin (- (5 / 8 + 1 / 2 ^ 53))) (Fin (- (7 / 8))) = Fin (1 / 4 - 1 / 2 ^ 53)"
    by simp
  have r: "f_sub (Fin (- (7 / 8))) (Fin (1 / 4 - 1 / 2 ^ 53)) = Fin (- (9 / 8) + 1 / 2 ^ 53)"
    by simp
  have b: "f_sub (Fin (- (7 / 8))) (Fin (- (9 / 8))) = Fin (1 / 4)"
    by simp
  have rise: "calc_j_rise_b64 (Fin (- (7 / 8))) (Fin (- (5 / 8 + 1 / 2 ^ 53))) = Fin (- (9 / 8))"
    unfolding calc_j_rise_b64_def d before_day_zero_steps(3) r before_day_zero_steps(4) ..
  have bk: "b64 (f_sub (Fin (- (7 / 8)))
      (calc_j_rise_b64 (Fin (- (7 / 8))) (Fin (- (5 / 8 + 1 / 2 ^ 53))))) = Fin (1 / 4)"
    unfolding rise b before_day_zero_steps(5) ..
  have fw: "b64 (f_sub (Fin (- (5 / 8 + 1 / 2 ^ 53))) (Fin (- (7 / 8)))) = Fin (1 / 4 - 1 / 2 ^ 53)"
    unfolding d before_day_zero_steps(3) ..
  have ne: "\<not> f_eq (Fin (1 / 4)) (Fin (1 / 4 - 1 / 2 ^ 53))" by simp
  show ?thesis
    unfolding bk fw using rise ne before_day_zero_steps(1,2) polar_args polar_night_j_set
      mirror_of_NaN(2)
    by blast
qed

text \<open>
  C7. The Julian day 2440586.5 is one day before the Unix epoch. The timestamp that
  \<^verbatim>\<open>fromJulian\<close> returns for it is the \<^verbatim>\<open>u64\<close> 18446744073623151616, that is
  \<open>2\<^sup>6\<^sup>4 - 86400000\<close>: the unsigned reading of the 64 bits of -86400000, not the negative
  number of milliseconds that C7 states.
\<close>
theorem fromJulian_before_epoch_unsigned:
  "fromJulian Saturating (Fin 2440586.5) = Some (word_of_int (- 86400000)) \<and>
   fromJulian Trapping (Fin 2440586.5) = Some (word_of_int (- 86400000)) \<and>
   unat (word_of_int (- 86400000) :: Timestamp) = 18446744073623151616 \<and>
   sint (word_of_int (- 86400000) :: Timestamp) = - 86400000"
  by (simp add: fromJulian_Fin I64_MIN_def I64_MAX_def)

text \<open>
  C8 as stated fails: for the Julian day 2440587.49951171875 the scaled value is exactly
  -42187.5, also in binary64 arithmetic, and \<^verbatim>\<open>fromJulian\<close> returns -42187, the integer
  nearer to zero, not -42188.
\<close>
theorem fromJulian_negative_tie_counterexample:
  "fromJulian_scaled_b64 (Fin 2440587.49951171875) = Fin (- 42187.5) \<and>
   fromJulian_b64 Saturating (Fin 2440587.49951171875) = Some (word_of_int (- 42187)) \<and>
   fromJulian_b64 Trapping (Fin 2440587.49951171875) = Some (word_of_int (- 42187)) \<and>
   (word_of_int (- 42187) :: Timestamp) \<noteq> word_of_int (- 42188)"
proof -
  have a: "fromJulian_scaled_b64 (Fin 2440587.49951171875) = Fin (real_of_int (- 42188) + 1 / 2)"
    unfolding scaled_minus_42187_5 by simp
  have "fromJulian_b64 mode (Fin 2440587.49951171875) = Some (word_of_int (- 42187))" for mode
    using fromJulian_b64_at_tie(1) [OF a, of mode] by simp
  thus ?thesis using scaled_minus_42187_5 by simp
qed

text \<open>
  C8 (as amended). \<^verbatim>\<open>fromJulian\<close> rounds a tie towards plus infinity: for every Julian day
  whose scaled value, the \<^verbatim>\<open>f64\<close> number that the code passes to \<^verbatim>\<open>round\<close>, is \<open>k + 1/2\<close>
  for an integer \<open>k\<close>, the result is \<open>k + 1\<close>, also for negative values. Such a \<open>k\<close> lies
  from \<open>-2\<^sup>5\<^sup>2\<close> to \<open>2\<^sup>5\<^sup>2 - 1\<close>: beyond, no \<^verbatim>\<open>f64\<close> number lies halfway between two integers.
\<close>
theorem fromJulian_tie_towards_plus_infinity:
  assumes "fromJulian_scaled_b64 j = Fin (of_int k + 1 / 2)"
  shows "fromJulian_b64 mode j = Some (word_of_int (k + 1)) \<and> - (2 ^ 52) \<le> k \<and> k < 2 ^ 52"
  using fromJulian_b64_at_tie [OF assms] by simp

theorem fromJulian_tie_towards_plus_infinity_witness:
  "fromJulian_scaled_b64 (Fin 2440587.49951171875) = Fin (real_of_int (- 42188) + 1 / 2) \<and>
   fromJulian_b64 Saturating (Fin 2440587.49951171875) = Some (word_of_int (- 42188 + 1)) \<and>
   fromJulian_b64 Trapping (Fin 2440587.49951171875) = Some (word_of_int (- 42188 + 1))"
proof -
  have a: "fromJulian_scaled_b64 (Fin 2440587.49951171875) = Fin (real_of_int (- 42188) + 1 / 2)"
    unfolding scaled_minus_42187_5 by simp
  show ?thesis
    using fromJulian_tie_towards_plus_infinity [OF a, of Saturating]
          fromJulian_tie_towards_plus_infinity [OF a, of Trapping] a
    by blast
qed

text \<open>
  C9. For every timestamp, latitude and longitude \<^verbatim>\<open>getMoonPosition\<close> returns 0 for a
  distance or parallactic angle that is not-a-number or a zero of either sign and the
  computed value otherwise, and for every day value \<^verbatim>\<open>moonCoords\<close> does the same for its
  distance; none of the three fields is ever not-a-number or the negative zero. For a
  not-a-number timestamp the values are degenerate and all three fields are 0.
\<close>
theorem moon_fallback_to_zero:
  "Coords.distance (moonCoords d) =
     (if moon_distance d = NaN \<or> moon_distance d = NZero \<or> moon_distance d = Fin 0
      then Fin 0 else moon_distance d) \<and>
   Position.distance (getMoonPosition timestamp lat lon) =
     (if Coords.distance (moonCoords (toDays timestamp)) = NaN
         \<or> Coords.distance (moonCoords (toDays timestamp)) = NZero
         \<or> Coords.distance (moonCoords (toDays timestamp)) = Fin 0
      then Fin 0 else Coords.distance (moonCoords (toDays timestamp))) \<and>
   parallacticAngle (getMoonPosition timestamp lat lon) =
     (if moon_pa timestamp lat lon = NaN \<or> moon_pa timestamp lat lon = NZero
         \<or> moon_pa timestamp lat lon = Fin 0
      then Fin 0 else moon_pa timestamp lat lon) \<and>
   Coords.distance (moonCoords d) \<noteq> NaN \<and> Coords.distance (moonCoords d) \<noteq> NZero \<and>
   Position.distance (getMoonPosition timestamp lat lon) \<noteq> NaN \<and>
   Position.distance (getMoonPosition timestamp lat lon) \<noteq> NZero \<and>
   parallacticAngle (getMoonPosition timestamp lat lon) \<noteq> NaN \<and>
   parallacticAngle (getMoonPosition timestamp lat lon) \<noteq> NZero \<and>
   Coords.distance (moonCoords NaN) = Fin 0 \<and>
   Position.distance (getMoonPosition NaN lat lon) = Fin 0 \<and>
   parallacticAngle (getMoonPosition NaN lat lon) = Fin 0"
proof -
  have nan_days: "toDays NaN = NaN"
    by (simp add: toDays_def toJulian_def)
  have nan_dist: "moon_distance NaN = NaN"
    by (simp add: moon_distance_def lunarMeanAnomaly_def)
  have nan_pa: "moon_pa NaN lat lon = NaN"
    by (simp add: moon_pa_def Let_def nan_days siderealTime_def)
  have c: "Coords.distance (moonCoords x) = f_or (moon_distance x) (Fin 0)" for x
    by (simp add: moonCoords_def Let_def)
  have p: "Position.distance (getMoonPosition t la lo) =
             f_or (Coords.distance (moonCoords (toDays t))) (Fin 0)"
          "parallacticAngle (getMoonPosition t la lo) = f_or (moon_pa t la lo) (Fin 0)" for t la lo
    by (simp_all add: getMoonPosition_def Let_def)
  show ?thesis
    unfolding c p nan_days nan_dist nan_pa
    by (simp add: f_or_cases)
qed

text \<open>
  C10 (as amended). In binary64 arithmetic, for every finite day value \<open>d\<close> of absolute
  value at most \<open>2\<^sup>1\<^sup>0\<^sup>2\<^sup>0\<close> the distance that \<^verbatim>\<open>moonCoords\<close> returns is the computed
  \<open>385001 - 20905 \<cdot> cos (lunarMeanAnomaly d)\<close>, untouched by the fallback, and lies between
  364096 and 405906 kilometres.
\<close>
theorem moon_distance_range_without_overflow:
  assumes "is_finite d" "\<bar>f_val d\<bar> \<le> 2 ^ 1020"
  shows "moonCoords_distance_b64 d = moon_distance_b64 d \<and> is_finite (moon_distance_b64 d) \<and>
         364096 \<le> f_val (moon_distance_b64 d) \<and> f_val (moon_distance_b64 d) \<le> 405906"
  using assms by (rule moon_distance_b64_kept)

theorem moon_distance_range_without_overflow_witness:
  "is_finite (Fin 10000) \<and> \<bar>f_val (Fin 10000)\<bar> \<le> 2 ^ 1020 \<and>
   moonCoords_distance_b64 (Fin 10000) = moon_distance_b64 (Fin 10000) \<and>
   is_finite (moon_distance_b64 (Fin 10000)) \<and>
   364096 \<le> f_val (moon_distance_b64 (Fin 10000)) \<and>
   f_val (moon_distance_b64 (Fin 10000)) \<le> 405906"
proof -
  have a: "is_finite (Fin 10000)" "\<bar>f_val (Fin 10000)\<bar> \<le> 2 ^ 1020" by simp_all
  from moon_distance_range_without_overflow [OF a] a show ?thesis by blast
qed

text \<open>
  C10 as stated fails: the day value \<open>2\<^sup>1\<^sup>0\<^sup>2\<^sup>3\<close> is finite, but \<open>13.064993 \<cdot> d\<close> overflows
  to infinity, the cosine of the mean anomaly is not-a-number, so is the distance, and
  the fallback returns 0.
\<close>
theorem moon_distance_overflow_counterexample:
  "is_finite (Fin (2 ^ 1023)) \<and> moonCoords_distance_b64 (Fin (2 ^ 1023)) = Fin 0 \<and>
   \<not> 364096 \<le> f_val (moonCoords_distance_b64 (Fin (2 ^ 1023)))"
proof -
  have c: "f_cos_b64 PInf = NaN" by (simp add: f_cos_b64_def)
  have m: "b64 (f_mul (Fin 20905) NaN) = NaN" by simp
  have s: "b64 (f_sub (Fin 385001) NaN) = NaN" by (simp add: f_sub_def)
  have "moon_distance_b64 (Fin (2 ^ 1023)) = NaN"
    unfolding moon_distance_b64_def lunarMeanAnomaly_b64_overflow c m s ..
  hence "moonCoords_distance_b64 (Fin (2 ^ 1023)) = Fin 0"
    by (simp only: moonCoords_distance_b64_def f_or_def truthy_def) simp
  thus ?thesis by (simp only:) simp
qed

end
